(* ===== verification/Prelude.thy ===== *)
theory Prelude
  imports Main "HOL-Library.Word" "HOL-Library.List_Lexorder" "HOL-Library.Char_ord"
begin

text \<open>
  Shared vocabulary of the development: the Python values the modelled code computes with
  (strings, bytes, hexadecimal text, the rows an SQL query returns), the generic lemmas on
  them, the lemma collections the component theories extend, and the interfaces (locales)
  that several components implement.

  A Python \<open>str\<close> is a \<^typ>\<open>string\<close>: its characters are the code points below 256, for which
  \<open>lower\<close>, \<open>strip\<close> and the UTF-8 encoding are written out exactly. A Python \<open>bytes\<close> value is
  a list of 8-bit words.
\<close>

named_theorems table_simps \<open>how the rows of a table change under the operations\<close>
named_theorems guard_simps \<open>the guards of an operation, unfolded\<close>

type_synonym byte = "8 word"
type_synonym bytes = "byte list"

subsection \<open>Strings\<close>

definition lower_char :: "char \<Rightarrow> char" where
  "lower_char c =
     (let n = (of_char c :: nat) in
      if 65 \<le> n \<and> n \<le> 90 \<or> 192 \<le> n \<and> n \<le> 214 \<or> 216 \<le> n \<and> n \<le> 222
      then char_of (n + 32) else c)"

definition lower :: "string \<Rightarrow> string" where
  "lower s = map lower_char s"

definition upper_char :: "char \<Rightarrow> char" where
  "upper_char c =
     (let n = (of_char c :: nat) in if 97 \<le> n \<and> n \<le> 122 then char_of (n - 32) else c)"

definition is_space :: "char \<Rightarrow> bool" where
  "is_space c =
     (let n = (of_char c :: nat) in
      9 \<le> n \<and> n \<le> 13 \<or> 28 \<le> n \<and> n \<le> 32 \<or> n = 133 \<or> n = 160)"

definition strip :: "string \<Rightarrow> string" where
  "strip s = rev (dropWhile is_space (rev (dropWhile is_space s)))"

definition starts_with :: "string \<Rightarrow> string \<Rightarrow> bool" where
  "starts_with s p \<longleftrightarrow> take (length p) s = p"

fun contains :: "string \<Rightarrow> string \<Rightarrow> bool" where
  "contains [] p = (p = [])"
| "contains (c # s) p = (starts_with (c # s) p \<or> contains s p)"

text \<open>\<open>s.split(sep, 1)\<close>: the text before the first separator and, if there is one, the rest.\<close>

fun split_first :: "char \<Rightarrow> string \<Rightarrow> string \<times> string option" where
  "split_first sep [] = ([], None)"
| "split_first sep (c # s) =
     (if c = sep then ([], Some s)
      else (case split_first sep s of (a, b) \<Rightarrow> (c # a, b)))"

text \<open>\<open>s.split(sep)\<close>: never empty.\<close>

fun split_all :: "char \<Rightarrow> string \<Rightarrow> string list" where
  "split_all sep [] = [[]]"
| "split_all sep (c # s) =
     (if c = sep then [] # split_all sep s
      else (case split_all sep s of [] \<Rightarrow> [[c]] | w # ws \<Rightarrow> (c # w) # ws))"

definition is_upper :: "char \<Rightarrow> bool" where
  "is_upper c = (let n = (of_char c :: nat) in 65 \<le> n \<and> n \<le> 90)"

definition is_digit :: "char \<Rightarrow> bool" where
  "is_digit c = (let n = (of_char c :: nat) in 48 \<le> n \<and> n \<le> 57)"

text \<open>
  The regular expressions of the code are sequences of a character class repeated between
  \<open>m\<close> and \<open>n\<close> times (\<open>None\<close>: no upper bound), anchored at both ends.
\<close>

type_synonym rx_item = "(char \<Rightarrow> bool) \<times> nat \<times> nat option"

fun rx_match :: "rx_item list \<Rightarrow> string \<Rightarrow> bool" where
  "rx_match [] s = (s = [])"
| "rx_match ((p, m, n) # rs) s =
     (\<exists>k \<in> set [m ..< Suc (case n of None \<Rightarrow> length s | Some b \<Rightarrow> min b (length s))].
        list_all p (take k s) \<and> k \<le> length s \<and> rx_match rs (drop k s))"

definition rx_char :: "char \<Rightarrow> rx_item" where
  "rx_char c = ((\<lambda>x. x = c), 1, Some 1)"

definition rx_lit :: "string \<Rightarrow> rx_item list" where
  "rx_lit s = map rx_char s"

subsection \<open>Bytes, UTF-8 and hexadecimal text\<close>

definition utf8_char :: "char \<Rightarrow> bytes" where
  "utf8_char c =
     (let n = (of_char c :: nat) in
      if n < 128 then [of_nat n] else [of_nat (192 + n div 64), of_nat (128 + n mod 64)])"

definition utf8 :: "string \<Rightarrow> bytes" where
  "utf8 s = concat (map utf8_char s)"

definition hex_digit :: "nat \<Rightarrow> char" where
  "hex_digit n = (if n < 10 then char_of (48 + n) else char_of (87 + n))"

definition hex_val :: "char \<Rightarrow> nat option" where
  "hex_val c =
     (let n = (of_char c :: nat) in
      if 48 \<le> n \<and> n \<le> 57 then Some (n - 48)
      else if 97 \<le> n \<and> n \<le> 102 then Some (n - 87)
      else if 65 \<le> n \<and> n \<le> 70 then Some (n - 55)
      else None)"

definition hex_byte :: "byte \<Rightarrow> string" where
  "hex_byte b = [hex_digit (unat b div 16), hex_digit (unat b mod 16)]"

text \<open>\<open>bytes.hex()\<close>.\<close>

definition bytes_hex :: "bytes \<Rightarrow> string" where
  "bytes_hex bs = concat (map hex_byte bs)"

text \<open>\<open>bytes.fromhex(s)\<close>: ASCII whitespace between bytes is skipped, anything else raises.\<close>

definition is_ascii_space :: "char \<Rightarrow> bool" where
  "is_ascii_space c = (let n = (of_char c :: nat) in 9 \<le> n \<and> n \<le> 13 \<or> n = 32)"

fun fromhex :: "string \<Rightarrow> bytes option" where
  "fromhex [] = Some []"
| "fromhex [c] = (if is_ascii_space c then Some [] else None)"
| "fromhex (c # d # s) =
     (if is_ascii_space c then fromhex (d # s)
      else (case (hex_val c, hex_val d) of
              (Some x, Some y) \<Rightarrow> map_option ((#) (of_nat (16 * x + y))) (fromhex s)
            | _ \<Rightarrow> None))"

text \<open>\<open>int.to_bytes(k, "big")\<close> (\<open>None\<close>: OverflowError) and \<open>int.from_bytes(b, "big")\<close>.\<close>

fun be_bytes :: "nat \<Rightarrow> int \<Rightarrow> bytes" where
  "be_bytes 0 n = []"
| "be_bytes (Suc k) n = be_bytes k (n div 256) @ [of_int (n mod 256)]"

definition to_bytes :: "nat \<Rightarrow> int \<Rightarrow> bytes option" where
  "to_bytes k x = (if 0 \<le> x \<and> x < 256 ^ k then Some (be_bytes k x) else None)"

definition from_bytes :: "bytes \<Rightarrow> int" where
  "from_bytes bs = foldl (\<lambda>a b. 256 * a + uint b) 0 bs"

subsection \<open>Rows of a query\<close>

text \<open>
  \<open>scalar_one_or_none()\<close> on the rows a statement selected: it raises
  \<open>MultipleResultsFound\<close> when there is more than one.
\<close>

datatype 'a one = NoRow | OneRow 'a | ManyRows

fun scalar_one_or_none :: "'a list \<Rightarrow> 'a one" where
  "scalar_one_or_none [] = NoRow"
| "scalar_one_or_none [x] = OneRow x"
| "scalar_one_or_none (x # y # zs) = ManyRows"

text \<open>\<open>ORDER BY key DESC LIMIT 1\<close>; among rows with the same key the first row of the table wins.\<close>

fun latest :: "('a \<Rightarrow> 'k::linorder) \<Rightarrow> 'a list \<Rightarrow> 'a option" where
  "latest key [] = None"
| "latest key (x # xs) =
     (case latest key xs of
        None \<Rightarrow> Some x
      | Some y \<Rightarrow> Some (if key y > key x then y else x))"

text \<open>\<open>UPDATE ... WHERE p\<close>, or the attribute writes on the one row selected by \<open>p\<close>.\<close>

definition update_where :: "('a \<Rightarrow> bool) \<Rightarrow> ('a \<Rightarrow> 'a) \<Rightarrow> 'a list \<Rightarrow> 'a list" where
  "update_where p f rows = map (\<lambda>r. if p r then f r else r) rows"

subsection \<open>Lemmas on rows\<close>

lemma scalar_one_or_none_OneRow [dest]: "scalar_one_or_none xs = OneRow x \<Longrightarrow> xs = [x]"
  by (cases xs rule: scalar_one_or_none.cases) auto

lemma scalar_one_or_none_NoRow [simp]: "scalar_one_or_none xs = NoRow \<longleftrightarrow> xs = []"
  by (cases xs rule: scalar_one_or_none.cases) auto

lemma latest_mem: "latest key xs = Some x \<Longrightarrow> x \<in> set xs"
  by (induction xs arbitrary: x) (auto split: option.splits if_splits)

lemma latest_None [simp]: "latest key xs = None \<longleftrightarrow> xs = []"
  by (cases xs) (auto split: option.splits)

lemma latest_max: "latest key xs = Some x \<Longrightarrow> y \<in> set xs \<Longrightarrow> key y \<le> key x"
proof (induction xs arbitrary: x y)
  case (Cons a xs)
  then show ?case
    by (fastforce split: option.splits if_splits)
qed simp

lemma length_update_where [table_simps]: "length (update_where p f xs) = length xs"
  by (simp add: update_where_def)

lemma filter_update_where:
  "(\<And>x. x \<in> set xs \<Longrightarrow> q x \<Longrightarrow> P (f x) = P x) \<Longrightarrow>
   filter P (update_where q f xs) = update_where q f (filter P xs)"
  by (induction xs) (auto simp: update_where_def)

lemma set_update_where: "set (update_where p f xs) = (\<lambda>r. if p r then f r else r) ` set xs"
  by (simp add: update_where_def)

lemma map_update_where [table_simps]:
  "(\<And>r. r \<in> set xs \<Longrightarrow> p r \<Longrightarrow> g (f r) = g r) \<Longrightarrow> map g (update_where p f xs) = map g xs"
  by (simp add: update_where_def)

lemma update_where_none [table_simps]:
  "(\<And>r. r \<in> set xs \<Longrightarrow> \<not> p r) \<Longrightarrow> update_where p f xs = xs"
  by (simp add: update_where_def map_idI)

subsection \<open>Lemmas on strings and bytes\<close>

lemma lower_char_idem [simp]: "lower_char (lower_char c) = lower_char c"
  by (auto simp: lower_char_def Let_def)

lemma lower_idem [simp]: "lower (lower s) = lower s"
  by (simp add: lower_def)

lemma length_lower [simp]: "length (lower s) = length s"
  by (simp add: lower_def)

lemma of_char_lt: "(of_char c :: nat) < 256"
  by (rule nat_of_char_less_256)

lemma utf8_append [simp]: "utf8 (a @ b) = utf8 a @ utf8 b"
  by (simp add: utf8_def)

lemma utf8_Nil [simp]: "utf8 [] = []"
  by (simp add: utf8_def)

lemma utf8_Cons: "utf8 (c # s) = utf8_char c @ utf8 s"
  by (simp add: utf8_def)

lemma utf8_char_head:
  "utf8_char c @ xs = utf8_char d @ ys \<Longrightarrow> c = d \<and> xs = ys"
proof -
  assume eq: "utf8_char c @ xs = utf8_char d @ ys"
  let ?m = "of_char c :: nat" and ?n = "of_char d :: nat"
  have bounds: "?m < 256" "?n < 256" "192 + ?m div 64 < 256" "192 + ?n div 64 < 256"
    using of_char_lt [of c] of_char_lt [of d] by linarith+
  have word: "x = y" if "(of_nat x :: byte) = of_nat y" "x < 256" "y < 256" for x y :: nat
    using that by (simp add: of_nat_eq_iff word_of_nat_eq_iff take_bit_nat_def)
  show ?thesis
  proof (cases "?m < 128")
    case m: True
    show ?thesis
    proof (cases "?n < 128")
      case True
      with m eq bounds have "?m = ?n" and "xs = ys"
        by (auto simp: utf8_char_def Let_def dest: word)
      then show ?thesis by simp
    next
      case False
      with m eq have "(of_nat ?m :: byte) = of_nat (192 + ?n div 64)"
        by (simp add: utf8_char_def Let_def)
      with m False bounds have "?m = 192 + ?n div 64" by (intro word) auto
      with m show ?thesis by simp
    qed
  next
    case m: False
    show ?thesis
    proof (cases "?n < 128")
      case True
      with m eq have "(of_nat (192 + ?m div 64) :: byte) = of_nat ?n"
        by (simp add: utf8_char_def Let_def)
      with True bounds have "192 + ?m div 64 = ?n" by (intro word) auto
      with True show ?thesis by simp
    next
      case False
      with m eq have "(of_nat (192 + ?m div 64) :: byte) = of_nat (192 + ?n div 64)"
        and "(of_nat (128 + ?m mod 64) :: byte) = of_nat (128 + ?n mod 64)" and "xs = ys"
        by (auto simp: utf8_char_def Let_def)
      moreover from this bounds have "192 + ?m div 64 = 192 + ?n div 64"
        and "128 + ?m mod 64 = 128 + ?n mod 64"
        by (auto intro!: word)
      ultimately have "?m = ?n"
        by (metis add_left_cancel div_mult_mod_eq)
      with \<open>xs = ys\<close> show ?thesis by simp
    qed
  qed
qed

lemma utf8_char_nonempty [simp]: "utf8_char c \<noteq> []"
  by (simp add: utf8_char_def Let_def)

lemma utf8_inj: "utf8 s = utf8 t \<Longrightarrow> s = t"
proof (induction s arbitrary: t)
  case Nil
  then show ?case by (cases t) (auto simp: utf8_Cons)
next
  case (Cons c s)
  then show ?case by (cases t) (auto simp: utf8_Cons dest!: utf8_char_head)
qed

lemma hex_val_digit [simp]: "n < 16 \<Longrightarrow> hex_val (hex_digit n) = Some n"
  by (auto simp: hex_val_def hex_digit_def Let_def)

lemma hex_digit_not_space [simp]: "n < 16 \<Longrightarrow> \<not> is_ascii_space (hex_digit n)"
  by (auto simp: is_ascii_space_def hex_digit_def Let_def)

lemma bytes_hex_Nil [simp]: "bytes_hex [] = []"
  by (simp add: bytes_hex_def)

lemma bytes_hex_Cons: "bytes_hex (b # bs) = hex_byte b @ bytes_hex bs"
  by (simp add: bytes_hex_def)

lemma fromhex_hex_byte: "fromhex (hex_byte b @ s) = map_option ((#) b) (fromhex s)"
proof -
  have "unat b < 256" using unsigned_less [of b] by simp
  then have "unat b div 16 < 16" and "unat b mod 16 < 16" by auto
  then show ?thesis by (simp add: hex_byte_def)
qed

lemma fromhex_bytes_hex [simp]: "fromhex (bytes_hex bs) = Some bs"
  by (induction bs) (simp_all add: bytes_hex_Cons fromhex_hex_byte)

lemma bytes_hex_inj [simp]: "bytes_hex a = bytes_hex b \<longleftrightarrow> a = b"
  by (metis fromhex_bytes_hex option.inject)

lemma split_all_no_sep: "sep \<notin> set s \<Longrightarrow> split_all sep s = [s]"
  by (induction s) auto

lemma split_all_append: "sep \<notin> set s \<Longrightarrow> split_all sep (s @ sep # t) = s # split_all sep t"
  by (induction s) auto

lemma split_first_append: "sep \<notin> set s \<Longrightarrow> split_first sep (s @ sep # t) = (s, Some t)"
  by (induction s) auto

lemma filter_eq_single:
  assumes "distinct xs" "u \<in> set xs" "\<And>v. v \<in> set xs \<Longrightarrow> P v \<longleftrightarrow> v = u"
  shows "filter P xs = [u]"
proof -
  have "filter P xs = filter (\<lambda>v. v = u) xs" using assms(3) by (rule filter_cong [OF refl])
  also have "\<dots> = [u]" using assms(1,2) by (induction xs) (auto simp: filter_empty_conv)
  finally show ?thesis .
qed


lemma rx_match_chars:
  "rx_match items s \<Longrightarrow> list_all (\<lambda>it. \<not> fst it c) items \<Longrightarrow> c \<notin> set s"
proof (induction items s rule: rx_match.induct)
  case (2 p m n rs s)
  then obtain k where k: "list_all p (take k s)" "rx_match rs (drop k s)" "c \<notin> set (drop k s)" by auto
  moreover have "c \<notin> set (take k s)" using k(1) "2.prems"(2) by (auto simp: list_all_iff)
  ultimately show ?case using append_take_drop_id [of k s] by (metis UnE set_append)
qed simp

end
