(* ===== verification/PyFloat.thy ===== *)
theory PyFloat
  imports Complex_Main Prelude
begin

text \<open>
  Python \<open>float\<close> arithmetic as the code uses it: a finite IEEE 754 double is the rational
  number it denotes, and each arithmetic operation is the exact operation followed by rounding
  to 53 significant bits, ties to even. Infinities, NaN, overflow above the largest double and
  the subnormal range are outside this model: the modelled code computes with amounts, counts
  and scores, which stay between \<open>2 ^ -1022\<close> and \<open>2 ^ 1023\<close> in absolute value or are zero.
\<close>

subsection \<open>Rounding\<close>

text \<open>The number of binary digits of a natural number.\<close>

fun bit_count :: "nat \<Rightarrow> nat" where
  "bit_count n = (if n = 0 then 0 else Suc (bit_count (n div 2)))"

declare bit_count.simps [simp del]

definition pow2 :: "int \<Rightarrow> rat" where
  "pow2 e = (if 0 \<le> e then 2 ^ nat e else 1 / 2 ^ nat (- e))"

text \<open>The exponent \<open>k\<close> with \<open>2 ^ k \<le> x < 2 ^ (k + 1)\<close>, for a positive \<open>x\<close>.\<close>

definition exponent :: "rat \<Rightarrow> int" where
  "exponent x =
     (case quotient_of x of (p, q) \<Rightarrow>
        let k = int (bit_count (nat p)) - int (bit_count (nat q))
        in if pow2 k \<le> x then k else k - 1)"

text \<open>Rounding to the nearest integer, ties to even: Python's \<open>round(x)\<close>.\<close>

definition round_even :: "rat \<Rightarrow> int" where
  "round_even x =
     (let f = \<lfloor>x\<rfloor>; r = x - of_int f in
      if r < 1 / 2 then f else if r > 1 / 2 then f + 1 else if even f then f else f + 1)"

definition rnd :: "rat \<Rightarrow> rat" where
  "rnd x = (if x = 0 then 0
     else let u = pow2 (exponent \<bar>x\<bar> - 52) in of_int (round_even (x / u)) * u)"

definition fadd :: "rat \<Rightarrow> rat \<Rightarrow> rat" where
  "fadd x y = rnd (x + y)"

definition fsub :: "rat \<Rightarrow> rat \<Rightarrow> rat" where
  "fsub x y = rnd (x - y)"

definition fmul :: "rat \<Rightarrow> rat \<Rightarrow> rat" where
  "fmul x y = rnd (x * y)"

definition fdiv :: "rat \<Rightarrow> rat \<Rightarrow> rat" where
  "fdiv x y = rnd (x / y)"

subsection \<open>Exponents\<close>

lemma pow2_pos [simp]: "0 < pow2 e"
  by (simp add: pow2_def)

lemma pow2_abs [simp]: "\<bar>pow2 e\<bar> = pow2 e"
  by (simp add: less_imp_le)

lemma pow2_nonzero [simp]: "pow2 e \<noteq> 0"
  using pow2_pos [of e] by linarith

lemma pow2_powi: "pow2 e = 2 powi e"
  by (simp add: pow2_def power_int_def inverse_eq_divide power_one_over)

lemma pow2_add: "pow2 (a + b) = pow2 a * pow2 b"
  by (simp add: pow2_powi power_int_add)

lemma pow2_mono: "a \<le> b \<Longrightarrow> pow2 a \<le> pow2 b"
  by (simp add: pow2_powi power_int_increasing)

lemma pow2_nat [simp]: "pow2 (int n) = 2 ^ n"
  by (simp add: pow2_def)

lemma bit_count_bounds: "0 < n \<Longrightarrow> 2 ^ bit_count n \<le> 2 * n \<and> n < 2 ^ bit_count n"
proof (induction n rule: bit_count.induct)
  case (1 n)
  show ?case
  proof (cases "n = 1")
    case True
    then show ?thesis by (simp add: bit_count.simps)
  next
    case False
    with 1 have "2 ^ bit_count (n div 2) \<le> 2 * (n div 2) \<and> n div 2 < 2 ^ bit_count (n div 2)" by simp
    moreover have "bit_count n = Suc (bit_count (n div 2))" using 1 by (subst bit_count.simps) simp
    ultimately show ?thesis by simp linarith
  qed
qed

lemma bit_count_rat:
  assumes "0 < i"
  shows "(2::rat) ^ bit_count (nat i) \<le> 2 * of_int i \<and> of_int i < (2::rat) ^ bit_count (nat i)"
proof -
  obtain n where i: "i = int n" using assms by (metis less_imp_le nat_0_le)
  with assms bit_count_bounds [of n] have "2 ^ bit_count n \<le> 2 * n" "n < 2 ^ bit_count n" by auto
  then have "(of_nat (2 ^ bit_count n) :: rat) \<le> of_nat (2 * n)" "(of_nat n :: rat) < of_nat (2 ^ bit_count n)"
    by (simp_all only: of_nat_le_iff of_nat_less_iff)
  then show ?thesis by (simp add: i)
qed

lemma quotient_bounds:
  fixes a b p q :: rat
  assumes "a \<le> 2 * p" "p < a" "b \<le> 2 * q" "q < b" "0 < p" "0 < q"
  shows "a / b \<le> 2 * (p / q)" "p / q < 2 * (a / b)"
proof -
  have "a * q \<le> (2 * p) * b" using assms by (intro mult_mono) auto
  then show "a / b \<le> 2 * (p / q)" using assms by (simp add: divide_le_eq le_divide_eq mult.commute)
  have "p * b < a * (2 * q)" using assms by (intro mult_less_le_imp_less) auto
  then show "p / q < 2 * (a / b)" using assms by (simp add: divide_less_eq less_divide_eq mult.commute mult.left_commute)
qed

lemma exponent_bounds:
  assumes "0 < x"
  shows "pow2 (exponent x) \<le> x \<and> x < 2 * pow2 (exponent x)"
proof -
  obtain p q where pq: "quotient_of x = (p, q)" by (cases "quotient_of x")
  then have q: "0 < q" and x: "x = of_int p / of_int q"
    using quotient_of_denom_pos quotient_of_div by auto
  with assms have p: "0 < p" by (simp add: zero_less_divide_iff)
  define k where "k = int (bit_count (nat p)) - int (bit_count (nat q))"
  have k: "pow2 k = 2 ^ bit_count (nat p) / 2 ^ bit_count (nat q)"
    by (simp add: k_def pow2_powi power_int_diff)
  have near: "pow2 k \<le> 2 * x" "x < 2 * pow2 k"
    unfolding x k using quotient_bounds bit_count_rat [OF p] bit_count_rat [OF q] p q by simp_all
  have "pow2 (k - 1) = pow2 k / 2" by (simp add: pow2_powi power_int_diff)
  moreover have "exponent x = (if pow2 k \<le> x then k else k - 1)"
    by (simp add: exponent_def pq k_def)
  ultimately show ?thesis using near by (cases "pow2 k \<le> x") simp_all
qed

lemma exponent_less:
  assumes "0 < x" and "x < pow2 k"
  shows "exponent x < k"
proof (rule ccontr)
  assume "\<not> exponent x < k"
  then have "pow2 k \<le> pow2 (exponent x)" by (intro pow2_mono) simp
  with exponent_bounds [OF assms(1)] assms(2) show False by linarith
qed

subsection \<open>Rounding error and exactness\<close>

lemma round_even_int [simp]: "round_even (of_int n) = n"
  by (simp add: round_even_def Let_def)

lemma round_even_le: "x \<le> of_int n \<Longrightarrow> round_even x \<le> n"
proof -
  assume x: "x \<le> of_int n"
  then have f: "\<lfloor>x\<rfloor> \<le> n" using floor_mono [OF x] by simp
  show ?thesis
  proof (cases "\<lfloor>x\<rfloor> = n")
    case True
    then have "x = of_int n" using x of_int_floor_le [of x] by linarith
    then show ?thesis by simp
  next
    case False
    with f have "\<lfloor>x\<rfloor> + 1 \<le> n" by linarith
    then show ?thesis by (auto simp: round_even_def Let_def)
  qed
qed

lemma round_even_error: "\<bar>of_int (round_even x) - x\<bar> \<le> 1 / 2"
  by (simp add: round_even_def Let_def abs_if) linarith

lemma rnd_0 [simp]: "rnd 0 = 0"
  by (simp add: rnd_def)

lemma rnd_error: "\<bar>rnd x - x\<bar> \<le> \<bar>x\<bar> / 2 ^ 53"
proof (cases "x = 0")
  case False
  let ?u = "pow2 (exponent \<bar>x\<bar> - 52)"
  have "pow2 (exponent \<bar>x\<bar>) \<le> \<bar>x\<bar>" using False exponent_bounds [of "\<bar>x\<bar>"] by simp
  moreover have "pow2 (exponent \<bar>x\<bar>) = ?u * 2 ^ 52"
    using pow2_add [of "exponent \<bar>x\<bar> - 52" 52] by (simp add: pow2_def)
  ultimately have u: "?u / 2 \<le> \<bar>x\<bar> / 2 ^ 53" by (simp add: field_simps)
  have "rnd x - x = (of_int (round_even (x / ?u)) - x / ?u) * ?u"
    using False by (simp add: rnd_def Let_def algebra_simps)
  then have "\<bar>rnd x - x\<bar> = \<bar>of_int (round_even (x / ?u)) - x / ?u\<bar> * ?u"
    by (simp add: abs_mult)
  also have "\<dots> \<le> 1 / 2 * ?u"
    by (intro mult_right_mono round_even_error) (simp add: less_imp_le)
  finally show ?thesis using u by simp
qed simp

lemma rnd_grid:
  assumes "x \<noteq> 0" and "\<bar>x\<bar> < pow2 (e + 53)"
  shows "\<exists>d. 0 \<le> d \<and> exponent \<bar>x\<bar> - 52 = e - d"
  using exponent_less [of "\<bar>x\<bar>" "e + 53"] assms by (intro exI [of _ "e - (exponent \<bar>x\<bar> - 52)"]) auto

lemma rnd_le:
  assumes "\<bar>x\<bar> < pow2 (e + 53)" and "x \<le> of_int m * pow2 e"
  shows "rnd x \<le> of_int m * pow2 e"
proof (cases "x = 0")
  case False
  then obtain d where d: "0 \<le> d" "exponent \<bar>x\<bar> - 52 = e - d"
    using rnd_grid assms(1) by blast
  have e: "pow2 e = of_int (2 ^ nat d) * pow2 (e - d)"
    using pow2_add [of d "e - d"] d(1) by (simp add: pow2_def)
  have "x / pow2 (e - d) \<le> of_int (m * 2 ^ nat d)"
    using assms(2) unfolding e by (simp add: divide_le_eq mult.assoc)
  then have "round_even (x / pow2 (e - d)) \<le> m * 2 ^ nat d" by (rule round_even_le)
  then have "of_int (round_even (x / pow2 (e - d))) \<le> (of_int (m * 2 ^ nat d) :: rat)"
    by (simp only: of_int_le_iff)
  then have "of_int (round_even (x / pow2 (e - d))) * pow2 (e - d) \<le> of_int (m * 2 ^ nat d) * pow2 (e - d)"
    by (rule mult_right_mono) (simp add: less_imp_le)
  then show ?thesis using False d unfolding rnd_def e by (simp add: Let_def mult.assoc)
qed (use assms in simp)

lemma rnd_exact:
  assumes "\<bar>m\<bar> < 2 ^ 53"
  shows "rnd (of_int m * pow2 e) = of_int m * pow2 e"
proof (cases "m = 0")
  case False
  let ?x = "of_int m * pow2 e"
  have "of_int \<bar>m\<bar> < (of_int (2 ^ 53) :: rat)" using assms by (simp only: of_int_less_iff)
  then have "\<bar>?x\<bar> < 2 ^ 53 * pow2 e" by (simp add: abs_mult)
  then have "\<bar>?x\<bar> < pow2 (e + 53)" using pow2_nat [of 53] by (simp add: pow2_add mult.commute)
  then obtain d where d: "0 \<le> d" "exponent \<bar>?x\<bar> - 52 = e - d"
    using rnd_grid [of ?x e] False by auto
  have e: "pow2 e = of_int (2 ^ nat d) * pow2 (e - d)"
    using pow2_add [of d "e - d"] d(1) by (simp add: pow2_def)
  have "?x / pow2 (e - d) = of_int (m * 2 ^ nat d)" unfolding e by simp
  then have "round_even (?x / pow2 (e - d)) = m * 2 ^ nat d" by (simp only: round_even_int)
  then show ?thesis using False d unfolding rnd_def by (simp add: e mult.assoc)
qed simp

lemma rnd_of_int [simp]: "\<bar>m\<bar> < 2 ^ 53 \<Longrightarrow> rnd (of_int m) = of_int m"
  using rnd_exact [of m 0] by (simp add: pow2_def)

lemma rnd_le_int: "\<bar>x\<bar> < 2 ^ 53 \<Longrightarrow> x \<le> of_int m \<Longrightarrow> rnd x \<le> of_int m"
  using rnd_le [of x 0 m] by (simp add: pow2_def)

text \<open>
  A quotient of integers by a small denominator compares with an integer the way the exact
  quotient does: the rounding error is smaller than the distance to the next integer.
\<close>

lemma fdiv_le_int_iff:
  assumes "0 < q" and "q < 2 ^ 20" and "0 \<le> p" and "p < 2 ^ 32"
  shows "fdiv (of_int p) (of_int q) \<le> of_int w \<longleftrightarrow> p \<le> w * q"
proof -
  let ?x = "of_int p / of_int q :: rat"
  have p: "of_int p < (2 ^ 32 :: rat)" "0 \<le> (of_int p :: rat)" and q: "0 < (of_int q :: rat)" "of_int q < (2 ^ 20 :: rat)"
    using assms by (metis of_int_less_iff of_int_numeral of_int_power of_int_0_le_iff of_int_0_less_iff)+
  have "1 \<le> q" using assms by simp
  then have q1: "1 \<le> (of_int q :: rat)" by (metis of_int_1 of_int_le_iff)
  have xp: "?x \<le> of_int p" using q1 p by (simp add: divide_le_eq mult_le_cancel_left1)
  have x: "0 \<le> ?x" using p q by simp
  show ?thesis
  proof
    assume "p \<le> w * q"
    then have "(of_int p :: rat) \<le> of_int w * of_int q" by (metis of_int_le_iff of_int_mult)
    then have "?x \<le> of_int w" using q by (simp add: divide_le_eq)
    then show "fdiv (of_int p) (of_int q) \<le> of_int w"
      unfolding fdiv_def using x xp p by (intro rnd_le_int) auto
  next
    assume le: "fdiv (of_int p) (of_int q) \<le> of_int w"
    show "p \<le> w * q"
    proof (rule ccontr)
      assume "\<not> p \<le> w * q"
      then have "w * q + 1 \<le> p" by simp
      then have "of_int w * of_int q + 1 \<le> (of_int p :: rat)"
        by (metis of_int_1 of_int_add of_int_le_iff of_int_mult)
      then have gap: "of_int w + 1 / of_int q \<le> ?x"
        using divide_right_mono [of "of_int w * of_int q + 1" "of_int p" "of_int q :: rat"] q
        by (simp add: add_divide_distrib)
      have "?x - rnd ?x \<le> ?x / 2 ^ 53" using rnd_error [of ?x] x by linarith
      also have "\<dots> \<le> 2 ^ 32 / 2 ^ 53" using xp p by (intro divide_right_mono) auto
      also have "\<dots> < 1 / of_int q" using q by (simp add: divide_less_eq field_simps)
      finally have "of_int w < rnd ?x" using gap by linarith
      with le show False by (simp add: fdiv_def)
    qed
  qed
qed

subsection \<open>Numbers that round to a double\<close>

lemma round_even_near:
  assumes "\<bar>z - of_int n\<bar> < 1 / 2"
  shows "round_even z = n"
proof -
  have "(of_int (round_even z) :: rat) < of_int (n + 1)" "(of_int n :: rat) < of_int (round_even z + 1)"
    using assms round_even_error [of z] by linarith+
  then have "round_even z < n + 1" "n < round_even z + 1" unfolding of_int_less_iff .
  then show ?thesis by simp
qed

lemma pow2_step: "pow2 (e - 52) * 2 ^ 52 = pow2 e" "pow2 (e + 1) = 2 * pow2 e" "pow2 (e - 1) = pow2 e / 2"
  using pow2_add [of "e - 52" 52] by (simp_all add: pow2_powi power_int_add power_int_diff)

lemma exponent_unique:
  assumes "pow2 e \<le> x" and "x < 2 * pow2 e"
  shows "exponent x = e"
proof -
  have x: "0 < x" using assms(1) pow2_pos [of e] by linarith
  have "exponent x < e + 1" using exponent_less [OF x, of "e + 1"] assms(2) by (simp add: pow2_step)
  moreover have "\<not> exponent x < e"
  proof
    assume "exponent x < e"
    then have "pow2 (exponent x + 1) \<le> pow2 e" by (intro pow2_mono) simp
    then show False using exponent_bounds [OF x] assms(1) by (simp add: pow2_step)
  qed
  ultimately show ?thesis by simp
qed

text \<open>A number closer to a double than a relative \<open>2 ^ -54\<close> rounds to it.\<close>

lemma rnd_near:
  assumes "0 < x" and "rnd x = x" and near: "\<bar>y - x\<bar> < x / 2 ^ 54"
  shows "rnd y = x"
proof -
  define e where "e = exponent x"
  define u where "u = pow2 (e - 52)"
  define m where "m = round_even (x / u)"
  have u: "0 < u" and ue: "pow2 e = u * 2 ^ 52" using pow2_step(1) [of e] by (simp_all add: u_def)
  have x: "x = of_int m * u" using assms(1,2) by (simp add: rnd_def Let_def m_def u_def e_def)
  have b: "u * 2 ^ 52 \<le> x" "x < u * 2 ^ 53" using exponent_bounds [OF assms(1)] ue by (simp_all add: e_def)
  have "(of_int m :: rat) < of_int (2 ^ 53)" using b(2) u unfolding x by (simp add: mult.commute)
  then have "m + 1 \<le> 2 ^ 53" unfolding of_int_less_iff by simp
  then have "(of_int (m + 1) :: rat) \<le> of_int (2 ^ 53)" by (simp only: of_int_le_iff)
  then have top: "x + u \<le> u * 2 ^ 53" using u mult_right_mono [of "of_int (m + 1)" "of_int (2 ^ 53) :: rat" u]
    unfolding x by (simp add: algebra_simps)
  have half: "\<bar>y - x\<bar> < u / 2" using near b(2) by simp
  have y: "0 < y" using near assms(1) by (simp add: abs_if split: if_splits)
  obtain f M where f: "exponent y = f" and M: "x = of_int M * pow2 (f - 52)" and d: "\<bar>y - x\<bar> < pow2 (f - 52) / 2"
  proof (cases "u * 2 ^ 52 \<le> y")
    case True
    have "y < 2 * pow2 e" using half top unfolding ue by (simp add: abs_if split: if_splits)
    with True have "exponent y = e" unfolding ue [symmetric] by (intro exponent_unique)
    then show ?thesis using that [of e m] x half by (simp add: u_def)
  next
    case False
    have "m \<le> 2 ^ 52"
    proof (rule ccontr)
      assume "\<not> m \<le> 2 ^ 52"
      then have "(of_int (2 ^ 52 + 1) :: rat) \<le> of_int m" by (simp only: of_int_le_iff)
      then have "u * 2 ^ 52 + u \<le> x" using u mult_right_mono [of "of_int (2 ^ 52 + 1) :: rat" "of_int m" u]
        unfolding x by (simp add: algebra_simps)
      then show False using half False u by (simp add: abs_if split: if_splits)
    qed
    then have "(of_int m :: rat) \<le> of_int (2 ^ 52)" by (simp only: of_int_le_iff)
    then have xe: "x = u * 2 ^ 52" using b(1) u mult_right_mono [of "of_int m" "of_int (2 ^ 52) :: rat" u] unfolding x
      by (simp add: mult.commute)
    have u': "pow2 (e - 1 - 52) = u / 2" using pow2_step(3) [of "e - 52"] by (simp add: u_def algebra_simps)
    have "exponent y = e - 1" using near False xe
      by (intro exponent_unique) (simp_all add: pow2_step ue abs_if split: if_splits)
    moreover have "x = of_int (2 ^ 53) * pow2 (e - 1 - 52)" "\<bar>y - x\<bar> < pow2 (e - 1 - 52) / 2"
      unfolding u' using near xe by simp_all
    ultimately show ?thesis by (rule that)
  qed
  have p: "0 < pow2 (f - 52)" by simp
  have "\<bar>y / pow2 (f - 52) - of_int M\<bar> = \<bar>y - x\<bar> / pow2 (f - 52)"
    using p unfolding M by (simp add: field_simps abs_if)
  also have "\<dots> < 1 / 2" using d p by (simp add: divide_less_eq)
  finally have "round_even (y / pow2 (f - 52)) = M" by (rule round_even_near)
  then show ?thesis using y f M by (simp add: rnd_def Let_def)
qed

subsection \<open>Non-finite values\<close>

text \<open>
  Where the code tests for non-finite values they are modelled: overflow gives an infinity, and
  comparisons with NaN are false.
\<close>

datatype xfloat = Fin rat | PInf | NInf | NaN

definition xround :: "rat \<Rightarrow> xfloat" where
  "xround x = (let r = rnd x in if 2 ^ 1024 \<le> r then PInf else if r \<le> - (2 ^ 1024) then NInf else Fin r)"

fun xadd :: "xfloat \<Rightarrow> xfloat \<Rightarrow> xfloat" where
  "xadd (Fin a) (Fin b) = xround (a + b)"
| "xadd NaN _ = NaN"
| "xadd _ NaN = NaN"
| "xadd PInf NInf = NaN"
| "xadd NInf PInf = NaN"
| "xadd PInf _ = PInf"
| "xadd _ PInf = PInf"
| "xadd NInf _ = NInf"
| "xadd _ NInf = NInf"

text \<open>Multiplication by a positive finite constant.\<close>

fun xscale :: "rat \<Rightarrow> xfloat \<Rightarrow> xfloat" where
  "xscale c (Fin a) = xround (a * c)"
| "xscale c PInf = PInf"
| "xscale c NInf = NInf"
| "xscale c NaN = NaN"

text \<open>\<open>x > c\<close> for a finite \<open>c\<close>.\<close>

fun xgt :: "xfloat \<Rightarrow> rat \<Rightarrow> bool" where
  "xgt (Fin a) c = (a > c)"
| "xgt PInf c = True"
| "xgt NInf c = False"
| "xgt NaN c = False"

fun is_finite :: "xfloat \<Rightarrow> bool" where
  "is_finite (Fin _) = True"
| "is_finite _ = False"

text \<open>\<open>round(x, 4)\<close>: the nearest multiple of \<open>1 / 10000\<close> (ties to even), as a double.\<close>

definition ten_thousandths :: "rat \<Rightarrow> int" where
  "ten_thousandths x = round_even (x * 10000)"

definition round4 :: "rat \<Rightarrow> rat" where
  "round4 x = rnd (of_int (ten_thousandths x) / 10000)"

lemma rnd_unit_error: "0 \<le> x \<Longrightarrow> x \<le> 1 \<Longrightarrow> \<bar>rnd x - x\<bar> \<le> 1 / 2 ^ 53"
  using rnd_error [of x] divide_right_mono [of "\<bar>x\<bar>" 1 "2 ^ 53 :: rat"] by simp

text \<open>Doubles of ten-thousandths in the unit interval compare like the integers.\<close>

lemma rnd_ten_thousandths_less:
  assumes "0 \<le> k" "k \<le> 10000" "0 \<le> m" "m \<le> 10000" "k < m"
  shows "rnd (of_int k / 10000) < rnd (of_int m / 10000)"
proof -
  have "of_int k / 10000 + 1 / 10000 \<le> (of_int m / 10000 :: rat)"
  proof -
    have "of_int (k + 1) \<le> (of_int m :: rat)" using assms(5) by (simp only: of_int_le_iff)
    then show ?thesis by (simp add: field_simps)
  qed
  moreover have "\<bar>rnd (of_int k / 10000) - of_int k / 10000\<bar> \<le> 1 / 2 ^ 53"
    "\<bar>rnd (of_int m / 10000) - of_int m / 10000\<bar> \<le> 1 / 2 ^ 53"
    by (rule rnd_unit_error; use assms in simp)+
  moreover have "2 / 2 ^ 53 < (1 / 10000 :: rat)" by simp
  ultimately show ?thesis by linarith
qed

lemma rnd_ten_thousandths_iff:
  assumes "0 \<le> k" "k \<le> 10000" "0 \<le> m" "m \<le> 10000"
  shows "rnd (of_int k / 10000) < rnd (of_int m / 10000) \<longleftrightarrow> k < m"
  using rnd_ten_thousandths_less [of k m] rnd_ten_thousandths_less [of m k] assms
  by (cases k m rule: linorder_cases) auto

subsection \<open>Exact differences\<close>

text \<open>Taking an integer off a larger double below \<open>2 ^ 53\<close> is exact.\<close>

lemma fsub_int:
  assumes "rnd t = t" "0 < t" "t < 2 ^ 53" "0 \<le> c" "of_int c \<le> t"
  shows "fsub t (of_int c) = t - of_int c"
proof -
  define e where "e = exponent t - 52"
  define n where "n = round_even (t / pow2 e)"
  have e: "e \<le> 0" using exponent_less [of t 53] assms(2,3) pow2_nat [of 53] by (simp add: e_def)
  have te: "t = of_int n * pow2 e" using assms(1,2) by (auto simp: rnd_def n_def e_def Let_def split: if_splits)
  have "t < pow2 (e + 53)" using exponent_bounds [of t] assms(2) pow2_add [of 1 "exponent t"]
    by (simp add: e_def add.commute pow2_def)
  then have "of_int n * pow2 e < of_int (2 ^ 53) * pow2 e"
    using te pow2_nat [of 53] by (simp add: pow2_add mult.commute)
  then have "of_int n < (of_int (2 ^ 53) :: rat)" using pow2_pos [of e] mult_less_cancel_right_pos by blast
  then have n53: "n < 2 ^ 53" by (simp only: of_int_less_iff)
  have one: "pow2 (- e) * pow2 e = 1" using pow2_add [of "- e" e] by (simp add: pow2_def)
  have "of_int c = of_int (c * 2 ^ nat (- e)) * pow2 e" using one e by (simp add: pow2_def mult.assoc)
  then have d: "t - of_int c = of_int (n - c * 2 ^ nat (- e)) * pow2 e" using te by (simp add: left_diff_distrib)
  have "0 \<le> of_int (n - c * 2 ^ nat (- e)) * pow2 e" using d assms(5) by linarith
  then have "(0 :: rat) \<le> of_int (n - c * 2 ^ nat (- e))" using pow2_pos [of e]
    by (metis mult_less_0_iff not_le)
  then have "0 \<le> n - c * 2 ^ nat (- e)" by (simp only: of_int_0_le_iff)
  moreover have "0 \<le> c * 2 ^ nat (- e)" using assms(4) by simp
  ultimately have "\<bar>n - c * 2 ^ nat (- e)\<bar> < 2 ^ 53" using n53 by linarith
  then show ?thesis unfolding fsub_def d by (rule rnd_exact)
qed

lemma rnd_nonneg: "0 \<le> x \<Longrightarrow> 0 \<le> rnd x"
proof -
  assume "0 \<le> x"
  then have "\<bar>rnd x - x\<bar> \<le> x / 2 ^ 53" using rnd_error [of x] by simp
  moreover have "x / 2 ^ 53 \<le> x" using \<open>0 \<le> x\<close> by (simp add: divide_le_eq)
  ultimately show ?thesis by linarith
qed


lemma rnd_idem: "0 \<le> x \<Longrightarrow> rnd (rnd x) = rnd x"
proof (cases "x = 0")
  case False
  assume "0 \<le> x"
  with False have x: "0 < x" by simp
  define e where "e = exponent x - 52"
  define n where "n = round_even (x / pow2 e)"
  have r: "rnd x = of_int n * pow2 e" using x by (simp add: rnd_def n_def e_def Let_def)
  have "x < pow2 (e + 53)" using exponent_bounds [OF x] pow2_add [of 1 "exponent x"]
    by (simp add: e_def add.commute pow2_def)
  then have "x / pow2 e \<le> of_int (2 ^ 53)"
    using pow2_nat [of 53] by (simp add: pow2_add divide_le_eq mult.commute)
  then have n: "n \<le> 2 ^ 53" unfolding n_def by (rule round_even_le)
  have "0 \<le> of_int n * pow2 e" using rnd_nonneg [of x] x r by simp
  then have "(0 :: rat) \<le> of_int n" using pow2_pos [of e] by (metis mult_less_0_iff not_le)
  then have n0: "0 \<le> n" by simp
  show ?thesis
  proof (cases "n = 2 ^ 53")
    case True
    have "of_int n * pow2 e = of_int (2 ^ 52) * pow2 (e + 1)" by (simp add: True pow2_add) (simp add: pow2_def)
    then show ?thesis using rnd_exact [of "2 ^ 52" "e + 1"] r by simp
  next
    case False
    then show ?thesis using rnd_exact [of n e] n n0 r by simp
  qed
qed simp

end
