(* ===== verification/Redis.thy ===== *)
theory Redis
  imports PyFloat
begin

text \<open>
  The interface to the Redis server (core/core/redis_client.py hands out its connections). The
  server is not part of the repository, so the commands the code sends are a parameter: a record of
  functions on an abstract server state, each at the server's clock reading. What the code relies
  on, the documented effect of each command, is the locale \<open>redis_server\<close>; its laws are named
  hypotheses of the theorems that need them. \<open>map_redis\<close> is a server given as a finite map with
  expiry times; it satisfies the laws and makes every statement executable on samples.

  Sorted sets hold the clock readings the rate limiter adds. A member is the text of its own score,
  and distinct floats have distinct texts, so a member is identified with its score.
\<close>

record 's redis =
  r_get :: "'s \<Rightarrow> rat \<Rightarrow> string \<Rightarrow> string option"
  r_setex :: "'s \<Rightarrow> rat \<Rightarrow> string \<Rightarrow> int \<Rightarrow> string \<Rightarrow> 's"
  r_delete :: "'s \<Rightarrow> rat \<Rightarrow> string \<Rightarrow> 's"
  r_zremrangebyscore :: "'s \<Rightarrow> rat \<Rightarrow> string \<Rightarrow> rat \<Rightarrow> rat \<Rightarrow> 's"
  r_zadd :: "'s \<Rightarrow> rat \<Rightarrow> string \<Rightarrow> rat \<Rightarrow> 's"
  r_zcard :: "'s \<Rightarrow> rat \<Rightarrow> string \<Rightarrow> nat"
  r_expire :: "'s \<Rightarrow> rat \<Rightarrow> string \<Rightarrow> int \<Rightarrow> 's"

subsection \<open>The documented commands\<close>

text \<open>
  \<open>zs s t k\<close> is the sorted set under \<open>k\<close> at time \<open>t\<close>. A command changes only its own key; a value
  set with \<open>SETEX\<close> is there until its time to live is over; \<open>EXPIRE\<close> replaces the time to live.
\<close>

locale redis_server =
  fixes R :: "'s redis" and zs :: "'s \<Rightarrow> rat \<Rightarrow> string \<Rightarrow> rat set"
  assumes get_setex: "0 < ttl \<Longrightarrow> t \<le> u \<Longrightarrow>
      r_get R (r_setex R s t k ttl v) u k =
        (if u < t + of_int ttl then Some v else None)"
    and get_delete: "t \<le> u \<Longrightarrow> r_get R (r_delete R s t k) u k = None"
    and get_setex_other: "k' \<noteq> k \<Longrightarrow> r_get R (r_setex R s t k ttl v) u k' = r_get R s u k'"
    and get_delete_other: "k' \<noteq> k \<Longrightarrow> r_get R (r_delete R s t k) u k' = r_get R s u k'"
    and get_zrem_other: "k' \<noteq> k \<Longrightarrow> r_get R (r_zremrangebyscore R s t k lo hi) u k' = r_get R s u k'"
    and get_zadd_other: "k' \<noteq> k \<Longrightarrow> r_get R (r_zadd R s t k x) u k' = r_get R s u k'"
    and get_expire_other: "k' \<noteq> k \<Longrightarrow> r_get R (r_expire R s t k ttl) u k' = r_get R s u k'"
    and zs_finite: "finite (zs s t k)"
    and zs_setex_other: "k' \<noteq> k \<Longrightarrow> zs (r_setex R s t k ttl v) u k' = zs s u k'"
    and zs_delete_other: "k' \<noteq> k \<Longrightarrow> zs (r_delete R s t k) u k' = zs s u k'"
    and zs_zrem: "zs (r_zremrangebyscore R s t k lo hi) t k = {x \<in> zs s t k. \<not> (lo \<le> x \<and> x \<le> hi)}"
    and zs_zrem_other: "k' \<noteq> k \<Longrightarrow> zs (r_zremrangebyscore R s t k lo hi) u k' = zs s u k'"
    and zs_zadd: "zs (r_zadd R s t k x) t k = insert x (zs s t k)"
    and zs_zadd_other: "k' \<noteq> k \<Longrightarrow> zs (r_zadd R s t k x) u k' = zs s u k'"
    and zcard: "r_zcard R s t k = card (zs s t k)"
    and zs_expire: "0 < ttl \<Longrightarrow> t \<le> u \<Longrightarrow>
      zs (r_expire R s t k ttl) u k = (if u < t + of_int ttl then zs s t k else {})"
    and zs_expire_other: "k' \<noteq> k \<Longrightarrow> zs (r_expire R s t k ttl) u k' = zs s u k'"

subsection \<open>A server as a map\<close>

datatype redis_value = RStr string | RZset "rat list"

type_synonym map_store = "(string \<times> redis_value \<times> rat option) list"

definition alive :: "rat \<Rightarrow> rat option \<Rightarrow> bool" where
  "alive t e = (case e of None \<Rightarrow> True | Some d \<Rightarrow> t < d)"

text \<open>The live entry under a key at a time.\<close>

definition live :: "map_store \<Rightarrow> rat \<Rightarrow> string \<Rightarrow> (redis_value \<times> rat option) option" where
  "live s t k = (case map_of s k of
     Some (v, e) \<Rightarrow> if alive t e then Some (v, e) else None | None \<Rightarrow> None)"

definition live_zset :: "map_store \<Rightarrow> rat \<Rightarrow> string \<Rightarrow> rat list \<times> rat option" where
  "live_zset s t k = (case live s t k of Some (RZset xs, e) \<Rightarrow> (xs, e) | _ \<Rightarrow> ([], None))"

definition put_zset :: "map_store \<Rightarrow> string \<Rightarrow> rat list \<times> rat option \<Rightarrow> map_store" where
  "put_zset s k p = (k, RZset (fst p), snd p) # filter (\<lambda>q. fst q \<noteq> k) s"

definition map_redis :: "map_store redis" where
  "map_redis =
     \<lparr>r_get = (\<lambda>s t k. case live s t k of Some (RStr v, _) \<Rightarrow> Some v | _ \<Rightarrow> None),
      r_setex = (\<lambda>s t k ttl v. (k, RStr v, Some (t + of_int ttl)) # filter (\<lambda>q. fst q \<noteq> k) s),
      r_delete = (\<lambda>s t k. filter (\<lambda>q. fst q \<noteq> k) s),
      r_zremrangebyscore = (\<lambda>s t k lo hi.
        let p = live_zset s t k in put_zset s k (filter (\<lambda>x. \<not> (lo \<le> x \<and> x \<le> hi)) (fst p), snd p)),
      r_zadd = (\<lambda>s t k x. let p = live_zset s t k in put_zset s k (List.insert x (fst p), snd p)),
      r_zcard = (\<lambda>s t k. length (remdups (fst (live_zset s t k)))),
      r_expire = (\<lambda>s t k ttl. put_zset s k (fst (live_zset s t k), Some (t + of_int ttl)))\<rparr>"

definition map_zs :: "map_store \<Rightarrow> rat \<Rightarrow> string \<Rightarrow> rat set" where
  "map_zs s t k = set (fst (live_zset s t k))"

lemma map_of_other: "k' \<noteq> k \<Longrightarrow> map_of (filter (\<lambda>q. fst q \<noteq> k) s) k' = map_of s k'"
  by (induction s) auto

lemma map_of_dropped [simp]: "map_of (filter (\<lambda>q. fst q \<noteq> k) s) k = None"
  by (induction s) auto

lemma live_other [simp]:
  "k' \<noteq> k \<Longrightarrow> live (filter (\<lambda>q. fst q \<noteq> k) s) u k' = live s u k'"
  "k' \<noteq> k \<Longrightarrow> live ((k, ve) # s) u k' = live s u k'"
  "k' \<noteq> k \<Longrightarrow> live (put_zset s k p) u k' = live s u k'"
  by (auto simp: live_def put_zset_def map_of_other)

lemma live_zset_put:
  "live_zset (put_zset s k (xs, e)) u k = (if alive u e then (xs, e) else ([], None))"
  by (simp add: live_zset_def live_def put_zset_def)

lemma live_zset_other [simp]:
  "k' \<noteq> k \<Longrightarrow> live_zset (filter (\<lambda>q. fst q \<noteq> k) s) u k' = live_zset s u k'"
  "k' \<noteq> k \<Longrightarrow> live_zset ((k, ve) # s) u k' = live_zset s u k'"
  "k' \<noteq> k \<Longrightarrow> live_zset (put_zset s k p) u k' = live_zset s u k'"
  by (simp_all add: live_zset_def)

lemma live_zset_alive: "alive t (snd (live_zset s t k))"
  by (auto simp: live_zset_def live_def alive_def split: option.splits redis_value.splits if_splits)

interpretation map_server: redis_server map_redis map_zs
  by unfold_locales
    (auto simp: map_redis_def map_zs_def Let_def live_zset_put live_zset_alive length_remdups_card_conv,
     auto simp: live_def alive_def)

end
