(* ===== verification/PyText.thy ===== *)
theory PyText
  imports Prelude
begin

text \<open>
  The textual formats the modelled code reads and writes through the Python standard library:
  hexadecimal integers (\<open>hex\<close>, \<open>int(s, 16)\<close>), UTC timestamps (\<open>isoformat\<close>, \<open>fromisoformat\<close>,
  \<open>+ timedelta(days=n)\<close>) and canonical JSON (\<open>json.dumps\<close> with sorted keys, no spaces and ASCII
  escapes).
\<close>

subsection \<open>Decimal and hexadecimal integers\<close>

definition digit_char :: "nat \<Rightarrow> char" where
  "digit_char n = char_of (48 + n)"

definition digit_val :: "char \<Rightarrow> nat option" where
  "digit_val c = (if is_digit c then Some (of_char c - 48) else None)"

text \<open>\<open>k\<close> decimal digits, zero-padded on the left.\<close>

fun dec_pad :: "nat \<Rightarrow> nat \<Rightarrow> string" where
  "dec_pad 0 n = []"
| "dec_pad (Suc k) n = dec_pad k (n div 10) @ [digit_char (n mod 10)]"

function dec_nat :: "nat \<Rightarrow> string" where
  "dec_nat n = (if n < 10 then [digit_char n] else dec_nat (n div 10) @ [digit_char (n mod 10)])"
  by pat_completeness auto
termination
  by (relation "measure id") auto

declare dec_nat.simps [simp del]

definition dec_int :: "int \<Rightarrow> string" where
  "dec_int i = (if i < 0 then ''-'' @ dec_nat (nat (- i)) else dec_nat (nat i))"

text \<open>The value of a string of exactly decimal digits.\<close>

fun dec_val :: "nat \<Rightarrow> string \<Rightarrow> nat option" where
  "dec_val acc [] = Some acc"
| "dec_val acc (c # s) =
     (case digit_val c of None \<Rightarrow> None | Some d \<Rightarrow> dec_val (10 * acc + d) s)"

function hex_nat :: "nat \<Rightarrow> string" where
  "hex_nat n = (if n < 16 then [hex_digit n] else hex_nat (n div 16) @ [hex_digit (n mod 16)])"
  by pat_completeness auto
termination
  by (relation "measure id") auto

declare hex_nat.simps [simp del]

text \<open>\<open>hex(i)\<close>.\<close>

definition py_hex :: "int \<Rightarrow> string" where
  "py_hex i = (if i < 0 then ''-0x'' @ hex_nat (nat (- i)) else ''0x'' @ hex_nat (nat i))"

text \<open>
  \<open>int(s, 16)\<close>: surrounding whitespace, a sign, the prefix \<open>0x\<close>, and single underscores between
  digits (and after the prefix) are accepted; \<open>None\<close> is \<open>ValueError\<close>.
\<close>

fun hex_digits :: "bool \<Rightarrow> nat \<Rightarrow> string \<Rightarrow> nat option" where
  "hex_digits after acc [] = (if after then Some acc else None)"
| "hex_digits after acc (c # s) =
     (if c = CHR ''_'' then (if after then hex_digits False acc s else None)
      else case hex_val c of None \<Rightarrow> None | Some d \<Rightarrow> hex_digits True (16 * acc + d) s)"

definition hex_unsigned :: "string \<Rightarrow> nat option" where
  "hex_unsigned s =
     (if starts_with s ''0x'' \<or> starts_with s ''0X''
      then hex_digits False 0 (if starts_with (drop 2 s) ''_'' then drop 3 s else drop 2 s)
      else hex_digits False 0 s)"

definition int16 :: "string \<Rightarrow> int option" where
  "int16 s =
     (let t = strip s in
      if starts_with t ''-'' then map_option (\<lambda>n. - int n) (hex_unsigned (drop 1 t))
      else if starts_with t ''+'' then map_option int (hex_unsigned (drop 1 t))
      else map_option int (hex_unsigned t))"

subsection \<open>UTC timestamps\<close>

text \<open>A timezone-aware \<open>datetime\<close> in UTC, by its fields. Field-wise order is time order.\<close>

record datetime =
  dt_year :: nat
  dt_month :: nat
  dt_day :: nat
  dt_hour :: nat
  dt_minute :: nat
  dt_second :: nat
  dt_micro :: nat

definition is_leap :: "nat \<Rightarrow> bool" where
  "is_leap y \<longleftrightarrow> y mod 4 = 0 \<and> (y mod 100 \<noteq> 0 \<or> y mod 400 = 0)"

definition days_in_month :: "nat \<Rightarrow> nat \<Rightarrow> nat" where
  "days_in_month y m =
     (if m = 2 then (if is_leap y then 29 else 28) else if m \<in> {4, 6, 9, 11} then 30 else 31)"

definition valid_datetime :: "datetime \<Rightarrow> bool" where
  "valid_datetime t \<longleftrightarrow>
     1 \<le> dt_year t \<and> dt_year t \<le> 9999 \<and> 1 \<le> dt_month t \<and> dt_month t \<le> 12 \<and>
     1 \<le> dt_day t \<and> dt_day t \<le> days_in_month (dt_year t) (dt_month t) \<and>
     dt_hour t < 24 \<and> dt_minute t < 60 \<and> dt_second t < 60 \<and> dt_micro t < 1000000"

definition dt_key :: "datetime \<Rightarrow> nat list" where
  "dt_key t = [dt_year t, dt_month t, dt_day t, dt_hour t, dt_minute t, dt_second t, dt_micro t]"

definition dt_less :: "datetime \<Rightarrow> datetime \<Rightarrow> bool" where
  "dt_less a b \<longleftrightarrow> dt_key a < dt_key b"

definition next_day :: "datetime \<Rightarrow> datetime" where
  "next_day t =
     (if dt_day t < days_in_month (dt_year t) (dt_month t) then t\<lparr>dt_day := dt_day t + 1\<rparr>
      else if dt_month t < 12 then t\<lparr>dt_day := 1, dt_month := dt_month t + 1\<rparr>
      else t\<lparr>dt_day := 1, dt_month := 1, dt_year := dt_year t + 1\<rparr>)"

text \<open>\<open>t + timedelta(days=n)\<close>; \<open>None\<close> is \<open>OverflowError\<close> past the year 9999.\<close>

definition add_days :: "nat \<Rightarrow> datetime \<Rightarrow> datetime option" where
  "add_days n t = (let u = (next_day ^^ n) t in if dt_year u \<le> 9999 then Some u else None)"

definition isoformat :: "datetime \<Rightarrow> string" where
  "isoformat t =
     dec_pad 4 (dt_year t) @ ''-'' @ dec_pad 2 (dt_month t) @ ''-'' @ dec_pad 2 (dt_day t) @ ''T'' @
     dec_pad 2 (dt_hour t) @ '':'' @ dec_pad 2 (dt_minute t) @ '':'' @ dec_pad 2 (dt_second t) @
     (if dt_micro t = 0 then [] else ''.'' @ dec_pad 6 (dt_micro t)) @ ''+00:00''"

text \<open>
  \<open>datetime.fromisoformat\<close> on the texts \<open>isoformat\<close> produces, with any separator between date and
  time, and with a missing, \<open>Z\<close> or zero offset (a missing offset is read as UTC by the code).
  \<open>None\<close> is \<open>ValueError\<close>. The other ISO 8601 spellings (week dates, basic format, nonzero offsets)
  are outside this model.
\<close>

definition iso_fields :: "string \<Rightarrow> datetime option" where
  "iso_fields s =
     (case (dec_val 0 (take 4 s), dec_val 0 (take 2 (drop 5 s)), dec_val 0 (take 2 (drop 8 s)),
            dec_val 0 (take 2 (drop 11 s)), dec_val 0 (take 2 (drop 14 s)), dec_val 0 (take 2 (drop 17 s))) of
        (Some y, Some mo, Some d, Some h, Some mi, Some sec) \<Rightarrow>
          Some \<lparr>dt_year = y, dt_month = mo, dt_day = d, dt_hour = h, dt_minute = mi, dt_second = sec, dt_micro = 0\<rparr>
      | _ \<Rightarrow> None)"

definition fromisoformat :: "string \<Rightarrow> datetime option" where
  "fromisoformat s =
     (if length s < 19 \<or> s ! 4 \<noteq> CHR ''-'' \<or> s ! 7 \<noteq> CHR ''-'' \<or> s ! 13 \<noteq> CHR '':'' \<or> s ! 16 \<noteq> CHR '':'' then None
      else case iso_fields s of
             None \<Rightarrow> None
           | Some t \<Rightarrow>
               let r = drop 19 s;
                   (us, tz) = (if starts_with r ''.'' then (dec_val 0 (take 6 (drop 1 r)), drop 7 r) else (Some 0, r))
               in (case us of
                     None \<Rightarrow> None
                   | Some u \<Rightarrow>
                       let t' = t\<lparr>dt_micro := u\<rparr>
                       in if tz \<in> {[], ''Z'', ''+00:00''} \<and> valid_datetime t' \<and>
                             (starts_with r ''.'' \<longrightarrow> 7 \<le> length r)
                          then Some t' else None))"

subsection \<open>Canonical JSON\<close>

datatype json = JNull | JBool bool | JInt int | JStr string | JList "json list" | JObj "(string \<times> json) list"

definition json_escape_char :: "char \<Rightarrow> string" where
  "json_escape_char c =
     (let n = (of_char c :: nat) in
      if n = 34 then [CHR 0x5C, CHR 0x22]
      else if n = 92 then [CHR 0x5C, CHR 0x5C]
      else if n = 10 then [CHR 0x5C, CHR ''n'']
      else if n = 13 then [CHR 0x5C, CHR ''r'']
      else if n = 9 then [CHR 0x5C, CHR ''t'']
      else if n = 8 then [CHR 0x5C, CHR ''b'']
      else if n = 12 then [CHR 0x5C, CHR ''f'']
      else if n < 32 \<or> 126 < n then [CHR 0x5C] @ ''u00'' @ [hex_digit (n div 16), hex_digit (n mod 16)]
      else [c])"

definition json_string :: "string \<Rightarrow> string" where
  "json_string s = [CHR 0x22] @ concat (map json_escape_char s) @ [CHR 0x22]"

fun join :: "string \<Rightarrow> string list \<Rightarrow> string" where
  "join sep [] = []"
| "join sep [s] = s"
| "join sep (s # t # us) = s @ sep @ join sep (t # us)"

text \<open>\<open>json.dumps(obj, sort_keys=True, separators=(",", ":"), ensure_ascii=True)\<close>.\<close>

fun json_dumps :: "json \<Rightarrow> string" where
  "json_dumps JNull = ''null''"
| "json_dumps (JBool b) = (if b then ''true'' else ''false'')"
| "json_dumps (JInt i) = dec_int i"
| "json_dumps (JStr s) = json_string s"
| "json_dumps (JList js) = ''['' @ join '','' (map json_dumps js) @ '']''"
| "json_dumps (JObj kvs) =
     ''{'' @ join '','' (map (\<lambda>(k, v). json_string k @ '':'' @ v)
                          (sort_key fst (map (\<lambda>(k, v). (k, json_dumps v)) kvs))) @ ''}''"

subsection \<open>Round trips\<close>

lemma digit_val_char [simp]: "n < 10 \<Longrightarrow> digit_val (digit_char n) = Some n"
  by (auto simp: digit_val_def digit_char_def is_digit_def Let_def)

lemma dec_val_append: "dec_val acc (s @ t) = (case dec_val acc s of None \<Rightarrow> None | Some n \<Rightarrow> dec_val n t)"
  by (induction s arbitrary: acc) (auto split: option.splits)

lemma length_dec_pad [simp]: "length (dec_pad k n) = k"
  by (induction k arbitrary: n) auto

lemma dec_val_pad: "n < 10 ^ k \<Longrightarrow> dec_val acc (dec_pad k n) = Some (acc * 10 ^ k + n)"
proof (induction k arbitrary: n)
  case (Suc k)
  then have "n div 10 < 10 ^ k" by (simp add: less_mult_imp_div_less mult.commute)
  with Suc.IH show ?case by (simp add: dec_val_append algebra_simps)
qed simp


lemma hex_digit_neq [simp]: "n < 16 \<Longrightarrow> hex_digit n \<noteq> CHR ''_''" "n < 16 \<Longrightarrow> \<not> is_space (hex_digit n)"
  by (auto simp: hex_digit_def is_space_def Let_def char_of_eq_iff take_bit_nat_def split: if_splits)

lemma hex_digits_nat:
  "hex_digits b acc (hex_nat n @ s) = hex_digits True (acc * 16 ^ length (hex_nat n) + n) s"
proof (induction n arbitrary: b acc s rule: hex_nat.induct)
  case (1 n)
  show ?case
  proof (cases "n < 16")
    case True
    then show ?thesis by (subst (1 2) hex_nat.simps) (simp add: mult.commute)
  next
    case False
    then have nat: "hex_nat n = hex_nat (n div 16) @ [hex_digit (n mod 16)]" by (subst hex_nat.simps) simp
    show ?thesis using 1 [OF False] by (simp add: nat algebra_simps)
  qed
qed

lemma hex_nat_nonempty [simp]: "hex_nat n \<noteq> []"
  by (subst hex_nat.simps) simp

lemma last_hex_nat: "\<not> is_space (last (hex_nat n))"
  by (subst hex_nat.simps) simp

lemma strip_id: "s \<noteq> [] \<Longrightarrow> \<not> is_space (hd s) \<Longrightarrow> \<not> is_space (last s) \<Longrightarrow> strip s = s"
proof -
  assume s: "s \<noteq> []" "\<not> is_space (hd s)" "\<not> is_space (last s)"
  then have "dropWhile is_space s = s" by (cases s) auto
  moreover have "dropWhile is_space (rev s) = rev s" using s by (cases s rule: rev_cases) auto
  ultimately show ?thesis by (simp add: strip_def)
qed

lemma hex_unsigned_nat: "hex_unsigned (''0x'' @ hex_nat n) = Some n"
proof -
  have "\<not> starts_with (hex_nat n) ''_''"
    by (induction n rule: hex_nat.induct) (subst hex_nat.simps, auto simp: starts_with_def take_Suc)
  then show ?thesis using hex_digits_nat [of False 0 n "[]"]
    by (simp add: hex_unsigned_def) (simp add: starts_with_def)
qed

lemma int16_hex [simp]: "int16 (py_hex i) = Some i"
proof -
  have space: "\<not> is_space CHR ''0''" "\<not> is_space CHR ''-''" by (simp_all add: is_space_def)
  have "strip (py_hex i) = py_hex i"
    by (rule strip_id) (use last_hex_nat space in \<open>auto simp: py_hex_def\<close>)
  then show ?thesis
    using hex_unsigned_nat [of "nat i"] hex_unsigned_nat [of "nat (- i)"]
    by (simp add: int16_def Let_def) (simp add: py_hex_def starts_with_def)
qed

lemma valid_datetime_ranges:
  assumes "valid_datetime t"
  shows "dt_year t < 10 ^ 4" "dt_month t < 10 ^ 2" "dt_day t < 10 ^ 2" "dt_hour t < 10 ^ 2"
    "dt_minute t < 10 ^ 2" "dt_second t < 10 ^ 2" "dt_micro t < 10 ^ 6"
  using assms by (auto simp: valid_datetime_def days_in_month_def split: if_splits)

lemma fromisoformat_isoformat:
  assumes "valid_datetime t"
  shows "fromisoformat (isoformat t) = Some t"
proof -
  note range = valid_datetime_ranges [OF assms]
  have "iso_fields (isoformat t) = Some (t\<lparr>dt_micro := 0\<rparr>)"
    using range by (simp add: iso_fields_def isoformat_def dec_val_pad)
  moreover have "drop 19 (isoformat t) = (if dt_micro t = 0 then [] else ''.'' @ dec_pad 6 (dt_micro t)) @ ''+00:00''"
    by (simp add: isoformat_def)
  moreover have "\<not> length (isoformat t) < 19" "isoformat t ! 4 = CHR ''-''" "isoformat t ! 7 = CHR ''-''"
    "isoformat t ! 13 = CHR '':''" "isoformat t ! 16 = CHR '':''"
    by (simp_all add: isoformat_def nth_append)
  moreover have "dt_micro t = 0 \<longrightarrow> valid_datetime (t\<lparr>dt_micro := 0\<rparr>) \<and> t\<lparr>dt_micro := 0\<rparr> = t"
    using assms by (cases t) (auto simp: valid_datetime_def)
  ultimately show ?thesis using range assms
    by (simp add: fromisoformat_def starts_with_def dec_val_pad Let_def)
qed

subsection \<open>UUIDs\<close>

fun hex_pad :: "nat \<Rightarrow> nat \<Rightarrow> string" where
  "hex_pad 0 n = []"
| "hex_pad (Suc k) n = hex_pad k (n div 16) @ [hex_digit (n mod 16)]"

text \<open>\<open>str(uuid)\<close> of the 128-bit value.\<close>

definition uuid_str :: "nat \<Rightarrow> string" where
  "uuid_str n = (let h = hex_pad 32 n in
     take 8 h @ ''-'' @ take 4 (drop 8 h) @ ''-'' @ take 4 (drop 12 h) @ ''-'' @ take 4 (drop 16 h) @ ''-'' @ drop 20 h)"

lemma length_hex_pad [simp]: "length (hex_pad k n) = k"
  by (induction k arbitrary: n) auto

end
