(* ===== verification/Access.thy ===== *)
theory Access
  imports PyText
begin

text \<open>
  Who may call what (core/dependencies.py, core/exceptions.py): the user row a request is
  resolved to, the role guard of the endpoints, the mapping from a membership service provider
  to the Fabric identity that signs, and the HTTP status each application error becomes.
\<close>

type_synonym uuid = nat

subsection \<open>Users\<close>

text \<open>The columns of \<open>User\<close> the modelled code reads.\<close>

record user =
  user_id :: uuid
  user_org_id :: uuid
  keycloak_sub :: "string option"
  user_email :: string
  user_first_name :: "string option"
  user_last_name :: "string option"
  user_role :: string
  user_msp_id :: "string option"
  user_is_active :: bool
  user_phone :: "string option"
  user_last_login :: "datetime option"

definition user_roles :: "string list" where
  "user_roles =
     [''EMETTEUR'', ''TRADER'', ''CUSTODIAN'', ''REGULATEUR'', ''AUDITEUR'',
      ''COMPLIANCE_OFFICER'', ''SUPER_ADMIN'']"

subsection \<open>HTTP errors\<close>

text \<open>
  The exceptions that reach the HTTP layer. \<open>HTTPException\<close> carries its status; the application
  errors are mapped by the handlers of \<open>setup_global_exception_handlers\<close>, everything else by
  the catch-all handler of the application.
\<close>

datatype app_error =
    HTTPException nat
  | AssetNotFoundException string
  | AssetFrozenError string string
  | AssetAlreadyExistsError string
  | FabricEndorsementError string
  | ComplianceBlockedError string string
  | InsufficientPermissionsError "string list"
  | UnhandledError

fun http_status :: "app_error \<Rightarrow> nat" where
  "http_status (HTTPException n) = n"
| "http_status (AssetNotFoundException _) = 404"
| "http_status (AssetFrozenError _ _) = 409"
| "http_status (AssetAlreadyExistsError _) = 409"
| "http_status (FabricEndorsementError _) = 502"
| "http_status (ComplianceBlockedError _ _) = 403"
| "http_status (InsufficientPermissionsError _) = 403"
| "http_status UnhandledError = 500"

subsection \<open>Identities\<close>

text \<open>Python truth of an optional string: \<open>None\<close> and the empty string are false.\<close>

fun truthy :: "string option \<Rightarrow> bool" where
  "truthy None = False"
| "truthy (Some s) = (s \<noteq> [])"

definition msp_to_identity :: "string \<Rightarrow> string option" where
  "msp_to_identity msp =
     map_of [(''BANK01MSP'', ''admin@bank01''), (''REG01MSP'', ''admin@reg01-regulateur'')] msp"

definition resolve_identity :: "user \<Rightarrow> app_error + string" where
  "resolve_identity u =
     (if \<not> truthy (user_msp_id u) then Inl (HTTPException 403)
      else case msp_to_identity (the (user_msp_id u)) of
             None \<Rightarrow> Inl (HTTPException 403)
           | Some ident \<Rightarrow> Inr ident)"

text \<open>The gRPC variant reads the claim of the token payload and reports PERMISSION_DENIED.\<close>

datatype grpc_error = PERMISSION_DENIED

definition resolve_identity_from_payload :: "(string \<rightharpoonup> string) \<Rightarrow> grpc_error + string" where
  "resolve_identity_from_payload payload =
     (if \<not> truthy (payload ''msp_id'') then Inl PERMISSION_DENIED
      else case msp_to_identity (the (payload ''msp_id'')) of
             None \<Rightarrow> Inl PERMISSION_DENIED
           | Some ident \<Rightarrow> Inr ident)"

text \<open>\<open>get_current_user\<close>: the active user with the subject the middleware authenticated.\<close>

definition get_current_user :: "user list \<Rightarrow> string option \<Rightarrow> app_error + user" where
  "get_current_user users sub =
     (if \<not> truthy sub then Inl (HTTPException 401)
      else case scalar_one_or_none (filter (\<lambda>u. keycloak_sub u = sub \<and> user_is_active u) users) of
             NoRow \<Rightarrow> Inl (HTTPException 401)
           | OneRow u \<Rightarrow> Inr u
           | ManyRows \<Rightarrow> Inl UnhandledError)"

definition require_role :: "string list \<Rightarrow> user list \<Rightarrow> string option \<Rightarrow> app_error + user" where
  "require_role roles users sub =
     (case get_current_user users sub of
        Inl e \<Rightarrow> Inl e
      | Inr u \<Rightarrow> if user_role u \<in> set roles then Inr u else Inl (InsufficientPermissionsError roles))"

subsection \<open>What the guards establish\<close>

lemma get_current_user_active:
  "get_current_user users sub = Inr u \<Longrightarrow> u \<in> set users \<and> user_is_active u \<and> keycloak_sub u = sub \<and> truthy sub"
proof -
  assume "get_current_user users sub = Inr u"
  then have sub: "truthy sub" and "filter (\<lambda>u. keycloak_sub u = sub \<and> user_is_active u) users = [u]"
    by (auto simp: get_current_user_def split: if_splits one.splits)
  then have "u \<in> set (filter (\<lambda>u. keycloak_sub u = sub \<and> user_is_active u) users)" by simp
  with sub show ?thesis by simp
qed

lemma require_role_Inr:
  "require_role roles users sub = Inr u \<longleftrightarrow> get_current_user users sub = Inr u \<and> user_role u \<in> set roles"
  by (auto simp: require_role_def split: sum.splits)

lemma require_role_status:
  "require_role roles users sub = Inl e \<Longrightarrow> http_status e \<in> {401, 403, 500}"
  by (auto simp: require_role_def get_current_user_def split: sum.splits if_splits one.splits)

end
