(* ===== verification/Json.thy ===== *)
theory Json
  imports PyText PyFloat
begin

text \<open>
  The \<open>json\<close> module as the Fabric client, the asset router and the event listener use it:
  \<open>json.dumps\<close> with the default separators and \<open>json.loads\<close>, with the round trip between them.
  A decoded number is an \<open>int\<close>, or a \<open>float\<close> when it has a fraction or an exponent. Strings hold
  code points below 256; a text with an escape above that range is outside the model and is
  rejected.
\<close>

subsection \<open>Values\<close>

datatype pyval =
    PNone
  | PBool bool
  | PInt int
  | PFloat xfloat
  | PStr string
  | PList "pyval list"
  | PDict "(string \<times> pyval) list"

text \<open>A dict keeps the position of the first insertion of a key and the value of the last.\<close>

fun dict_put :: "string \<Rightarrow> 'v \<Rightarrow> (string \<times> 'v) list \<Rightarrow> (string \<times> 'v) list" where
  "dict_put k v [] = [(k, v)]"
| "dict_put k v ((k', v') # d) = (if k' = k then (k, v) # d else (k', v') # dict_put k v d)"

definition dict_of :: "(string \<times> 'v) list \<Rightarrow> (string \<times> 'v) list" where
  "dict_of kvs = foldl (\<lambda>d (k, v). dict_put k v d) [] kvs"

subsection \<open>Writing\<close>

text \<open>\<open>json.dumps(obj)\<close>: insertion order, separators \<open>", "\<close> and \<open>": "\<close>.\<close>

fun dumps :: "json \<Rightarrow> string" where
  "dumps JNull = ''null''"
| "dumps (JBool b) = (if b then ''true'' else ''false'')"
| "dumps (JInt i) = dec_int i"
| "dumps (JStr s) = json_string s"
| "dumps (JList js) = ''['' @ join '', '' (map dumps js) @ '']''"
| "dumps (JObj kvs) = ''{'' @ join '', '' (map (\<lambda>(k, v). json_string k @ '': '' @ dumps v) kvs) @ ''}''"

subsection \<open>Reading\<close>

definition is_json_ws :: "char \<Rightarrow> bool" where
  "is_json_ws c \<longleftrightarrow> (let n = (of_char c :: nat) in n = 32 \<or> n = 9 \<or> n = 10 \<or> n = 13)"

definition skip_ws :: "string \<Rightarrow> string" where
  "skip_ws s = dropWhile is_json_ws s"

definition simple_escape :: "char \<Rightarrow> char option" where
  "simple_escape c = map_of
     [(CHR 0x22, CHR 0x22), (CHR 0x5C, CHR 0x5C), (CHR ''/'', CHR ''/''), (CHR ''b'', CHR 0x08),
      (CHR ''f'', CHR 0x0C), (CHR ''n'', CHR 0x0A), (CHR ''r'', CHR 0x0D), (CHR ''t'', CHR 0x09)] c"

definition hex4 :: "char \<Rightarrow> char \<Rightarrow> char \<Rightarrow> char \<Rightarrow> nat option" where
  "hex4 a b c d =
     (case (hex_val a, hex_val b, hex_val c, hex_val d) of
        (Some w, Some x, Some y, Some z) \<Rightarrow> Some (4096 * w + 256 * x + 16 * y + z)
      | _ \<Rightarrow> None)"

definition push_char :: "char \<Rightarrow> (string \<times> string) option \<Rightarrow> (string \<times> string) option" where
  "push_char c = map_option (\<lambda>(s, r). (c # s, r))"

text \<open>The text after the opening quote: the decoded string and what follows the closing quote.\<close>

fun scan_string :: "string \<Rightarrow> (string \<times> string) option" where
  "scan_string [] = None"
| "scan_string (c # s) =
     (if c = CHR 0x22 then Some ([], s)
      else if c = CHR 0x5C then
        (case s of
           [] \<Rightarrow> None
         | e # t \<Rightarrow>
             if e = CHR ''u'' then
               (case t of
                  w # x # y # z # u \<Rightarrow>
                    (case hex4 w x y z of
                       None \<Rightarrow> None
                     | Some n \<Rightarrow> if n < 256 then push_char (char_of n) (scan_string u) else None)
                | _ \<Rightarrow> None)
             else (case simple_escape e of
                     None \<Rightarrow> None
                   | Some d \<Rightarrow> push_char d (scan_string t)))
      else if (of_char c :: nat) < 32 then None
      else push_char c (scan_string s))"

definition sgn_of :: "bool \<Rightarrow> int" where
  "sgn_of neg = (if neg then -1 else 1)"

definition scale10 :: "int \<Rightarrow> int \<Rightarrow> rat" where
  "scale10 m e = (if 0 \<le> e then of_int (m * 10 ^ nat e) else of_int m / of_int (10 ^ nat (- e)))"

definition digits_val :: "string \<Rightarrow> int" where
  "digits_val s = (case dec_val 0 s of None \<Rightarrow> 0 | Some n \<Rightarrow> int n)"

text \<open>The optional fraction and exponent of a number, as matched by the scanner.\<close>

definition scan_frac :: "string \<Rightarrow> string \<times> string" where
  "scan_frac s =
     (case s of
        c # t \<Rightarrow> (let ds = takeWhile is_digit t in
                  if c = CHR ''.'' \<and> ds \<noteq> [] then (ds, dropWhile is_digit t) else ([], s))
      | [] \<Rightarrow> ([], s))"

definition scan_exp :: "string \<Rightarrow> int option \<times> string" where
  "scan_exp s =
     (case s of
        c # t \<Rightarrow>
          if c = CHR ''e'' \<or> c = CHR ''E'' then
            (let neg = starts_with t ''-'';
                 u = (if neg \<or> starts_with t ''+'' then tl t else t);
                 ds = takeWhile is_digit u
             in if ds \<noteq> [] then (Some (sgn_of neg * digits_val ds), dropWhile is_digit u) else (None, s))
          else (None, s)
      | [] \<Rightarrow> (None, s))"

text \<open>An integer literal of more than 4300 digits raises \<open>ValueError\<close>.\<close>

definition scan_number :: "string \<Rightarrow> (pyval \<times> string) option" where
  "scan_number s =
     (let neg = starts_with s ''-'';
          s1 = (if neg then tl s else s);
          all = takeWhile is_digit s1;
          ds = (if starts_with all ''0'' then take 1 all else all);
          (fs, r1) = scan_frac (drop (length ds) s1);
          (ex, r2) = scan_exp r1
      in if ds = [] then None
         else if fs = [] \<and> ex = None
              then if length ds \<le> 4300 then Some (PInt (sgn_of neg * digits_val ds), r2) else None
              else Some (PFloat (xround (scale10 (sgn_of neg * digits_val (ds @ fs))
                                           ((case ex of None \<Rightarrow> 0 | Some e \<Rightarrow> e) - int (length fs)))), r2))"

definition literals :: "(string \<times> pyval) list" where
  "literals =
     [(''null'', PNone), (''true'', PBool True), (''false'', PBool False),
      (''NaN'', PFloat NaN), (''Infinity'', PFloat PInf), (''-Infinity'', PFloat NInf)]"

definition scan_literal :: "string \<Rightarrow> (pyval \<times> string) option" where
  "scan_literal s =
     (case filter (\<lambda>(w, v). starts_with s w) literals of
        [] \<Rightarrow> None
      | (w, v) # _ \<Rightarrow> Some (v, drop (length w) s))"

text \<open>
  The recursive scanner. Each call on a nested value takes two units of fuel and follows an
  opening bracket or a comma of the text, so \<open>2 * length s + 2\<close> units are never exhausted.
\<close>

fun parse_value :: "nat \<Rightarrow> string \<Rightarrow> (pyval \<times> string) option"
  and parse_items :: "nat \<Rightarrow> string \<Rightarrow> (pyval list \<times> string) option"
  and parse_members :: "nat \<Rightarrow> string \<Rightarrow> ((string \<times> pyval) list \<times> string) option" where
  "parse_value 0 s = None"
| "parse_value (Suc n) s =
     (case s of
        [] \<Rightarrow> None
      | c # t \<Rightarrow>
          if c = CHR 0x22 then map_option (\<lambda>(x, r). (PStr x, r)) (scan_string t)
          else if c = CHR ''['' then
            (if starts_with (skip_ws t) '']'' then Some (PList [], tl (skip_ws t))
             else map_option (\<lambda>(xs, r). (PList xs, r)) (parse_items n (skip_ws t)))
          else if c = CHR ''{'' then
            (if starts_with (skip_ws t) ''}'' then Some (PDict [], tl (skip_ws t))
             else map_option (\<lambda>(kvs, r). (PDict (dict_of kvs), r)) (parse_members n (skip_ws t)))
          else (case scan_literal s of
                  Some x \<Rightarrow> Some x
                | None \<Rightarrow> scan_number s))"
| "parse_items 0 s = None"
| "parse_items (Suc n) s =
     (case parse_value n s of
        None \<Rightarrow> None
      | Some (v, r) \<Rightarrow>
          (case skip_ws r of
             [] \<Rightarrow> None
           | c # t \<Rightarrow>
               if c = CHR '','' then map_option (\<lambda>(vs, r). (v # vs, r)) (parse_items n (skip_ws t))
               else if c = CHR '']'' then Some ([v], t)
               else None))"
| "parse_members 0 s = None"
| "parse_members (Suc n) s =
     (if \<not> starts_with s [CHR 0x22] then None
      else (case scan_string (tl s) of
              None \<Rightarrow> None
            | Some (k, r) \<Rightarrow>
                if \<not> starts_with (skip_ws r) '':'' then None
                else (case parse_value n (skip_ws (tl (skip_ws r))) of
                        None \<Rightarrow> None
                      | Some (v, r') \<Rightarrow>
                          (case skip_ws r' of
                             [] \<Rightarrow> None
                           | c # t \<Rightarrow>
                               if c = CHR '','' then
                                 map_option (\<lambda>(kvs, r). ((k, v) # kvs, r)) (parse_members n (skip_ws t))
                               else if c = CHR ''}'' then Some ([(k, v)], t)
                               else None))))"

text \<open>\<open>json.loads(s)\<close>; \<open>None\<close>: \<open>JSONDecodeError\<close> or another \<open>ValueError\<close>.\<close>

definition loads :: "string \<Rightarrow> pyval option" where
  "loads s =
     (case parse_value (2 * length s + 2) (skip_ws s) of
        None \<Rightarrow> None
      | Some (v, r) \<Rightarrow> if skip_ws r = [] then Some v else None)"

fun embed :: "json \<Rightarrow> pyval" where
  "embed JNull = PNone"
| "embed (JBool b) = PBool b"
| "embed (JInt i) = PInt i"
| "embed (JStr s) = PStr s"
| "embed (JList js) = PList (map embed js)"
| "embed (JObj kvs) = PDict (dict_of (map (\<lambda>(k, v). (k, embed v)) kvs))"

subsection \<open>Strings and numbers read back\<close>

lemma char_code_iff: "(of_char d :: nat) = k \<Longrightarrow> c = d \<longleftrightarrow> of_char c = k"
  by auto

lemma scan_escape: "scan_string (json_escape_char c @ t) = push_char c (scan_string t)"
proof -
  let ?n = "of_char c :: nat"
  have c: "c = char_of ?n" by simp
  have lt: "?n < 256" by (rule of_char_lt)
  have special: "c = CHR 0x22 \<longleftrightarrow> ?n = 34" "c = CHR 0x5C \<longleftrightarrow> ?n = 92" "c = CHR 0x0A \<longleftrightarrow> ?n = 10"
    "c = CHR 0x0D \<longleftrightarrow> ?n = 13" "c = CHR 0x09 \<longleftrightarrow> ?n = 9" "c = CHR 0x08 \<longleftrightarrow> ?n = 8" "c = CHR 0x0C \<longleftrightarrow> ?n = 12"
    by (rule char_code_iff; simp)+
  show ?thesis
  proof (cases "?n \<in> {34, 92, 10, 13, 9, 8, 12}")
    case True
    then consider "c = CHR 0x22" | "c = CHR 0x5C" | "c = CHR 0x0A" | "c = CHR 0x0D" | "c = CHR 0x09"
      | "c = CHR 0x08" | "c = CHR 0x0C"
      unfolding special by blast
    then show ?thesis by cases (simp_all add: json_escape_char_def simple_escape_def)
  next
    case False
    have hex: "hex4 CHR ''0'' CHR ''0'' (hex_digit (?n div 16)) (hex_digit (?n mod 16)) = Some ?n"
    proof -
      have "hex_val CHR ''0'' = Some 0" by (simp add: hex_val_def)
      moreover have "?n div 16 < 16" using lt by linarith
      ultimately show ?thesis by (simp add: hex4_def)
    qed
    show ?thesis
    proof (cases "?n < 32 \<or> 126 < ?n")
      case True
      then show ?thesis using False hex lt by (simp add: json_escape_char_def Let_def)
    next
      case plain: False
      then show ?thesis using False special by (simp add: json_escape_char_def Let_def)
    qed
  qed
qed

lemma scan_json_string: "scan_string (concat (map json_escape_char s) @ CHR 0x22 # r) = Some (s, r)"
  by (induction s) (simp_all add: scan_escape push_char_def)

text \<open>The text after an integer ends it: no digit, fraction or exponent follows.\<close>

definition stops_number :: "string \<Rightarrow> bool" where
  "stops_number r \<longleftrightarrow> (case r of [] \<Rightarrow> True | c # _ \<Rightarrow> \<not> is_digit c \<and> c \<notin> {CHR ''.'', CHR ''e'', CHR ''E''})"

lemma is_digit_digit_char [simp]: "n < 10 \<Longrightarrow> is_digit (digit_char n)"
  by (simp add: is_digit_def digit_char_def)

lemma dec_nat_digits: "list_all is_digit (dec_nat n)"
  by (induction n rule: dec_nat.induct) (subst dec_nat.simps, simp)

lemma dec_nat_nonempty [simp]: "dec_nat n \<noteq> []"
  by (subst dec_nat.simps) simp

lemma dec_val_dec_nat: "dec_val 0 (dec_nat n) = Some n"
  by (induction n rule: dec_nat.induct) (subst dec_nat.simps, simp add: dec_val_append)

lemma dec_nat_leading: "starts_with (dec_nat n) ''0'' \<longleftrightarrow> n = 0"
proof (induction n rule: dec_nat.induct)
  case (1 n)
  show ?case
  proof (cases "n < 10")
    case True
    then show ?thesis by (subst dec_nat.simps) (auto simp: starts_with_def digit_char_def char_of_eq_iff take_bit_nat_def)
  next
    case False
    have "starts_with (s @ [d]) ''0'' = starts_with s ''0''" if "s \<noteq> []" for s d
      using that by (cases s) (simp_all add: starts_with_def)
    then show ?thesis using 1 [OF False] False by (subst dec_nat.simps) simp
  qed
qed

lemma dec_nat_0 [simp]: "dec_nat 0 = ''0''"
  by (subst dec_nat.simps) (simp add: digit_char_def char_of_eq_iff)

lemma length_dec_nat: "n < 10 ^ k \<Longrightarrow> 0 < k \<Longrightarrow> length (dec_nat n) \<le> k"
proof (induction n arbitrary: k rule: dec_nat.induct)
  case (1 n)
  show ?case
  proof (cases "n < 10")
    case True
    then show ?thesis using 1 by (subst dec_nat.simps) simp
  next
    case False
    then obtain m where k: "k = Suc m" "0 < m" using 1 by (cases k; cases "k - 1") auto
    then have "n div 10 < 10 ^ m" using 1 by (simp add: less_mult_imp_div_less mult.commute)
    then show ?thesis using 1 False k by (subst dec_nat.simps) simp
  qed
qed

lemma stops_scan: "stops_number r \<Longrightarrow> scan_frac r = ([], r) \<and> scan_exp r = (None, r)"
  by (cases r) (auto simp: stops_number_def scan_frac_def scan_exp_def)

lemma takeWhile_digits: "stops_number r \<Longrightarrow> takeWhile is_digit (dec_nat n @ r) = dec_nat n"
  using dec_nat_digits [of n] by (cases r) (auto simp: takeWhile_append stops_number_def list_all_iff)

lemma dec_nat_no_minus: "\<not> starts_with (dec_nat n @ r) ''-''"
  using dec_nat_digits [of n] by (cases "dec_nat n") (auto simp: starts_with_def is_digit_def)

lemma scan_number_digits:
  assumes "stops_number r" and "length (dec_nat n) \<le> 4300"
  shows "scan_number (dec_nat n @ r) = Some (PInt (int n), r)"
    and "scan_number (CHR ''-'' # dec_nat n @ r) = Some (PInt (- int n), r)"
proof -
  have nat: "(if starts_with (dec_nat n) ''0'' then take 1 (dec_nat n) else dec_nat n) = dec_nat n"
    by (simp add: dec_nat_leading)
  have minus: "starts_with (CHR ''-'' # s) ''-''" for s by (simp add: starts_with_def)
  note facts = stops_scan [OF assms(1)] takeWhile_digits [OF assms(1), of n] nat assms(2)
  show "scan_number (dec_nat n @ r) = Some (PInt (int n), r)"
    using facts dec_nat_no_minus [of n r]
    by (simp only: scan_number_def Let_def if_False append_eq_conv_conj) (simp add: sgn_of_def digits_val_def dec_val_dec_nat)
  show "scan_number (CHR ''-'' # dec_nat n @ r) = Some (PInt (- int n), r)"
    using facts minus
    by (simp only: scan_number_def Let_def if_True list.sel) (simp add: sgn_of_def digits_val_def dec_val_dec_nat)
qed

subsection \<open>Dicts\<close>

lemma keys_dict_put: "fst ` set (dict_put k v d) = insert k (fst ` set d)"
proof (induction d)
  case (Cons a d)
  then show ?case by (cases a) auto
qed simp

lemma distinct_dict_put: "distinct (map fst d) \<Longrightarrow> distinct (map fst (dict_put k v d))"
proof (induction d)
  case (Cons a d)
  then show ?case using keys_dict_put [of k v d] by (cases a) auto
qed simp

lemma set_dict_put: "set (dict_put k v d) \<subseteq> insert (k, v) (set d)"
proof (induction d)
  case (Cons a d)
  then show ?case by (cases a) auto
qed simp

lemma dict_put_new: "k \<notin> fst ` set d \<Longrightarrow> dict_put k v d = d @ [(k, v)]"
  by (induction d) auto

lemma dict_of_snoc: "dict_of (kvs @ [(k, v)]) = dict_put k v (dict_of kvs)"
  by (simp add: dict_of_def)

lemma dict_of_distinct: "distinct (map fst (dict_of kvs))"
  by (induction kvs rule: rev_induct) (auto simp: dict_of_snoc distinct_dict_put dict_of_def [of "[]"])

lemma set_dict_of: "set (dict_of kvs) \<subseteq> set kvs"
proof (induction kvs rule: rev_induct)
  case (snoc kv kvs)
  then show ?case using set_dict_put [of "fst kv" "snd kv" "dict_of kvs"] by (cases kv) (auto simp: dict_of_snoc)
qed (simp add: dict_of_def)

lemma dict_of_id: "distinct (map fst kvs) \<Longrightarrow> dict_of kvs = kvs"
proof (induction kvs rule: rev_induct)
  case (snoc kv kvs)
  then show ?case by (cases kv) (auto simp: dict_of_snoc dict_put_new image_iff)
qed (simp add: dict_of_def)

subsection \<open>The round trip\<close>

fun small_ints :: "json \<Rightarrow> bool" where
  "small_ints (JInt i) = (length (dec_nat (nat \<bar>i\<bar>)) \<le> 4300)"
| "small_ints (JList js) = list_all small_ints js"
| "small_ints (JObj kvs) = list_all (\<lambda>(k, v). small_ints v) kvs"
| "small_ints _ = True"

lemma scan_number_int:
  "stops_number r \<Longrightarrow> length (dec_nat (nat \<bar>i\<bar>)) \<le> 4300 \<Longrightarrow> scan_number (dec_int i @ r) = Some (PInt i, r)"
  using scan_number_digits [of r "nat \<bar>i\<bar>"] by (cases "i < 0") (simp_all add: dec_int_def)

lemma dec_int_hd: "\<exists>c s. dec_int i = c # s \<and> (is_digit c \<or> c = CHR ''-'') \<and> (c = CHR ''-'' \<longrightarrow> (\<exists>d t. s = d # t \<and> is_digit d))"
proof -
  obtain d t where "dec_nat (nat \<bar>i\<bar>) = d # t" "is_digit d"
    using dec_nat_digits [of "nat \<bar>i\<bar>"] dec_nat_nonempty [of "nat \<bar>i\<bar>"] by (cases "dec_nat (nat \<bar>i\<bar>)") auto
  then show ?thesis by (cases "i < 0") (auto simp: dec_int_def is_digit_def)
qed

lemma digit_facts: "is_digit c \<Longrightarrow> \<not> is_json_ws c \<and> c \<notin> set ''[]{}ntfNI-,:'' \<and> c \<noteq> CHR 0x22"
  by (auto simp: is_digit_def is_json_ws_def Let_def)

definition number_text :: "string \<Rightarrow> bool" where
  "number_text t \<longleftrightarrow> (case t of [] \<Rightarrow> False | c # s \<Rightarrow> is_digit c \<or> c = CHR ''-'' \<and> (case s of [] \<Rightarrow> False | d # _ \<Rightarrow> is_digit d))"

lemma number_text_int: "number_text (dec_int i)"
  using dec_int_hd [of i] by (auto simp: number_text_def)

lemma scan_literal_number:
  assumes "number_text t"
  shows "scan_literal (t @ r) = None"
proof -
  obtain c s where c: "t = c # s" "is_digit c \<or> c = CHR ''-''" "c = CHR ''-'' \<longrightarrow> (\<exists>d t. s = d # t \<and> is_digit d)"
  proof -
    have "\<not> is_digit (CHR ''-'')" by (simp add: is_digit_def)
    then show ?thesis using that assms by (cases t; cases "tl t") (auto simp: number_text_def)
  qed
  have "\<not> starts_with (c # s @ r) w" if "w \<in> fst ` set literals" for w
  proof (cases "is_digit c")
    case True
    then show ?thesis using that digit_facts [of c] by (auto simp: literals_def starts_with_def)
  next
    case False
    then obtain d t where "c = CHR ''-''" "s = d # t" "is_digit d" using c by auto
    then show ?thesis using that digit_facts [of d] by (auto simp: literals_def starts_with_def)
  qed
  then have "filter (\<lambda>(w, v). starts_with (c # s @ r) w) literals = []"
    by (intro filter_False) (force simp: image_iff)
  then show ?thesis using c by (simp add: scan_literal_def)
qed

lemma skip_ws_Cons [simp]: "\<not> is_json_ws c \<Longrightarrow> skip_ws (c # s) = c # s"
  and skip_ws_Nil [simp]: "skip_ws [] = []"
  and skip_ws_space [simp]: "skip_ws (CHR '' '' # s) = skip_ws s"
  by (simp_all add: skip_ws_def is_json_ws_def)

lemma punctuation [simp]: "\<not> is_json_ws CHR '',''" "\<not> is_json_ws CHR '']''" "\<not> is_json_ws CHR ''}''"
  "\<not> is_json_ws CHR '':''" "\<not> is_json_ws CHR 0x22" "\<not> is_json_ws CHR ''{''" "\<not> is_json_ws CHR ''[''"
  by (simp_all add: is_json_ws_def)

lemma stops_punctuation [simp]: "stops_number (CHR '','' # s)" "stops_number (CHR '']'' # s)"
  "stops_number (CHR ''}'' # s)" "stops_number []"
  by (simp_all add: stops_number_def is_digit_def)

text \<open>A text that starts no white space and closes nothing, and is read as the value whatever ends it.\<close>

definition reads_as :: "string \<Rightarrow> pyval \<Rightarrow> bool" where
  "reads_as t v \<longleftrightarrow> (\<exists>c s. t = c # s \<and> \<not> is_json_ws c \<and> c \<noteq> CHR '']'' \<and> c \<noteq> CHR ''}'') \<and>
     (\<forall>n r. stops_number r \<longrightarrow> length t \<le> n \<longrightarrow> parse_value n (t @ r) = Some (v, r))"

lemma reads_asI:
  assumes "t = c # s" "\<not> is_json_ws c" "c \<noteq> CHR '']''" "c \<noteq> CHR ''}''"
    and "\<And>m r. stops_number r \<Longrightarrow> length s \<le> m \<Longrightarrow> parse_value (Suc m) (t @ r) = Some (v, r)"
  shows "reads_as t v"
  unfolding reads_as_def
proof (intro conjI allI impI)
  fix n r assume "stops_number r" "length t \<le> n"
  then show "parse_value n (t @ r) = Some (v, r)" using assms(1,5) by (cases n) auto
qed (use assms(1-4) in auto)

lemma reads_asD: "reads_as t v \<Longrightarrow> stops_number r \<Longrightarrow> length t \<le> n \<Longrightarrow> parse_value n (t @ r) = Some (v, r)"
  by (simp add: reads_as_def)

lemma reads_as_start: "reads_as t v \<Longrightarrow> skip_ws (t @ r) = t @ r \<and> t \<noteq> [] \<and> \<not> starts_with (t @ r) '']'' \<and> \<not> starts_with (t @ r) ''}''"
  by (auto simp: reads_as_def starts_with_def)

lemma join_Cons: "ts \<noteq> [] \<Longrightarrow> join sep (t # ts) = t @ sep @ join sep ts"
  by (cases ts) simp_all

lemma join_start: "ts \<noteq> [] \<Longrightarrow> \<exists>s. join sep ts = hd ts @ s"
  by (cases ts; cases "tl ts") auto

lemma parse_items_join:
  assumes "list_all2 reads_as ts vs" and "ts \<noteq> []" and "length (join '', '' ts) < n"
  shows "parse_items n (join '', '' ts @ CHR '']'' # r) = Some (vs, r)"
  using assms
proof (induction ts vs arbitrary: n rule: list_all2_induct)
  case (Cons t ts v vs)
  obtain m where n: "n = Suc m" using Cons.prems by (cases n) auto
  show ?case
  proof (cases "ts = []")
    case True
    then show ?thesis using Cons n by (simp add: reads_asD)
  next
    case False
    note shape = join_Cons [OF False, of "'', ''" t]
    obtain s where s: "join '', '' ts = hd ts @ s" using join_start [OF False] by blast
    have "reads_as (hd ts) (hd vs)" using False Cons(2) by (cases ts; cases vs) auto
    then have "skip_ws (join '', '' ts @ CHR '']'' # r) = join '', '' ts @ CHR '']'' # r"
      using reads_as_start [of "hd ts" "hd vs" "s @ CHR '']'' # r"] by (simp add: s)
    moreover have "length t \<le> m" "length (join '', '' ts) < m" using Cons.prems n unfolding shape by simp_all
    ultimately show ?thesis using Cons False n reads_asD [OF Cons(1), of "'', '' @ join '', '' ts @ CHR '']'' # r" m]
      unfolding shape by simp
  qed
qed simp

definition member_text :: "string \<times> string \<Rightarrow> string" where
  "member_text kt = json_string (fst kt) @ '': '' @ snd kt"

lemma parse_members_join:
  assumes "list_all2 (\<lambda>kt kv. fst kt = fst kv \<and> reads_as (snd kt) (snd kv)) kts kvs" and "kts \<noteq> []"
    and "length (join '', '' (map member_text kts)) < n"
  shows "parse_members n (join '', '' (map member_text kts) @ CHR ''}'' # r) = Some (kvs, r)"
  using assms
proof (induction kts kvs arbitrary: n rule: list_all2_induct)
  case (Cons kt kts kv kvs)
  obtain k t v where kv: "kt = (k, t)" "kv = (k, v)" and v: "reads_as t v" using Cons(1) by (cases kt; cases kv) auto
  obtain m where n: "n = Suc m" using Cons.prems by (cases n) auto
  have read: "scan_string (tl (member_text kt @ r)) = Some (k, '': '' @ t @ r)"
    "starts_with (member_text kt @ r) [CHR 0x22]" for r
    using scan_json_string [of k "'': '' @ t @ r"] by (simp_all add: kv member_text_def json_string_def starts_with_def)
  have val: "skip_ws (t @ r) = t @ r" for r using reads_as_start [OF v] by simp
  show ?case
  proof (cases "kts = []")
    case True
    then have "kvs = []" using Cons(2) by simp
    moreover have "length t \<le> m" using Cons.prems True n kv by (simp add: member_text_def)
    ultimately show ?thesis using n True read [of "CHR ''}'' # r"] v val
      by (simp add: kv reads_asD) (simp add: starts_with_def)
  next
    case False
    then have "map member_text kts \<noteq> []" by simp
    note shape = join_Cons [OF this, of "'', ''" "member_text kt"]
    obtain s where s: "join '', '' (map member_text kts) = hd (map member_text kts) @ s" using join_start False by blast
    then have "skip_ws (join '', '' (map member_text kts) @ CHR ''}'' # r) = join '', '' (map member_text kts) @ CHR ''}'' # r"
      using False by (cases kts) (simp_all add: member_text_def json_string_def)
    moreover have "length t \<le> m" "length (join '', '' (map member_text kts)) < m"
      using Cons.prems n unfolding list.map shape by (simp_all add: member_text_def kv)
    ultimately show ?thesis
      using Cons False n val v read [of "'', '' @ join '', '' (map member_text kts) @ CHR ''}'' # r"]
      unfolding list.map shape by (simp add: kv reads_asD) (simp add: starts_with_def)
  qed
qed simp

lemma reads_as_list:
  assumes "list_all2 reads_as ts vs"
  shows "reads_as (''['' @ join '', '' ts @ '']'') (PList vs)"
proof -
  have "parse_value (Suc m) (''['' @ join '', '' ts @ '']'' @ r) = Some (PList vs, r)" if "Suc (length (join '', '' ts)) \<le> m" for m r
  proof (cases "ts = []")
    case True
    then show ?thesis using assms by (simp add: starts_with_def)
  next
    case False
    obtain s where s: "join '', '' ts = hd ts @ s" using join_start [OF False] by blast
    have "reads_as (hd ts) (hd vs)" using False assms by (cases ts; cases vs) auto
    then show ?thesis using reads_as_start [of "hd ts" "hd vs" "s @ '']'' @ r"] parse_items_join [OF assms False, of m r] that
      by (simp add: s)
  qed
  then show ?thesis by (intro reads_asI [where c = "CHR ''[''" and s = "join '', '' ts @ '']''"]) (simp_all del: parse_value.simps)
qed

lemma reads_as_dict:
  assumes "list_all2 (\<lambda>kt kv. fst kt = fst kv \<and> reads_as (snd kt) (snd kv)) kts kvs"
  shows "reads_as (''{'' @ join '', '' (map member_text kts) @ ''}'') (PDict (dict_of kvs))"
proof -
  let ?b = "join '', '' (map member_text kts)"
  have "parse_value (Suc m) (''{'' @ ?b @ ''}'' @ r) = Some (PDict (dict_of kvs), r)" if "Suc (length ?b) \<le> m" for m r
  proof (cases "kts = []")
    case True
    then show ?thesis using assms by (simp add: starts_with_def dict_of_def)
  next
    case False
    then obtain s where "?b = hd (map member_text kts) @ s" using join_start by blast
    then obtain s' where s: "?b = CHR 0x22 # s'" using False by (cases kts) (simp_all add: member_text_def json_string_def)
    then show ?thesis using parse_members_join [OF assms False, of m r] that by (simp add: starts_with_def)
  qed
  then show ?thesis by (intro reads_asI [where c = "CHR ''{''" and s = "?b @ ''}''"]) (simp_all del: parse_value.simps)
qed

lemma reads_as_number:
  assumes "number_text t" and "\<And>r. stops_number r \<Longrightarrow> scan_number (t @ r) = Some (v, r)"
  shows "reads_as t v"
proof -
  obtain c s where c: "t = c # s" "is_digit c \<or> c = CHR ''-''"
    using assms(1) by (auto simp: number_text_def split: list.splits)
  have "is_digit c \<Longrightarrow> c \<noteq> CHR 0x22 \<and> c \<noteq> CHR ''['' \<and> c \<noteq> CHR ''{'' \<and> c \<noteq> CHR '']'' \<and> c \<noteq> CHR ''}'' \<and> \<not> is_json_ws c"
    using digit_facts [of c] by simp
  moreover have "\<not> is_json_ws (CHR ''-'')" by (simp add: is_json_ws_def)
  ultimately have start: "c \<noteq> CHR 0x22" "c \<noteq> CHR ''[''" "c \<noteq> CHR ''{''" "c \<noteq> CHR '']''" "c \<noteq> CHR ''}''" "\<not> is_json_ws c"
    using c(2) by auto
  have "parse_value (Suc m) (t @ r) = Some (v, r)" if "stops_number r" for m r
    using scan_literal_number [OF assms(1), of r] assms(2) [OF that] c(1) start by simp
  then show ?thesis using c(1) start by (intro reads_asI [of t c s]) simp_all
qed

lemma reads_as_int: "length (dec_nat (nat \<bar>i\<bar>)) \<le> 4300 \<Longrightarrow> reads_as (dec_int i) (PInt i)"
  by (rule reads_as_number [OF number_text_int scan_number_int])

lemma reads_as_string: "reads_as (json_string s) (PStr s)"
  by (rule reads_asI [where c = "CHR 0x22" and s = "concat (map json_escape_char s) @ [CHR 0x22]"])
    (simp_all add: json_string_def scan_json_string)

lemma reads_as_word: "reads_as ''null'' PNone" "reads_as ''true'' (PBool True)" "reads_as ''false'' (PBool False)"
  "reads_as ''NaN'' (PFloat NaN)" "reads_as ''Infinity'' (PFloat PInf)" "reads_as ''-Infinity'' (PFloat NInf)"
  by (rule reads_asI, simp, simp_all add: scan_literal_def literals_def starts_with_def is_json_ws_def)+

lemma loads_reads_as: "reads_as t v \<Longrightarrow> loads t = Some v"
  using reads_asD [of t v "[]" "2 * length t + 2"] reads_as_start [of t v "[]"] by (simp add: loads_def)

lemma reads_as_dumps: "small_ints j \<Longrightarrow> reads_as (dumps j) (embed j)"
proof (induction j)
  case (JList js)
  then have "list_all2 reads_as (map dumps js) (map embed js)" by (auto simp: list_all2_conv_all_nth list_all_iff)
  then show ?case using reads_as_list by simp
next
  case (JObj kvs)
  have "list_all2 (\<lambda>kt kv. fst kt = fst kv \<and> reads_as (snd kt) (snd kv)) (map (\<lambda>(k, v). (k, dumps v)) kvs) (map (\<lambda>(k, v). (k, embed v)) kvs)"
    using JObj by (auto simp: list_all2_conv_all_nth list_all_iff split: prod.splits) (metis nth_mem snds.intros snd_conv)+
  from reads_as_dict [OF this] show ?case by (simp add: member_text_def case_prod_unfold comp_def)
qed (simp_all add: reads_as_string reads_as_int reads_as_word)

text \<open>Every text \<^const>\<open>dumps\<close> writes is read back as the same value.\<close>

lemma loads_dumps: "small_ints j \<Longrightarrow> loads (dumps j) = Some (embed j)"
  by (rule loads_reads_as [OF reads_as_dumps])

end
