(* ===== verification/NetGuard.thy ===== *)
theory NetGuard
  imports Redis Access Sha256 Json
begin

text \<open>
  Who is calling and how often: the client address of a request (core/core/client_ip.py, the guard
  of the internal endpoints in core/main.py), the request logger that resolves it and the rate
  limiter (core/api/middleware). Addresses and networks are read as the module \<open>ipaddress\<close> of the
  standard library reads them; the sliding window lives in Redis, whose commands are the parameter
  of theory Redis.
\<close>

subsection \<open>Requests\<close>

text \<open>Header names arrive in lower case; a lookup ignores case and returns the first value.\<close>

record request =
  rq_method :: string
  rq_path :: string
  rq_peer :: "string option"
  rq_headers :: "(string \<times> string) list"
  rq_cookies :: "(string \<times> string) list"

definition header :: "request \<Rightarrow> string \<Rightarrow> string option" where
  "header r name = map_of (rq_headers r) (lower name)"

definition cookie :: "request \<Rightarrow> string \<Rightarrow> string option" where
  "cookie r name = map_of (rq_cookies r) name"

subsection \<open>Addresses\<close>

datatype ip_addr = IPv4 int | IPv6 int

text \<open>Four decimal octets without leading zeros.\<close>

definition parse_octet :: "string \<Rightarrow> nat option" where
  "parse_octet s =
     (if s = [] \<or> \<not> list_all is_digit s \<or> 3 < length s \<or> (s \<noteq> ''0'' \<and> starts_with s ''0'') then None
      else case dec_val 0 s of Some n \<Rightarrow> if n \<le> 255 then Some n else None | None \<Rightarrow> None)"

fun octets_value :: "int \<Rightarrow> string list \<Rightarrow> int option" where
  "octets_value acc [] = Some acc"
| "octets_value acc (s # ss) =
     (case parse_octet s of None \<Rightarrow> None | Some n \<Rightarrow> octets_value (256 * acc + int n) ss)"

definition parse_ipv4 :: "string \<Rightarrow> int option" where
  "parse_ipv4 s = (let os = split_all CHR ''.'' s in if length os = 4 then octets_value 0 os else None)"

text \<open>
  Groups of up to four hexadecimal digits, the last two possibly written as an IPv4 address, and at
  most one run of zero groups written \<open>::\<close>.
\<close>

definition parse_hextet :: "string \<Rightarrow> int option" where
  "parse_hextet s =
     (if s = [] \<or> 4 < length s \<or> \<not> list_all (\<lambda>c. hex_val c \<noteq> None) s then None
      else int16 s)"

fun hextets_value :: "int \<Rightarrow> string list \<Rightarrow> int option" where
  "hextets_value acc [] = Some acc"
| "hextets_value acc (s # ss) =
     (case parse_hextet s of None \<Rightarrow> None | Some n \<Rightarrow> hextets_value (65536 * acc + n) ss)"

definition expand_ipv4_tail :: "string list \<Rightarrow> string list option" where
  "expand_ipv4_tail ps =
     (if contains (last ps) ''.''
      then (case parse_ipv4 (last ps) of
              None \<Rightarrow> None
            | Some n \<Rightarrow> Some (butlast ps @ [drop 2 (py_hex (n div 65536)), drop 2 (py_hex (n mod 65536))]))
      else Some ps)"

definition inner_gaps :: "string list \<Rightarrow> nat list" where
  "inner_gaps ps = filter (\<lambda>i. ps ! i = []) [1 ..< length ps - 1]"

definition assemble_ipv6 :: "string list \<Rightarrow> int option" where
  "assemble_ipv6 ps =
     (case inner_gaps ps of
        [] \<Rightarrow> if length ps = 8 then hextets_value 0 ps else None
      | [i] \<Rightarrow>
          (if (hd ps = [] \<and> i \<noteq> 1) \<or> (last ps = [] \<and> i \<noteq> length ps - 2) then None
           else let hi = (if hd ps = [] then [] else take i ps);
                    lo = (if last ps = [] then [] else drop (i + 1) ps) in
                if 8 \<le> length hi + length lo then None
                else case (hextets_value 0 hi, hextets_value 0 lo) of
                       (Some a, Some b) \<Rightarrow> Some (a * 65536 ^ (8 - length hi) + b)
                     | _ \<Rightarrow> None)
      | _ \<Rightarrow> None)"

definition parse_ipv6 :: "string \<Rightarrow> int option" where
  "parse_ipv6 s =
     (case split_first CHR ''%'' s of (a, scope) \<Rightarrow>
        if scope = Some [] \<or> (case scope of Some z \<Rightarrow> contains z ''%'' | None \<Rightarrow> False) then None
        else let ps = split_all CHR '':'' a in
             if length ps < 3 then None
             else case expand_ipv4_tail ps of
                    None \<Rightarrow> None
                  | Some qs \<Rightarrow> if 9 < length qs then None else assemble_ipv6 qs)"

text \<open>\<open>ipaddress.ip_address(s)\<close>; \<open>None\<close> is \<open>ValueError\<close>.\<close>

definition ip_address :: "string \<Rightarrow> ip_addr option" where
  "ip_address s =
     (if contains s ''/'' then None
      else case parse_ipv4 s of
             Some n \<Rightarrow> Some (IPv4 n)
           | None \<Rightarrow> map_option IPv6 (parse_ipv6 s))"

subsection \<open>Networks\<close>

text \<open>A network is an address with the host bits cleared and the length of its prefix.\<close>

datatype ip_net = Net4 int nat | Net6 int nat

definition clear_host :: "nat \<Rightarrow> nat \<Rightarrow> int \<Rightarrow> int" where
  "clear_host bits p n = n div 2 ^ (bits - p) * 2 ^ (bits - p)"

definition prefix_length :: "nat \<Rightarrow> string \<Rightarrow> nat option" where
  "prefix_length bits s =
     (if s = [] \<or> \<not> list_all is_digit s then None
      else case dec_val 0 s of Some n \<Rightarrow> if n \<le> bits then Some n else None | None \<Rightarrow> None)"

text \<open>An IPv4 mask written as an address: a netmask (ones first), else a host mask (zeros first).\<close>

definition netmask_length :: "int \<Rightarrow> nat option" where
  "netmask_length n = find (\<lambda>p. n = 2 ^ 32 - 2 ^ (32 - p)) [0 ..< 33]"

definition mask_length4 :: "string \<Rightarrow> nat option" where
  "mask_length4 s =
     (case prefix_length 32 s of
        Some p \<Rightarrow> Some p
      | None \<Rightarrow>
          (case parse_ipv4 s of
             None \<Rightarrow> None
           | Some n \<Rightarrow> (case netmask_length n of
                          Some p \<Rightarrow> Some p
                        | None \<Rightarrow> netmask_length (2 ^ 32 - 1 - n))))"

definition net4 :: "string \<Rightarrow> string option \<Rightarrow> ip_net option" where
  "net4 a nm =
     (case (parse_ipv4 a, case nm of None \<Rightarrow> Some 32 | Some s \<Rightarrow> mask_length4 s) of
        (Some n, Some p) \<Rightarrow> Some (Net4 (clear_host 32 p n) p) | _ \<Rightarrow> None)"

definition net6 :: "string \<Rightarrow> string option \<Rightarrow> ip_net option" where
  "net6 a nm =
     (case (parse_ipv6 a, case nm of None \<Rightarrow> Some 128 | Some s \<Rightarrow> prefix_length 128 s) of
        (Some n, Some p) \<Rightarrow> Some (Net6 (clear_host 128 p n) p) | _ \<Rightarrow> None)"

text \<open>\<open>ipaddress.ip_network(s, strict=False)\<close>.\<close>

definition ip_network :: "string \<Rightarrow> ip_net option" where
  "ip_network s =
     (case split_all CHR ''/'' s of
        [a] \<Rightarrow> (case net4 a None of Some n \<Rightarrow> Some n | None \<Rightarrow> net6 a None)
      | [a, b] \<Rightarrow> (case net4 a (Some b) of Some n \<Rightarrow> Some n | None \<Rightarrow> net6 a (Some b))
      | _ \<Rightarrow> None)"

fun in_net :: "ip_addr \<Rightarrow> ip_net \<Rightarrow> bool" where
  "in_net (IPv4 n) (Net4 m p) = (clear_host 32 p n = m)"
| "in_net (IPv6 n) (Net6 m p) = (clear_host 128 p n = m)"
| "in_net _ _ = False"


subsection \<open>The client address\<close>

definition parse_networks :: "string \<Rightarrow> ip_net list" where
  "parse_networks raw =
     List.map_filter (\<lambda>t. if t = [] then None else ip_network t) (map strip (split_all CHR '','' raw))"

definition default_trusted_nets :: string where
  "default_trusted_nets = ''127.0.0.0/8,10.0.0.0/8,172.16.0.0/12,192.168.0.0/16''"

definition TRUSTED_PROXY_NETS :: "string option \<Rightarrow> ip_net list" where
  "TRUSTED_PROXY_NETS env = parse_networks (case env of None \<Rightarrow> default_trusted_nets | Some s \<Rightarrow> s)"

definition peer_in_trusted_nets :: "string \<Rightarrow> ip_net list \<Rightarrow> bool" where
  "peer_in_trusted_nets peer nets =
     (case ip_address peer of None \<Rightarrow> False | Some a \<Rightarrow> list_ex (in_net a) nets)"

definition extract_client_ip :: "ip_net list \<Rightarrow> request \<Rightarrow> string" where
  "extract_client_ip nets r =
     (let direct = (if truthy (rq_peer r) then the (rq_peer r) else ''unknown'');
          forwarded = (case header r ''X-Forwarded-For'' of
                         None \<Rightarrow> [] | Some x \<Rightarrow> strip (hd (split_all CHR '','' x))) in
      if truthy (rq_peer r) \<and> peer_in_trusted_nets (the (rq_peer r)) nets
      then if forwarded \<noteq> [] then forwarded
           else if truthy (header r ''X-Real-IP'') then strip (the (header r ''X-Real-IP''))
           else direct
      else direct)"

text \<open>The context variable that carries the address to audit entries.\<close>

definition NO_REQUEST_SENTINEL :: string where
  "NO_REQUEST_SENTINEL = ''internal''"

definition set_request_ip :: "string \<Rightarrow> string option" where
  "set_request_ip ip = Some (if ip \<noteq> [] then ip else NO_REQUEST_SENTINEL)"

definition get_request_ip :: "string option \<Rightarrow> string" where
  "get_request_ip var = (case var of None \<Rightarrow> NO_REQUEST_SENTINEL | Some ip \<Rightarrow> ip)"

text \<open>The networks that may read \<open>/metrics\<close> and \<open>/health/deep\<close>, decided on the direct peer.\<close>

definition INTERNAL_NETWORKS :: "ip_net list" where
  "INTERNAL_NETWORKS =
     [Net4 (127 * 2 ^ 24) 8, Net4 (10 * 2 ^ 24) 8, Net4 (172 * 2 ^ 24 + 16 * 2 ^ 16) 12,
      Net4 (192 * 2 ^ 24 + 168 * 2 ^ 16) 16]"

definition is_trusted_internal :: "string \<Rightarrow> bool" where
  "is_trusted_internal ip =
     (case ip_address ip of Some (IPv4 n) \<Rightarrow> list_ex (in_net (IPv4 n)) INTERNAL_NETWORKS | _ \<Rightarrow> False)"

definition metrics_status :: "request \<Rightarrow> nat" where
  "metrics_status r =
     (if is_trusted_internal (case rq_peer r of Some p \<Rightarrow> p | None \<Rightarrow> ''unknown'') then 200 else 403)"

subsection \<open>The rate limiter\<close>

definition GET_RATE_LIMIT :: nat where "GET_RATE_LIMIT = 120"
definition WRITE_RATE_LIMIT :: nat where "WRITE_RATE_LIMIT = 30"
definition WINDOW_SECONDS :: int where "WINDOW_SECONDS = 60"

definition exempt_path :: "string \<Rightarrow> bool" where
  "exempt_path path \<longleftrightarrow> list_ex (starts_with path) [''/health'', ''/metrics'']"

definition rate_key :: "string \<Rightarrow> string \<Rightarrow> string" where
  "rate_key ip meth =
     ''rate:'' @ take 16 (bytes_hex (sha256 (utf8 ip))) @ '':'' @ meth"

definition rate_limit :: "string \<Rightarrow> nat" where
  "rate_limit meth = (if meth = ''GET'' then GET_RATE_LIMIT else WRITE_RATE_LIMIT)"

text \<open>What a middleware answers: the request goes on, or a response with this status.\<close>

datatype gate = Pass | Refuse nat

text \<open>
  The pipeline runs as one transaction of the server. \<open>up\<close>: the server answers; when it does not,
  no command has an effect and the call raises.
\<close>

definition rate_pipeline :: "'s redis \<Rightarrow> 's \<Rightarrow> string \<Rightarrow> rat \<Rightarrow> 's \<times> nat" where
  "rate_pipeline R s key now =
     (let s1 = r_zremrangebyscore R s now key 0 (fsub now (of_int WINDOW_SECONDS));
          s2 = r_zadd R s1 now key now
      in (r_expire R s2 now key WINDOW_SECONDS, r_zcard R s2 now key))"

definition rate_dispatch ::
  "'s redis \<Rightarrow> ip_net list \<Rightarrow> string option \<Rightarrow> request \<Rightarrow> rat \<Rightarrow> bool \<Rightarrow> 's \<Rightarrow> 's \<times> gate" where
  "rate_dispatch R nets state_ip r now up s =
     (if exempt_path (rq_path r) then (s, Pass)
      else let ip = (if truthy state_ip then the state_ip else extract_client_ip nets r);
               key = rate_key ip (rq_method r) in
           if up
           then (case rate_pipeline R s key now of (s', n) \<Rightarrow>
                   (s', if rate_limit (rq_method r) < n then Refuse 429 else Pass))
           else (s, if rq_method r \<in> {''GET'', ''HEAD'', ''OPTIONS''} then Pass else Refuse 503))"

text \<open>The request logger runs first: it resolves the address once for the layers below it.\<close>

definition logged_dispatch ::
  "'s redis \<Rightarrow> ip_net list \<Rightarrow> request \<Rightarrow> rat \<Rightarrow> bool \<Rightarrow> 's \<Rightarrow> 's \<times> gate" where
  "logged_dispatch R nets r now up s =
     rate_dispatch R nets (Some (extract_client_ip nets r)) r now up s"


subsection \<open>Clock readings\<close>

text \<open>\<open>time.time()\<close> returns a double; below \<open>2 ^ 53\<close> taking 60 off it is exact.\<close>

definition clock_reading :: "rat \<Rightarrow> bool" where
  "clock_reading t \<longleftrightarrow> rnd t = t \<and> 60 \<le> t \<and> t < 2 ^ 53"

lemma fsub_clock: "clock_reading t \<Longrightarrow> fsub t 60 = t - 60"
  using fsub_int [of t 60] by (simp add: clock_reading_def)


subsection \<open>The limiter refines a log of all arrivals\<close>

text \<open>
  A run handles arriving requests in order, the server answering each. The specification keeps the
  whole log: a request goes on exactly when, itself included, at most \<open>rate_limit\<close> requests of its
  address and method arrived during the last 60 seconds, refused ones counted.
\<close>

type_synonym arrival = "request \<times> rat"

fun limit_run :: "'s redis \<Rightarrow> ip_net list \<Rightarrow> 's \<Rightarrow> arrival list \<Rightarrow> gate list" where
  "limit_run R nets s [] = []"
| "limit_run R nets s ((r, now) # as) =
     (case logged_dispatch R nets r now True s of (s', v) \<Rightarrow> v # limit_run R nets s' as)"

definition arrival_key :: "ip_net list \<Rightarrow> arrival \<Rightarrow> string" where
  "arrival_key nets a = rate_key (extract_client_ip nets (fst a)) (rq_method (fst a))"

definition recent :: "ip_net list \<Rightarrow> string \<Rightarrow> rat \<Rightarrow> arrival list \<Rightarrow> arrival list" where
  "recent nets k t as =
     filter (\<lambda>a. \<not> exempt_path (rq_path (fst a)) \<and> arrival_key nets a = k \<and> t - 60 < snd a) as"

fun sliding_log :: "ip_net list \<Rightarrow> arrival list \<Rightarrow> arrival list \<Rightarrow> gate list" where
  "sliding_log nets hist [] = []"
| "sliding_log nets hist (a # as) =
     (if exempt_path (rq_path (fst a))
         \<or> length (recent nets (arrival_key nets a) (snd a) (hist @ [a])) \<le> rate_limit (rq_method (fst a))
      then Pass else Refuse 429) # sliding_log nets (hist @ [a]) as"

text \<open>Arrivals in time order, those under one key at distinct clock readings.\<close>

definition in_order :: "ip_net list \<Rightarrow> arrival list \<Rightarrow> bool" where
  "in_order nets as \<longleftrightarrow>
     list_all (\<lambda>a. clock_reading (snd a)) as \<and>
     sorted_wrt (\<lambda>a b. snd a \<le> snd b \<and> (arrival_key nets a = arrival_key nets b \<longrightarrow> snd a < snd b)) as"

lemma logged_dispatch_key:
  "logged_dispatch R nets r now up s =
     (if exempt_path (rq_path r) then (s, Pass)
      else if up
      then (case rate_pipeline R s (arrival_key nets (r, now)) now of (s', n) \<Rightarrow>
              (s', if rate_limit (rq_method r) < n then Refuse 429 else Pass))
      else (s, if rq_method r \<in> {''GET'', ''HEAD'', ''OPTIONS''} then Pass else Refuse 503))"
  by (simp add: logged_dispatch_def rate_dispatch_def arrival_key_def Let_def)

lemma distinct_recent: "in_order nets as \<Longrightarrow> distinct (map snd (recent nets k t as))"
proof -
  assume "in_order nets as"
  then have "sorted_wrt (\<lambda>a b. snd a < snd b) (recent nets k t as)"
    unfolding recent_def in_order_def
    by (induction as) (auto simp: sorted_wrt_append)
  then have "sorted_wrt (<) (map snd (recent nets k t as))" by (simp add: sorted_wrt_map)
  then show ?thesis by (simp add: strict_sorted_iff)
qed

context redis_server
begin

text \<open>The window under every key agrees with the log.\<close>

definition window_of :: "ip_net list \<Rightarrow> arrival list \<Rightarrow> 's \<Rightarrow> bool" where
  "window_of nets hist s \<longleftrightarrow>
     (\<forall>u k. (\<forall>a \<in> set hist. snd a \<le> u) \<longrightarrow>
        (\<forall>x \<in> zs s u k. 0 \<le> x) \<and> {x \<in> zs s u k. u - 60 < x} = snd ` set (recent nets k u hist))"

lemma zs_pipeline_other:
  "k' \<noteq> k \<Longrightarrow> zs (fst (rate_pipeline R s k t)) u k' = zs s u k'"
  by (simp add: rate_pipeline_def Let_def zs_expire_other zs_zadd_other zs_zrem_other)

lemma zs_pipeline:
  assumes "clock_reading t" "t \<le> u" "\<forall>x \<in> zs s t k. 0 \<le> x"
  shows "zs (fst (rate_pipeline R s k t)) u k =
    (if u < t + 60 then insert t {x \<in> zs s t k. t - 60 < x} else {})"
  using assms by (auto simp: rate_pipeline_def Let_def WINDOW_SECONDS_def fsub_clock zs_expire zs_zadd zs_zrem)

lemma card_pipeline:
  assumes "clock_reading t" "\<forall>x \<in> zs s t k. 0 \<le> x"
  shows "snd (rate_pipeline R s k t) = card (insert t {x \<in> zs s t k. t - 60 < x})"
proof -
  have "{x \<in> zs s t k. \<not> (0 \<le> x \<and> x \<le> t - 60)} = {x \<in> zs s t k. t - 60 < x}" using assms by auto
  then show ?thesis using assms
    by (simp add: rate_pipeline_def Let_def WINDOW_SECONDS_def fsub_clock zcard zs_zadd zs_zrem)
qed

lemma window_step:
  assumes w: "window_of nets hist s" and a: "clock_reading (snd a)" "\<forall>b \<in> set hist. snd b \<le> snd a"
    and counted: "\<not> exempt_path (rq_path (fst a))"
  shows "window_of nets (hist @ [a]) (fst (rate_pipeline R s (arrival_key nets a) (snd a)))"
  unfolding window_of_def
proof (intro allI impI)
  fix u k assume u: "\<forall>b \<in> set (hist @ [a]). snd b \<le> u"
  let ?s = "fst (rate_pipeline R s (arrival_key nets a) (snd a))"
  show "(\<forall>x \<in> zs ?s u k. 0 \<le> x) \<and> {x \<in> zs ?s u k. u - 60 < x} = snd ` set (recent nets k u (hist @ [a]))"
  proof (cases "arrival_key nets a = k")
    case True
    have now: "\<forall>x \<in> zs s (snd a) k. 0 \<le> x"
      "{x \<in> zs s (snd a) k. snd a - 60 < x} = snd ` set (recent nets k (snd a) hist)"
      using w a(2) by (auto simp: window_of_def)
    have "zs ?s u k = (if u < snd a + 60 then insert (snd a) (snd ` set (recent nets k (snd a) hist)) else {})"
      using zs_pipeline [of "snd a" u s k] a(1) u now True by simp
    moreover have "0 \<le> snd a" using a(1) by (simp add: clock_reading_def)
    moreover have "snd ` set (recent nets k (snd a) hist) \<subseteq> zs s (snd a) k" using now(2) by blast
    moreover have "\<forall>x \<in> snd ` set (recent nets k (snd a) hist). x \<le> snd a" using a(2) by (auto simp: recent_def)
    moreover have "snd ` set (recent nets k u (hist @ [a])) = 
      {x \<in> insert (snd a) (snd ` set (recent nets k (snd a) hist)). u - 60 < x}"
      using True counted u a(2) by (auto simp: recent_def image_iff)
    ultimately show ?thesis using now(1) u by force
  next
    case False
    moreover have "recent nets k u (hist @ [a]) = recent nets k u hist" using False by (simp add: recent_def)
    ultimately show ?thesis using w u by (auto simp: window_of_def zs_pipeline_other)
  qed
qed

lemma step_verdict:
  assumes w: "window_of nets hist s" and order: "in_order nets (hist @ [a])"
    and counted: "\<not> exempt_path (rq_path (fst a))"
  shows "snd (rate_pipeline R s (arrival_key nets a) (snd a)) =
    length (recent nets (arrival_key nets a) (snd a) (hist @ [a]))"
proof -
  let ?k = "arrival_key nets a"
  have a: "clock_reading (snd a)" "\<forall>b \<in> set hist. snd b \<le> snd a"
    using order by (auto simp: in_order_def sorted_wrt_append)
  have "snd (rate_pipeline R s ?k (snd a)) = card (insert (snd a) (snd ` set (recent nets ?k (snd a) hist)))"
    using w a card_pipeline [of "snd a" s ?k] by (simp add: window_of_def)
  also have "insert (snd a) (snd ` set (recent nets ?k (snd a) hist)) =
      set (map snd (recent nets ?k (snd a) (hist @ [a])))"
    using counted by (simp add: recent_def)
  also have "card (set (map snd (recent nets ?k (snd a) (hist @ [a])))) = length (recent nets ?k (snd a) (hist @ [a]))"
    using distinct_recent [OF order] by (simp only: distinct_card length_map)
  finally show ?thesis .
qed

lemma run_refines:
  "window_of nets hist s \<Longrightarrow> in_order nets (hist @ as) \<Longrightarrow> limit_run R nets s as = sliding_log nets hist as"
proof (induction as arbitrary: hist s)
  case (Cons a as)
  obtain r now where a: "a = (r, now)" by fastforce
  have order: "in_order nets (hist @ [a])" "in_order nets ((hist @ [a]) @ as)"
    using Cons.prems(2) by (auto simp: in_order_def sorted_wrt_append)
  show ?case
  proof (cases "exempt_path (rq_path r)")
    case True
    then have "recent nets k u (hist @ [a]) = recent nets k u hist" for k u by (simp add: recent_def a)
    then have "window_of nets (hist @ [a]) s" using Cons.prems(1) by (auto simp: window_of_def)
    then show ?thesis using Cons.IH [OF _ order(2)] True by (simp add: a logged_dispatch_key)
  next
    case False
    have "window_of nets (hist @ [a]) (fst (rate_pipeline R s (arrival_key nets a) (snd a)))"
      using Cons.prems(1) order(1) False
      by (intro window_step) (auto simp: in_order_def sorted_wrt_append a)
    then have "limit_run R nets (fst (rate_pipeline R s (arrival_key nets a) (snd a))) as = sliding_log nets (hist @ [a]) as"
      using Cons.IH order(2) by blast
    then show ?thesis using step_verdict [OF Cons.prems(1) order(1)] False
      by (auto simp: a logged_dispatch_key split: prod.split)
  qed
qed simp

end


lemma limiter_log:
  assumes "redis_server R zs" and "\<And>u k. zs s u k = {}" and "in_order nets as"
  shows "limit_run R nets s as = sliding_log nets [] as"
proof -
  have "redis_server.window_of zs nets [] s"
    using assms(2) by (simp add: redis_server.window_of_def [OF assms(1)] recent_def)
  then show ?thesis using redis_server.run_refines [OF assms(1)] assms(3) by fastforce
qed

text \<open>C25: For any sequence of requests from any addresses, in time order and with the requests of one
  address and method at distinct clock readings, the limiter over Redis answers exactly as the log
  of all arrivals does: a request goes on if and only if its path is exempt or at most the limit of
  its method arrived from its address during the last 60 seconds. Refused requests count.\<close>

theorem rate_limiter_sliding_log:
  assumes "redis_server R zs" and "\<And>u k. zs s u k = {}" and "in_order nets as"
  shows "limit_run R nets s as = sliding_log nets [] as"
  by (rule limiter_log [OF assms])

definition sample_post :: request where
  "sample_post = \<lparr>rq_method = ''POST'', rq_path = ''/api/v1/assets'', rq_peer = Some ''192.0.2.7'',
     rq_headers = [], rq_cookies = []\<rparr>"

definition sample_burst :: "arrival list" where
  "sample_burst = map (\<lambda>i. (sample_post, 100 + of_nat i)) [0 ..< 31]"

lemma burst_in_order: "in_order nets sample_burst"
proof -
  have "clock_reading (100 + of_nat i)" if "i < 31" for i
  proof -
    have "rnd (of_int (100 + int i)) = of_int (100 + int i)" using that by (intro rnd_of_int) simp
    moreover have "(of_nat i :: rat) < 31" using that of_nat_less_iff [of i 31, where 'a = rat] by simp
    ultimately show ?thesis by (simp add: clock_reading_def)
  qed
  then show ?thesis
    by (auto simp: in_order_def sample_burst_def list_all_iff sorted_wrt_map
        intro!: sorted_wrt_mono_rel [OF _ sorted_wrt_upt])
qed

lemma map_zs_empty [simp]: "map_zs [] u k = {}"
  by (simp add: map_zs_def live_zset_def live_def)

theorem rate_limiter_sliding_log_witness:
  "length (filter (\<lambda>v. v = Pass) (limit_run map_redis [] [] sample_burst)) = 30 \<and>
   last (limit_run map_redis [] [] sample_burst) = Refuse 429"
proof -
  have run: "limit_run map_redis [] [] sample_burst = sliding_log [] [] sample_burst"
    by (rule rate_limiter_sliding_log [OF map_server.redis_server_axioms]) (simp_all add: burst_in_order)
  have key: "arrival_key [] (sample_post, t) = rate_key (extract_client_ip [] sample_post) (rq_method sample_post)" for t
    by (simp add: arrival_key_def)
  have "\<not> exempt_path ''/api/v1/assets''" by (simp add: exempt_path_def starts_with_def)
  then have "\<not> exempt_path (rq_path sample_post)" "rate_limit (rq_method sample_post) = 30"
    by (simp_all add: sample_post_def rate_limit_def WRITE_RATE_LIMIT_def)
  then show ?thesis unfolding run
    by (simp add: sample_burst_def upt_rec key recent_def)
qed

lemma rate_key_method: "rate_key ip m = rate_key ip' m' \<Longrightarrow> m = m'"
  by (simp add: rate_key_def bytes_hex_def hex_byte_def length_concat comp_def sum_list_triv)

lemma sliding_log_snoc:
  "sliding_log nets hist (as @ [a]) = sliding_log nets hist as @ sliding_log nets (hist @ as) [a]"
  by (induction as arbitrary: hist) auto

lemma length_sliding_log [simp]: "length (sliding_log nets hist as) = length as"
  by (induction as arbitrary: hist) auto

lemma length_filter_zip_le: "length (filter (\<lambda>p. Q (fst p) \<and> S p) (zip xs ys)) \<le> length (filter Q xs)"
  by (induction xs ys rule: list_induct2') (auto intro: le_SucI)

definition admitted :: "ip_net list \<Rightarrow> string \<Rightarrow> rat \<Rightarrow> arrival list \<Rightarrow> gate list \<Rightarrow> (arrival \<times> gate) list" where
  "admitted nets k t as vs =
     filter (\<lambda>p. (\<not> exempt_path (rq_path (fst (fst p))) \<and> arrival_key nets (fst p) = k
                  \<and> t - 60 < snd (fst p)) \<and> snd (fst p) \<le> t \<and> snd p = Pass) (zip as vs)"

lemma sliding_log_bound:
  "length (admitted nets (rate_key ip m) t as (sliding_log nets [] as)) \<le> rate_limit m"
proof (induction as rule: rev_induct)
  case (snoc a as)
  let ?k = "rate_key ip m" and ?v = "hd (sliding_log nets as [a])"
  have split: "admitted nets ?k t (as @ [a]) (sliding_log nets [] (as @ [a])) =
      admitted nets ?k t as (sliding_log nets [] as) @ admitted nets ?k t [a] [?v]"
    by (simp add: admitted_def sliding_log_snoc)
  show ?case
  proof (cases "admitted nets ?k t [a] [?v]")
    case Nil
    then show ?thesis using snoc split by simp
  next
    case (Cons b bs)
    then have a: "\<not> exempt_path (rq_path (fst a))" "arrival_key nets a = ?k" "t - 60 < snd a" "snd a \<le> t" "?v = Pass"
      by (auto simp: admitted_def split: if_splits)
    then have "rq_method (fst a) = m" using rate_key_method by (simp add: arrival_key_def)
    then have lim: "length (recent nets ?k (snd a) (as @ [a])) \<le> rate_limit m"
      using a(1,2,5) by (simp split: if_splits)
    have "length (admitted nets ?k t (as @ [a]) (sliding_log nets [] (as @ [a])))
        \<le> length (recent nets ?k t (as @ [a]))"
      unfolding admitted_def recent_def by (rule length_filter_zip_le)
    also have "recent nets ?k t (as @ [a]) = filter (\<lambda>b. t - 60 < snd b) (recent nets ?k (snd a) (as @ [a]))"
      using a(4) by (auto simp: recent_def intro!: filter_cong)
    also have "length \<dots> \<le> length (recent nets ?k (snd a) (as @ [a]))" by (rule length_filter_le)
    finally show ?thesis using lim by linarith
  qed
qed (simp add: admitted_def)

text \<open>During any 60 seconds at most 120 reads and at most 30 requests of any other one method
  from one address get past the limiter, whatever else arrives.\<close>

theorem rate_limit_bounds_window:
  assumes "redis_server R zs" and "\<And>u k. zs s u k = {}" and "in_order nets as"
  shows "length (admitted nets (rate_key ip m) t as (limit_run R nets s as))
    \<le> (if m = ''GET'' then 120 else 30)"
  using sliding_log_bound [of nets ip m t as] limiter_log [OF assms]
  by (simp add: rate_limit_def GET_RATE_LIMIT_def WRITE_RATE_LIMIT_def split: if_splits)


theorem rate_limit_bounds_window_witness:
  "length (admitted [] (rate_key ''192.0.2.7'' ''POST'') 130 sample_burst (limit_run map_redis [] [] sample_burst)) \<le> 30"
  using rate_limit_bounds_window [OF map_server.redis_server_axioms, of "[]" "[]" sample_burst "''192.0.2.7''" "''POST''" 130]
  by (simp add: burst_in_order)


subsection \<open>Whose headers are believed\<close>

definition dotted :: "nat \<Rightarrow> nat \<Rightarrow> nat \<Rightarrow> nat \<Rightarrow> string" where
  "dotted a b c d = dec_nat a @ CHR ''.'' # dec_nat b @ CHR ''.'' # dec_nat c @ CHR ''.'' # dec_nat d"

definition private_range :: "nat \<Rightarrow> nat \<Rightarrow> bool" where
  "private_range a b \<longleftrightarrow> a = 127 \<or> a = 10 \<or> (a = 172 \<and> 16 \<le> b \<and> b \<le> 31) \<or> (a = 192 \<and> b = 168)"

lemma parse_octet_dec: "n < 256 \<Longrightarrow> parse_octet (dec_nat n) = Some n"
  using length_dec_nat [of n 3] dec_nat_leading [of n] dec_nat_digits [of n]
  by (auto simp: parse_octet_def dec_val_dec_nat)

lemma dec_nat_chars: "c \<in> set (dec_nat n) \<Longrightarrow> is_digit c"
  using dec_nat_digits [of n] by (simp add: list_all_iff)

lemma dec_nat_no_sep [simp]: "CHR ''.'' \<notin> set (dec_nat n)" "CHR ''/'' \<notin> set (dec_nat n)"
  using dec_nat_chars [of "CHR ''.''" n] dec_nat_chars [of "CHR ''/''" n] by (auto simp: is_digit_def)

lemma contains_char: "contains s [c] \<longleftrightarrow> c \<in> set s"
  by (induction s) (auto simp: starts_with_def)

lemma ip_address_dotted:
  assumes "a < 256" "b < 256" "c < 256" "d < 256"
  shows "ip_address (dotted a b c d) = Some (IPv4 (int (((a * 256 + b) * 256 + c) * 256 + d)))"
  using assms
  by (simp add: ip_address_def contains_char dotted_def parse_ipv4_def split_all_append split_all_no_sep
      parse_octet_dec Let_def algebra_simps)

lemma default_nets: "TRUSTED_PROXY_NETS None = INTERNAL_NETWORKS"
  by code_simp

lemma in_net4_div: "in_net (IPv4 n) (Net4 (m * 2 ^ (32 - p)) p) \<longleftrightarrow> n div 2 ^ (32 - p) = m"
  by (simp add: clear_host_def)

lemma internal_nets_div:
  "list_ex (in_net (IPv4 n)) INTERNAL_NETWORKS \<longleftrightarrow>
     n div 2 ^ 24 = 127 \<or> n div 2 ^ 24 = 10 \<or> n div 2 ^ 20 = 2753 \<or> n div 2 ^ 16 = 49320"
  using in_net4_div [of n 127 8] in_net4_div [of n 10 8] in_net4_div [of n 2753 12] in_net4_div [of n 49320 16]
  by (simp add: INTERNAL_NETWORKS_def del: in_net.simps)

lemma two_digits:
  fixes a b k m n :: nat
  assumes "b < k" "n < k"
  shows "a * k + b = m * k + n \<longleftrightarrow> a = m \<and> b = n"
proof -
  have "(a * k + b) div k = a" "(m * k + n) div k = m" using assms by simp_all
  then show ?thesis by auto
qed

lemma int_eq_numeral: "int x = numeral k \<longleftrightarrow> x = numeral k"
  by (metis of_nat_eq_iff of_nat_numeral)

lemma in_internal:
  assumes "a < 256" "b < 256" "c < 256" "d < 256"
  shows "list_ex (in_net (IPv4 (int (((a * 256 + b) * 256 + c) * 256 + d)))) INTERNAL_NETWORKS \<longleftrightarrow> private_range a b"
proof -
  let ?n = "int (((a * 256 + b) * 256 + c) * 256 + d)"
  have n: "?n div 2 ^ 24 = int a" "?n div 2 ^ 16 = int (a * 256 + b)"
    "?n div 2 ^ 20 = int (a * 16 + b div 16)"
    using assms by simp_all
  have b: "b div 16 = 1 \<longleftrightarrow> 16 \<le> b \<and> b \<le> 31" "b div 16 < 16" using assms by auto
  have "int (a * 256 + b) = 49320 \<longleftrightarrow> a = 192 \<and> b = 168"
    using two_digits [of b 256 168 a 192] assms(2) unfolding int_eq_numeral by simp
  moreover have "int (a * 16 + b div 16) = 2753 \<longleftrightarrow> a = 172 \<and> b div 16 = 1"
    using two_digits [of "b div 16" 16 1 a 172] b(2) unfolding int_eq_numeral by simp
  moreover have "int a = 127 \<longleftrightarrow> a = 127" "int a = 10 \<longleftrightarrow> a = 10" by (simp_all only: int_eq_numeral)
  ultimately show ?thesis
    unfolding internal_nets_div n private_range_def b(1) [symmetric] by blast
qed

text \<open>With the default configuration, a peer address \<open>a.b.c.d\<close> is a trusted proxy, and may read
  the internal endpoints, exactly when it is loopback or in one of the three private ranges. From
  any other peer the forwarding headers are ignored: the client address is the peer's own.\<close>

theorem trusted_peers_are_private:
  assumes "a < 256" "b < 256" "c < 256" "d < 256"
  shows "peer_in_trusted_nets (dotted a b c d) (TRUSTED_PROXY_NETS None) = private_range a b \<and>
    is_trusted_internal (dotted a b c d) = private_range a b \<and>
    (rq_peer r = Some (dotted a b c d) \<and> \<not> private_range a b
      \<longrightarrow> extract_client_ip (TRUSTED_PROXY_NETS None) r = dotted a b c d)"
proof -
  have "peer_in_trusted_nets (dotted a b c d) (TRUSTED_PROXY_NETS None) = private_range a b"
    using in_internal [OF assms] by (simp add: peer_in_trusted_nets_def ip_address_dotted [OF assms] default_nets)
  moreover have "is_trusted_internal (dotted a b c d) = private_range a b"
    using in_internal [OF assms] by (simp add: is_trusted_internal_def ip_address_dotted [OF assms])
  ultimately show ?thesis by (simp add: extract_client_ip_def dotted_def)
qed

subsection \<open>What a forwarded address buys\<close>

lemma forwarded_first:
  assumes "truthy (rq_peer r)" "peer_in_trusted_nets (the (rq_peer r)) nets"
    and "header r ''X-Forwarded-For'' = Some (ip @ CHR '','' # rest)"
    and "CHR '','' \<notin> set ip" "strip ip = ip" "ip \<noteq> []"
  shows "extract_client_ip nets r = ip"
  using assms by (simp add: extract_client_ip_def split_all_append)

lemma sliding_log_distinct:
  "distinct (map (arrival_key nets) (hist @ as)) \<Longrightarrow> sliding_log nets hist as = replicate (length as) Pass"
proof (induction as arbitrary: hist)
  case (Cons a as)
  then have "\<forall>b \<in> set hist. arrival_key nets b \<noteq> arrival_key nets a" by (auto simp: image_iff)
  then have "recent nets (arrival_key nets a) (snd a) hist = []" by (auto simp: recent_def filter_empty_conv)
  then have "length (recent nets (arrival_key nets a) (snd a) (hist @ [a])) \<le> 1"
    by (simp add: recent_def)
  moreover have "1 \<le> rate_limit (rq_method (fst a))"
    by (simp add: rate_limit_def GET_RATE_LIMIT_def WRITE_RATE_LIMIT_def)
  ultimately show ?case using Cons.IH [of "hist @ [a]"] Cons.prems by simp
qed simp

definition claims_address :: "ip_net list \<Rightarrow> string \<Rightarrow> request \<Rightarrow> bool" where
  "claims_address nets ip r \<longleftrightarrow>
     truthy (rq_peer r) \<and> peer_in_trusted_nets (the (rq_peer r)) nets \<and>
     CHR '','' \<notin> set ip \<and> strip ip = ip \<and> ip \<noteq> [] \<and>
     (case header r ''X-Forwarded-For'' of None \<Rightarrow> False | Some x \<Rightarrow> starts_with x (ip @ '',''))"

text \<open>Behind a trusted proxy that appends the real peer to \<open>X-Forwarded-For\<close>, the caller writes the
  first entry of the header and so chooses its own client address; a caller that names another
  address in each request is never limited, whatever the rate (addresses whose truncated hashes
  collide apart).\<close>

theorem forged_addresses_never_limited:
  assumes "redis_server R zs" and "\<And>u k. zs s u k = {}" and "in_order nets as"
    and "list_all2 (\<lambda>ip a. claims_address nets ip (fst a)) ips as"
    and "distinct (map2 (\<lambda>ip a. rate_key ip (rq_method (fst a))) ips as)"
  shows "map (\<lambda>a. extract_client_ip nets (fst a)) as = ips \<and>
    limit_run R nets s as = replicate (length as) Pass"
proof -
  have first: "extract_client_ip nets r = ip" if "claims_address nets ip r" for ip r
  proof -
    from that obtain x where x: "header r ''X-Forwarded-For'' = Some x" "starts_with x (ip @ '','')"
      by (auto simp: claims_address_def split: option.splits)
    then have "x = ip @ CHR '','' # drop (length ip + 1) x"
      by (metis append.assoc append_Cons append_Nil append_take_drop_id length_append_singleton
          Suc_eq_plus1 starts_with_def)
    then show ?thesis using that x(1) by (metis claims_address_def forwarded_first)
  qed
  have ips: "map (\<lambda>a. extract_client_ip nets (fst a)) as = ips"
    using assms(4) by (induction rule: list_all2_induct) (auto simp: first)
  have "map (arrival_key nets) as = map2 (\<lambda>ip a. rate_key ip (rq_method (fst a))) ips as"
    unfolding ips [symmetric] by (induction as) (auto simp: arrival_key_def)
  then have "limit_run R nets s as = replicate (length as) Pass"
    using sliding_log_distinct [of nets "[]" as] limiter_log [OF assms(1-3)] assms(5) by simp
  with ips show ?thesis ..
qed

definition sample_forged :: "arrival list" where
  "sample_forged = map (\<lambda>(ip, m, t). (sample_post\<lparr>rq_method := m, rq_peer := Some ''10.0.0.2'',
     rq_headers := [(''x-forwarded-for'', ip @ '', 203.0.113.9'')]\<rparr>, t)) [(''1.1.1.1'', ''POST'', 100), (''2.2.2.2'', ''PUT'', 101)]"

lemma forged_keys: "rate_key ''1.1.1.1'' ''POST'' \<noteq> rate_key ''2.2.2.2'' ''PUT''"
  using rate_key_method by blast

theorem forged_addresses_never_limited_witness:
  "limit_run map_redis (TRUSTED_PROXY_NETS None) [] sample_forged = [Pass, Pass]"
proof -
  have "clock_reading 100" "clock_reading 101"
    using rnd_of_int [of 100] rnd_of_int [of 101] by (simp_all add: clock_reading_def)
  then have order: "in_order (TRUSTED_PROXY_NETS None) sample_forged" by (simp add: in_order_def sample_forged_def)
  have "list_all2 (\<lambda>ip a. claims_address (TRUSTED_PROXY_NETS None) ip (fst a)) [''1.1.1.1'', ''2.2.2.2''] sample_forged"
    unfolding default_nets by code_simp
  moreover have "distinct (map2 (\<lambda>ip a. rate_key ip (rq_method (fst a))) [''1.1.1.1'', ''2.2.2.2''] sample_forged)"
    using forged_keys by (simp add: sample_forged_def sample_post_def)
  ultimately have "limit_run map_redis (TRUSTED_PROXY_NETS None) [] sample_forged = replicate (length sample_forged) Pass"
    using forged_addresses_never_limited [OF map_server.redis_server_axioms map_zs_empty order] by blast
  moreover have "length sample_forged = 2" by (simp add: sample_forged_def)
  ultimately show ?thesis by (simp add: numeral_2_eq_2)
qed

end
