(* ===== verification/Auth.thy ===== *)
theory Auth
  imports NetGuard
begin

text \<open>
  Single sign-on: the OIDC client of Keycloak (core/core/oidc.py), the session cookies
  (core/core/auth_cookies.py), the authentication middleware (core/api/middleware/auth_middleware.py)
  and the session endpoints of core/features/auth/router.py.

  Parameters: Redis (theory Redis); Keycloak, by what each of its HTTP replies was; and the package
  python-jose, by a function \<open>dec\<close> from the key set, the expected issuer, the token and the time to
  the claims (\<open>None\<close>: \<open>JWTError\<close>). Random bytes and clock readings are arguments.
\<close>

subsection \<open>Settings (config.py)\<close>

record oidc_settings =
  kc_environment :: string
  kc_url :: string
  kc_realm :: string
  kc_client_id :: string
  kc_client_secret :: string
  kc_callback_url :: string
  kc_verify_tls :: bool
  kc_ca_cert_path :: "string option"
  kc_fabric_tls :: bool
  kc_database_url :: string

definition strip_trailing_slash :: "string \<Rightarrow> string" where
  "strip_trailing_slash v = rev (dropWhile (\<lambda>c. c = CHR ''/'') (rev v))"

text \<open>\<open>None\<close>: the settings are refused at start.\<close>

definition load_settings :: "oidc_settings \<Rightarrow> oidc_settings option" where
  "load_settings raw =
     (let st = raw\<lparr>kc_url := strip_trailing_slash (kc_url raw)\<rparr> in
      if kc_environment st = ''production'' \<and>
         (\<not> kc_fabric_tls st \<or> contains (kc_database_url st) ''localhost'' \<or>
          \<not> (kc_verify_tls st \<or> truthy (kc_ca_cert_path st)))
      then None else Some st)"

datatype tls_verify = CaFile string | SystemStore bool

definition http_client_verify :: "oidc_settings \<Rightarrow> tls_verify" where
  "http_client_verify st =
     (if truthy (kc_ca_cert_path st) then CaFile (the (kc_ca_cert_path st)) else SystemStore (kc_verify_tls st))"

definition issuer :: "oidc_settings \<Rightarrow> string" where
  "issuer st = kc_url st @ ''/realms/'' @ kc_realm st"

definition certs_url :: "oidc_settings \<Rightarrow> string" where
  "certs_url st = issuer st @ ''/protocol/openid-connect/certs''"

definition token_url :: "oidc_settings \<Rightarrow> string" where
  "token_url st = issuer st @ ''/protocol/openid-connect/token''"

definition auth_url :: "oidc_settings \<Rightarrow> string" where
  "auth_url st = issuer st @ ''/protocol/openid-connect/auth''"

definition logout_url :: "oidc_settings \<Rightarrow> string" where
  "logout_url st = issuer st @ ''/protocol/openid-connect/logout''"

subsection \<open>The key set cache\<close>

datatype exc = ValueError | OtherException

type_synonym jwks = "(string \<times> pyval) list"

record jwks_cache =
  jc_keys :: "jwks option"
  jc_fetched_at :: rat

definition JWKS_TTL :: rat where "JWKS_TTL = 3600"

text \<open>
  One call of \<open>_fetch_jwks\<close> reads the monotonic clock on entry, again under the lock and again when
  the reply is in. The reply of Keycloak is a key set, an HTTP or transport error, or no JSON.
\<close>

record fetch_io =
  fi_now :: rat
  fi_locked :: rat
  fi_done :: rat
  fi_reply :: "exc + jwks"

definition cache_fresh :: "jwks_cache \<Rightarrow> rat \<Rightarrow> bool \<Rightarrow> bool" where
  "cache_fresh c now force \<longleftrightarrow>
     \<not> force \<and> jc_keys c \<noteq> None \<and> jc_keys c \<noteq> Some [] \<and> fsub now (jc_fetched_at c) < JWKS_TTL"

definition fetch_locked :: "bool \<Rightarrow> jwks_cache \<Rightarrow> fetch_io \<Rightarrow> jwks_cache \<times> (exc + jwks)" where
  "fetch_locked force c io =
     (if cache_fresh c (fi_locked io) force then (c, Inr (the (jc_keys c)))
      else case fi_reply io of
             Inl e \<Rightarrow> (c, Inl e)
           | Inr ks \<Rightarrow> (\<lparr>jc_keys = Some ks, jc_fetched_at = fi_done io\<rparr>, Inr ks))"

definition fetch_jwks :: "bool \<Rightarrow> jwks_cache \<Rightarrow> fetch_io \<Rightarrow> jwks_cache \<times> (exc + jwks)" where
  "fetch_jwks force c io =
     (if cache_fresh c (fi_now io) force then (c, Inr (the (jc_keys c))) else fetch_locked force c io)"

subsection \<open>Access tokens\<close>

text \<open>
  The claims the code reads; \<open>None\<close> is an absent claim. The package refuses a token whose \<open>sub\<close> or
  \<open>jti\<close> is not a string or whose \<open>iat\<close> or \<open>exp\<close> is not a number.
\<close>

record claims =
  c_jti :: "string option"
  c_sub :: "string option"
  c_iat :: "int option"
  c_exp :: "int option"
  c_aud :: "string list"
  c_azp :: "string option"
  c_email :: "string option"
  c_pxtly_role :: "string option"
  c_realm_roles :: "string list"

type_synonym decoder = "jwks \<Rightarrow> string \<Rightarrow> string \<Rightarrow> rat \<Rightarrow> claims option"

definition check_audience :: "oidc_settings \<Rightarrow> claims \<Rightarrow> bool" where
  "check_audience st p \<longleftrightarrow>
     kc_client_id st \<in> set (c_aud p) \<or> (case c_azp p of None \<Rightarrow> [] | Some a \<Rightarrow> a) = kc_client_id st"

definition accept_claims :: "oidc_settings \<Rightarrow> claims \<Rightarrow> exc + claims" where
  "accept_claims st p = (if check_audience st p then Inr p else Inl ValueError)"

definition validate_token ::
  "decoder \<Rightarrow> oidc_settings \<Rightarrow> jwks_cache \<Rightarrow> fetch_io \<Rightarrow> fetch_io \<Rightarrow> rat \<Rightarrow> string
    \<Rightarrow> jwks_cache \<times> (exc + claims)" where
  "validate_token dec st c io1 io2 now token =
     (case fetch_jwks False c io1 of
        (c1, Inl e) \<Rightarrow> (c1, Inl e)
      | (c1, Inr ks) \<Rightarrow>
          (case dec ks (issuer st) token now of
             Some p \<Rightarrow> (c1, accept_claims st p)
           | None \<Rightarrow>
               (case fetch_jwks True c1 io2 of
                  (c2, Inl e) \<Rightarrow> (c2, Inl e)
                | (c2, Inr ks2) \<Rightarrow>
                    (case dec ks2 (issuer st) token now of
                       Some p \<Rightarrow> (c2, accept_claims st p)
                     | None \<Rightarrow> (c2, Inl ValueError)))))"

definition VALID_APP_ROLES :: "string list" where
  "VALID_APP_ROLES =
     [''SUPER_ADMIN'', ''ADMIN_ORG'', ''EMETTEUR'', ''CUSTODIAN'', ''TRADER'', ''REGULATEUR'', ''AUDITEUR'',
      ''COMPLIANCE_OFFICER'', ''READONLY'']"

definition extract_role :: "claims \<Rightarrow> string option" where
  "extract_role p =
     (if truthy (c_pxtly_role p) \<and> the (c_pxtly_role p) \<in> set VALID_APP_ROLES then c_pxtly_role p
      else find (\<lambda>r. r \<in> set VALID_APP_ROLES) (c_realm_roles p))"

subsection \<open>PKCE and the authorization URL\<close>

text \<open>\<open>base64.urlsafe_b64encode\<close> without its padding; \<open>secrets.token_urlsafe\<close> is this text of the bytes drawn.\<close>

definition b64_char :: "nat \<Rightarrow> char" where
  "b64_char n =
     (if n < 26 then char_of (65 + n) else if n < 52 then char_of (71 + n) else if n < 62 then char_of (n - 4)
      else if n = 62 then CHR ''-'' else CHR ''_'')"

fun b64url :: "bytes \<Rightarrow> string" where
  "b64url [] = []"
| "b64url [a] = [b64_char (unat a div 4), b64_char (unat a mod 4 * 16)]"
| "b64url [a, b] =
     [b64_char (unat a div 4), b64_char (unat a mod 4 * 16 + unat b div 16), b64_char (unat b mod 16 * 4)]"
| "b64url (a # b # c # bs) =
     [b64_char (unat a div 4), b64_char (unat a mod 4 * 16 + unat b div 16),
      b64_char (unat b mod 16 * 4 + unat c div 64), b64_char (unat c mod 64)] @ b64url bs"

text \<open>\<open>generate_state()\<close> and \<open>issue_csrf_token()\<close> draw 32 bytes, the verifier 64.\<close>

definition generate_state :: "bytes \<Rightarrow> string" where
  "generate_state rnd32 = b64url rnd32"

definition issue_csrf_token :: "bytes \<Rightarrow> string" where
  "issue_csrf_token rnd32 = b64url rnd32"

definition generate_pkce_pair :: "bytes \<Rightarrow> string \<times> string" where
  "generate_pkce_pair rnd64 =
     (let verifier = b64url rnd64 in (verifier, b64url (sha256 (utf8 verifier))))"

definition url_unreserved :: "char \<Rightarrow> bool" where
  "url_unreserved c \<longleftrightarrow>
     is_digit c \<or> is_upper c \<or> is_upper (upper_char c) \<or> c \<in> {CHR ''_'', CHR ''.'', CHR ''-'', CHR ''~''}"

definition quote_plus_char :: "char \<Rightarrow> string" where
  "quote_plus_char c =
     (if url_unreserved c then [c] else if c = CHR '' '' then ''+''
      else concat (map (\<lambda>b. CHR ''%'' # map upper_char (hex_byte b)) (utf8_char c)))"

definition quote_plus :: "string \<Rightarrow> string" where
  "quote_plus s = concat (map quote_plus_char s)"

definition urlencode :: "(string \<times> string) list \<Rightarrow> string" where
  "urlencode ps = join ''&'' (map (\<lambda>(k, v). quote_plus k @ ''='' @ quote_plus v) ps)"

definition build_authorization_url :: "oidc_settings \<Rightarrow> string \<Rightarrow> string \<Rightarrow> string \<Rightarrow> string" where
  "build_authorization_url st redirect_uri state code_challenge =
     auth_url st @ ''?'' @ urlencode
       [(''client_id'', kc_client_id st), (''response_type'', ''code''), (''scope'', ''openid email profile''),
        (''redirect_uri'', redirect_uri), (''state'', state), (''code_challenge'', code_challenge),
        (''code_challenge_method'', ''S256'')]"

subsection \<open>Calls to Keycloak\<close>

text \<open>A request as the form it posts and the address it goes to; the reply is the status and the body.\<close>

record kc_post =
  kp_url :: string
  kp_form :: "(string \<times> string) list"

record token_set =
  ts_access_token :: string
  ts_refresh_token :: "string option"
  ts_expires_in :: "int option"
  ts_refresh_expires_in :: "int option"

text \<open>\<open>KcRaise\<close>: the transport failed; \<open>KcStatus n b\<close>: status \<open>n\<close>, \<open>b\<close> the token set in the body.\<close>

datatype kc_reply = KcRaise | KcStatus nat "token_set option"

definition exchange_code_post :: "oidc_settings \<Rightarrow> string \<Rightarrow> string \<Rightarrow> string \<Rightarrow> kc_post" where
  "exchange_code_post st code redirect_uri code_verifier =
     \<lparr>kp_url = token_url st,
      kp_form = [(''grant_type'', ''authorization_code''), (''code'', code), (''redirect_uri'', redirect_uri),
        (''client_id'', kc_client_id st), (''client_secret'', kc_client_secret st), (''code_verifier'', code_verifier)]\<rparr>"

definition refresh_post :: "oidc_settings \<Rightarrow> string \<Rightarrow> kc_post" where
  "refresh_post st refresh_token =
     \<lparr>kp_url = token_url st,
      kp_form = [(''grant_type'', ''refresh_token''), (''refresh_token'', refresh_token),
        (''client_id'', kc_client_id st), (''client_secret'', kc_client_secret st)]\<rparr>"

definition revoke_post :: "oidc_settings \<Rightarrow> string \<Rightarrow> kc_post" where
  "revoke_post st refresh_token =
     \<lparr>kp_url = logout_url st,
      kp_form = [(''client_id'', kc_client_id st), (''client_secret'', kc_client_secret st),
        (''refresh_token'', refresh_token)]\<rparr>"

text \<open>A status other than 200 is a \<open>ValueError\<close>; a body that is no token set fails where it is read.\<close>

definition read_token_reply :: "kc_reply \<Rightarrow> exc + token_set" where
  "read_token_reply reply =
     (case reply of
        KcRaise \<Rightarrow> Inl OtherException
      | KcStatus n b \<Rightarrow>
          if n \<noteq> 200 then Inl ValueError
          else case b of None \<Rightarrow> Inl OtherException | Some ts \<Rightarrow> Inr ts)"

definition exchange_code :: "(kc_post \<Rightarrow> kc_reply) \<Rightarrow> oidc_settings \<Rightarrow> string \<Rightarrow> string \<Rightarrow> string \<Rightarrow> exc + token_set" where
  "exchange_code kc st code redirect_uri code_verifier =
     read_token_reply (kc (exchange_code_post st code redirect_uri code_verifier))"

definition refresh_access_token :: "(kc_post \<Rightarrow> kc_reply) \<Rightarrow> oidc_settings \<Rightarrow> string \<Rightarrow> exc + token_set" where
  "refresh_access_token kc st refresh_token = read_token_reply (kc (refresh_post st refresh_token))"

subsection \<open>Cookies\<close>

record set_cookie =
  sc_name :: string
  sc_value :: string
  sc_max_age :: int
  sc_httponly :: bool
  sc_secure :: bool
  sc_samesite :: string
  sc_path :: string

definition SESSION_COOKIE :: string where "SESSION_COOKIE = ''rwa_session''"
definition REFRESH_COOKIE :: string where "REFRESH_COOKIE = ''rwa_refresh''"
definition CSRF_COOKIE :: string where "CSRF_COOKIE = ''rwa_csrf''"
definition CSRF_HEADER :: string where "CSRF_HEADER = ''X-CSRF-Token''"
definition REFRESH_MAX_AGE :: int where "REFRESH_MAX_AGE = 86400 * 30"

definition is_prod :: "oidc_settings \<Rightarrow> bool" where
  "is_prod st \<longleftrightarrow> kc_environment st = ''production''"

definition set_httponly :: "oidc_settings \<Rightarrow> string \<Rightarrow> string \<Rightarrow> int \<Rightarrow> set_cookie" where
  "set_httponly st name v max_age =
     \<lparr>sc_name = name, sc_value = v, sc_max_age = max_age, sc_httponly = True, sc_secure = is_prod st,
      sc_samesite = ''lax'', sc_path = ''/''\<rparr>"

definition set_session_cookies ::
  "oidc_settings \<Rightarrow> string \<Rightarrow> string \<Rightarrow> string \<Rightarrow> int \<Rightarrow> set_cookie list" where
  "set_session_cookies st access_token refresh_token csrf_token access_max_age =
     [set_httponly st SESSION_COOKIE access_token access_max_age,
      set_httponly st REFRESH_COOKIE refresh_token REFRESH_MAX_AGE,
      \<lparr>sc_name = CSRF_COOKIE, sc_value = csrf_token, sc_max_age = access_max_age, sc_httponly = False,
       sc_secure = is_prod st, sc_samesite = ''lax'', sc_path = ''/''\<rparr>]"

text \<open>\<open>delete_cookie\<close> sends an empty value that has already expired.\<close>

definition delete_cookie :: "string \<Rightarrow> set_cookie" where
  "delete_cookie name =
     \<lparr>sc_name = name, sc_value = [], sc_max_age = 0, sc_httponly = False, sc_secure = False,
      sc_samesite = ''lax'', sc_path = ''/''\<rparr>"

definition clear_session_cookies :: "set_cookie list" where
  "clear_session_cookies = map delete_cookie [SESSION_COOKIE, REFRESH_COOKIE, CSRF_COOKIE]"

text \<open>What the browser keeps of the cookies of a response.\<close>

definition browser_store :: "(string \<times> string) list \<Rightarrow> set_cookie list \<Rightarrow> (string \<times> string) list" where
  "browser_store jar cs =
     foldl (\<lambda>j c. (if 0 < sc_max_age c then [(sc_name c, sc_value c)] else []) @ filter (\<lambda>p. fst p \<noteq> sc_name c) j) jar cs"

subsection \<open>The middleware\<close>

definition PUBLIC_API_PATHS :: "string list" where
  "PUBLIC_API_PATHS = [''/api/v1/auth/login'', ''/api/v1/auth/callback'', ''/api/v1/auth/refresh'']"

definition EXCLUDED_PREFIXES :: "string list" where
  "EXCLUDED_PREFIXES = [''/docs'', ''/redoc'', ''/openapi'', ''/health'', ''/metrics'']"

definition SAFE_METHODS :: "string list" where
  "SAFE_METHODS = [''GET'', ''HEAD'', ''OPTIONS'']"

definition is_public :: "string \<Rightarrow> bool" where
  "is_public path \<longleftrightarrow> path \<in> set PUBLIC_API_PATHS \<or> list_ex (starts_with path) EXCLUDED_PREFIXES"

definition extract_token :: "request \<Rightarrow> string option \<times> bool" where
  "extract_token r =
     (let auth_header = (case header r ''Authorization'' of None \<Rightarrow> [] | Some h \<Rightarrow> h) in
      if starts_with auth_header ''Bearer '' then (Some (drop 7 auth_header), False)
      else if truthy (cookie r SESSION_COOKIE) then (cookie r SESSION_COOKIE, True)
      else (None, False))"

definition csrf_ok :: "request \<Rightarrow> bool" where
  "csrf_ok r \<longleftrightarrow>
     truthy (cookie r CSRF_COOKIE) \<and> truthy (header r CSRF_HEADER) \<and> cookie r CSRF_COOKIE = header r CSRF_HEADER"

definition state_key :: "string \<Rightarrow> string" where "state_key state = ''oidc:state:'' @ state"
definition blacklist_key :: "string \<Rightarrow> string" where "blacklist_key jti = ''oidc:blacklist:'' @ jti"
definition invalidated_key :: "string \<Rightarrow> string" where "invalidated_key sub = ''oidc:invalidated:'' @ sub"

definition or_empty :: "string option \<Rightarrow> string" where
  "or_empty x = (case x of None \<Rightarrow> [] | Some s \<Rightarrow> s)"

definition or_zero :: "int option \<Rightarrow> int" where
  "or_zero x = (case x of None \<Rightarrow> 0 | Some i \<Rightarrow> i)"

text \<open>\<open>int(s)\<close>: surrounding whitespace, a sign and single underscores between digits are accepted.\<close>

fun dec_digits :: "bool \<Rightarrow> nat \<Rightarrow> string \<Rightarrow> nat option" where
  "dec_digits after acc [] = (if after then Some acc else None)"
| "dec_digits after acc (c # s) =
     (if c = CHR ''_'' then (if after then dec_digits False acc s else None)
      else case digit_val c of None \<Rightarrow> None | Some d \<Rightarrow> dec_digits True (10 * acc + d) s)"

definition int10 :: "string \<Rightarrow> int option" where
  "int10 s =
     (let t = strip s in
      if starts_with t ''-'' then map_option (\<lambda>n. - int n) (dec_digits False 0 (drop 1 t))
      else if starts_with t ''+'' then map_option int (dec_digits False 0 (drop 1 t))
      else map_option int (dec_digits False 0 t))"

text \<open>\<open>None\<close>: the stored marker is no integer, a \<open>ValueError\<close>.\<close>

definition revoked :: "'s redis \<Rightarrow> 's \<Rightarrow> rat \<Rightarrow> claims \<Rightarrow> bool option" where
  "revoked R s now p =
     (let blacklisted = truthy (r_get R s now (blacklist_key (or_empty (c_jti p))));
          user_invalidated = r_get R s now (invalidated_key (or_empty (c_sub p))) in
      if truthy user_invalidated
      then (case int10 (the user_invalidated) of
              None \<Rightarrow> None
            | Some i \<Rightarrow> Some (blacklisted \<or> or_zero (c_iat p) \<le> i))
      else Some blacklisted)"

text \<open>What the environment supplies to one request: the two possible fetches of the key set, the time,
  and whether Redis answers.\<close>

record auth_env =
  en_fetch :: fetch_io
  en_refetch :: fetch_io
  en_now :: rat
  en_redis_up :: bool

definition check_revoked :: "'s redis \<Rightarrow> auth_env \<Rightarrow> 's \<Rightarrow> claims \<Rightarrow> gate \<times> claims option" where
  "check_revoked R env s p =
     (if \<not> en_redis_up env then (Refuse 500, None)
      else case revoked R s (en_now env) p of
             None \<Rightarrow> (Refuse 401, None)
           | Some b \<Rightarrow> if b then (Refuse 401, None) else (Pass, Some p))"

definition auth_dispatch ::
  "'s redis \<Rightarrow> decoder \<Rightarrow> oidc_settings \<Rightarrow> auth_env \<Rightarrow> jwks_cache \<Rightarrow> 's \<Rightarrow> request
    \<Rightarrow> jwks_cache \<times> gate \<times> claims option" where
  "auth_dispatch R dec st env c s r =
     (if is_public (rq_path r) then (c, Pass, None)
      else case extract_token r of (token, from_cookie) \<Rightarrow>
        if \<not> truthy token then (c, Refuse 401, None)
        else if from_cookie \<and> rq_method r \<notin> set SAFE_METHODS \<and> \<not> csrf_ok r then (c, Refuse 403, None)
        else case validate_token dec st c (en_fetch env) (en_refetch env) (en_now env) (the token) of
               (c', Inl ValueError) \<Rightarrow> (c', Refuse 401, None)
             | (c', Inl OtherException) \<Rightarrow> (c', Refuse 500, None)
             | (c', Inr p) \<Rightarrow> (c', check_revoked R env s p))"

subsection \<open>Session endpoints (router.py)\<close>

definition STATE_TTL :: int where "STATE_TTL = 300"

definition oidc_login ::
  "'s redis \<Rightarrow> oidc_settings \<Rightarrow> 's \<Rightarrow> rat \<Rightarrow> bytes \<Rightarrow> bytes \<Rightarrow> string \<Rightarrow> 's \<times> string" where
  "oidc_login R st s now rnd32 rnd64 redirect_after =
     (let state = generate_state rnd32; (code_verifier, code_challenge) = generate_pkce_pair rnd64 in
      (r_setex R s now (state_key state) STATE_TTL (code_verifier @ ''|'' @ redirect_after),
       build_authorization_url st (kc_callback_url st) state code_challenge))"

text \<open>The state is consumed; \<open>None\<close>: unknown or expired (status 400).\<close>

definition take_state :: "'s redis \<Rightarrow> 's \<Rightarrow> rat \<Rightarrow> string \<Rightarrow> 's \<times> string option" where
  "take_state R s now state =
     (if truthy (r_get R s now (state_key state))
      then (r_delete R s now (state_key state), r_get R s now (state_key state)) else (s, None))"

definition logout_ttl :: "claims \<Rightarrow> rat \<Rightarrow> int" where
  "logout_ttl p now = max (or_zero (c_exp p) - \<lfloor>now\<rfloor>) 1"

definition logout_store :: "'s redis \<Rightarrow> 's \<Rightarrow> rat \<Rightarrow> claims \<Rightarrow> 's" where
  "logout_store R s now p =
     (let ttl = logout_ttl p now; jti = or_empty (c_jti p); sub = or_empty (c_sub p);
          s1 = (if jti \<noteq> [] then r_setex R s now (blacklist_key jti) ttl ''1'' else s)
      in if sub \<noteq> [] then r_setex R s1 now (invalidated_key sub) ttl (dec_int (or_zero (c_iat p))) else s1)"

text \<open>The form posted to Keycloak is best effort: its reply changes nothing.\<close>

definition logout ::
  "'s redis \<Rightarrow> oidc_settings \<Rightarrow> 's \<Rightarrow> rat \<Rightarrow> claims option \<Rightarrow> request \<Rightarrow> 's \<times> kc_post list \<times> set_cookie list" where
  "logout R st s now payload r =
     (let refresh_token = or_empty (cookie r REFRESH_COOKIE) in
      (case payload of None \<Rightarrow> s | Some p \<Rightarrow> logout_store R s now p,
       if refresh_token \<noteq> [] then [revoke_post st refresh_token] else [],
       clear_session_cookies))"

record token_response =
  tr_access_token :: string
  tr_expires_in :: int
  tr_refresh_expires_in :: int

definition token_response_of :: "token_set \<Rightarrow> token_response" where
  "token_response_of ts =
     \<lparr>tr_access_token = ts_access_token ts,
      tr_expires_in = (case ts_expires_in ts of None \<Rightarrow> 900 | Some n \<Rightarrow> n),
      tr_refresh_expires_in = or_zero (ts_refresh_expires_in ts)\<rparr>"

text \<open>
  On an error the response the cookies were cleared on is discarded: the error handler builds
  another one, so no cookie reaches the browser.
\<close>

definition refresh ::
  "(kc_post \<Rightarrow> kc_reply) \<Rightarrow> oidc_settings \<Rightarrow> bytes \<Rightarrow> request \<Rightarrow> (app_error + token_response) \<times> set_cookie list" where
  "refresh kc st rnd32 r =
     (let rt = or_empty (cookie r REFRESH_COOKIE) in
      if rt = [] then (Inl (HTTPException 401), [])
      else case refresh_access_token kc st rt of
             Inl ValueError \<Rightarrow> (Inl (HTTPException 401), [])
           | Inl OtherException \<Rightarrow> (Inl UnhandledError, [])
           | Inr ts \<Rightarrow>
               (Inr (token_response_of ts),
                set_session_cookies st (ts_access_token ts)
                  (case ts_refresh_token ts of None \<Rightarrow> rt | Some t \<Rightarrow> t)
                  (issue_csrf_token rnd32) (tr_expires_in (token_response_of ts))))"

subsection \<open>The first login and the callback\<close>

text \<open>The constraints of the users table an update can violate: the role enumeration, the width and
  the uniqueness of the subject.\<close>

definition user_row_ok :: "user list \<Rightarrow> user \<Rightarrow> bool" where
  "user_row_ok users u \<longleftrightarrow>
     user_role u \<in> set user_roles \<and>
     (case keycloak_sub u of
        None \<Rightarrow> True
      | Some k \<Rightarrow> length k \<le> 255 \<and> list_all (\<lambda>v. user_id v = user_id u \<or> keycloak_sub v \<noteq> Some k) users)"

definition find_account :: "user list \<Rightarrow> string \<Rightarrow> string \<Rightarrow> app_error + user" where
  "find_account users sub email =
     (case scalar_one_or_none (filter (\<lambda>u. keycloak_sub u = Some sub) users) of
        ManyRows \<Rightarrow> Inl UnhandledError
      | OneRow u \<Rightarrow> Inr u
      | NoRow \<Rightarrow>
          if email = [] then Inl (HTTPException 403)
          else case scalar_one_or_none (filter (\<lambda>u. user_email u = email \<and> user_is_active u) users) of
                 ManyRows \<Rightarrow> Inl UnhandledError
               | OneRow u \<Rightarrow> Inr u
               | NoRow \<Rightarrow> Inl (HTTPException 403))"

definition link_user :: "datetime \<Rightarrow> string \<Rightarrow> string option \<Rightarrow> user \<Rightarrow> user" where
  "link_user now sub role u =
     u\<lparr>keycloak_sub := Some sub,
       user_role := (if truthy role then the role else user_role u),
       user_last_login := Some now\<rparr>"

definition upsert_user ::
  "user list \<Rightarrow> datetime \<Rightarrow> string \<Rightarrow> string \<Rightarrow> string option \<Rightarrow> app_error + user list" where
  "upsert_user users now sub email role =
     (case find_account users sub email of
        Inl e \<Rightarrow> Inl e
      | Inr u \<Rightarrow>
          if \<not> user_is_active u then Inl (HTTPException 403)
          else let u' = link_user now sub role u in
               if user_row_ok users u'
               then Inr (update_where (\<lambda>v. user_id v = user_id u) (\<lambda>_. u') users)
               else Inl UnhandledError)"

text \<open>\<open>now\<close> is the time of the request as a date, \<open>en_now\<close> the same reading in seconds.\<close>

definition open_session ::
  "oidc_settings \<Rightarrow> user list \<Rightarrow> datetime \<Rightarrow> bytes \<Rightarrow> token_set \<Rightarrow> claims
    \<Rightarrow> user list \<times> (app_error + token_response) \<times> set_cookie list" where
  "open_session st users now rnd32 ts p =
     (case c_sub p of
        None \<Rightarrow> (users, Inl UnhandledError, [])
      | Some sub \<Rightarrow>
          (case upsert_user users now sub (or_empty (c_email p)) (extract_role p) of
             Inl e \<Rightarrow> (users, Inl e, [])
           | Inr users' \<Rightarrow>
               (users', Inr (token_response_of ts),
                set_session_cookies st (ts_access_token ts) (or_empty (ts_refresh_token ts)) (issue_csrf_token rnd32)
                  (tr_expires_in (token_response_of ts)))))"

definition oidc_callback ::
  "'s redis \<Rightarrow> decoder \<Rightarrow> (kc_post \<Rightarrow> kc_reply) \<Rightarrow> oidc_settings \<Rightarrow> auth_env \<Rightarrow> datetime \<Rightarrow> bytes
    \<Rightarrow> jwks_cache \<Rightarrow> 's \<Rightarrow> user list \<Rightarrow> string \<Rightarrow> string
    \<Rightarrow> 's \<times> jwks_cache \<times> user list \<times> (app_error + token_response) \<times> set_cookie list" where
  "oidc_callback R dec kc st env now rnd32 c s users code state =
     (case take_state R s (en_now env) state of
        (s', None) \<Rightarrow> (s', c, users, Inl (HTTPException 400), [])
      | (s', Some raw) \<Rightarrow>
          (case split_first CHR ''|'' raw of
             (_, None) \<Rightarrow> (s', c, users, Inl UnhandledError, [])
           | (code_verifier, Some _) \<Rightarrow>
               (case exchange_code kc st code (kc_callback_url st) code_verifier of
                  Inl ValueError \<Rightarrow> (s', c, users, Inl (HTTPException 401), [])
                | Inl OtherException \<Rightarrow> (s', c, users, Inl UnhandledError, [])
                | Inr ts \<Rightarrow>
                    (case validate_token dec st c (en_fetch env) (en_refetch env) (en_now env) (ts_access_token ts) of
                       (c', Inl ValueError) \<Rightarrow> (s', c', users, Inl (HTTPException 401), [])
                     | (c', Inl OtherException) \<Rightarrow> (s', c', users, Inl UnhandledError, [])
                     | (c', Inr p) \<Rightarrow> (s', c', open_session st users now rnd32 ts p)))))"


subsection \<open>Base64 texts\<close>

lemma upper_char_of: "(n :: nat) < 256 \<Longrightarrow> upper_char (char_of n) = (if 97 \<le> n \<and> n \<le> 122 then char_of (n - 32) else char_of n)"
  by (simp add: upper_char_def Let_def)

lemma b64_char_unreserved: "n < 64 \<Longrightarrow> url_unreserved (b64_char n) \<and> b64_char n \<noteq> CHR ''|''"
proof -
  assume n: "n < 64"
  have bar: "char_of m \<noteq> CHR ''|''" if "m < 124" for m :: nat
  proof
    assume "char_of m = CHR ''|''"
    then have "of_char (char_of m) = (of_char (CHR ''|'') :: nat)" by simp
    with that show False by simp
  qed
  consider "n < 26" | "26 \<le> n" "n < 52" | m where "n = 52 + m" "m < 10" | "n = 62" | "n = 63"
    using n le_Suc_ex [of 52 n] by fastforce
  then show ?thesis
    by cases (simp_all add: b64_char_def url_unreserved_def is_upper_def is_digit_def upper_char_of bar Let_def)
qed

lemma unat_byte: "unat (a :: byte) < 256"
  using unsigned_less [of a] by simp

lemma sextets:
  "unat (a :: byte) div 4 < 64" "unat a mod 4 * 16 < 64" "unat a mod 4 * 16 + unat (b :: byte) div 16 < 64"
  "unat b mod 16 * 4 < 64" "unat b mod 16 * 4 + unat (c :: byte) div 64 < 64" "unat c mod 64 < 64"
proof -
  have "unat a < 256" "unat b < 256" "unat c < 256" by (rule unat_byte)+
  then have "unat a div 4 < 64" "unat b div 16 < 16" "unat c div 64 < 4" by auto
  moreover have "unat a mod 4 < 4" "unat b mod 16 < 16" by auto
  ultimately show "unat a div 4 < 64" "unat a mod 4 * 16 < 64" "unat a mod 4 * 16 + unat b div 16 < 64"
    "unat b mod 16 * 4 < 64" "unat b mod 16 * 4 + unat c div 64 < 64" "unat c mod 64 < 64"
    by auto
qed

lemma b64url_chars: "x \<in> set (b64url bs) \<Longrightarrow> url_unreserved x \<and> x \<noteq> CHR ''|''"
  by (induction bs rule: b64url.induct) (auto simp: b64_char_unreserved sextets)

lemma length_b64url: "length (b64url bs) = (4 * length bs + 2) div 3"
  by (induction bs rule: b64url.induct) auto

lemma b64url_no_bar [simp]: "CHR ''|'' \<notin> set (b64url bs)"
  using b64url_chars by blast

lemma b64url_nonempty [simp]: "b64url bs = [] \<longleftrightarrow> bs = []"
  using length_b64url [of bs] by (cases bs rule: b64url.cases) auto

subsection \<open>Decimal markers\<close>

lemma dec_digits_val: "list_all is_digit s \<Longrightarrow> dec_digits b acc s = (if s = [] \<and> \<not> b then None else dec_val acc s)"
proof (induction s arbitrary: b acc)
  case (Cons c s)
  then have c: "is_digit c" "c \<noteq> CHR ''_''" by (auto simp: is_digit_def)
  then obtain d where "digit_val c = Some d" by (simp add: digit_val_def)
  with Cons c show ?case by simp
qed simp

lemma digit_no_space: "is_digit c \<Longrightarrow> \<not> is_space c"
  by (auto simp: is_digit_def is_space_def Let_def)

lemma int10_dec_int: "int10 (dec_int i) = Some i"
proof -
  have dig: "list_all is_digit (dec_nat n)" "dec_nat n \<noteq> []" for n by (rule dec_nat_digits) simp
  have ends: "is_digit (hd (dec_nat n))" "is_digit (last (dec_nat n))" for n
    using dec_nat_chars [of _ n] hd_in_set last_in_set by auto
  have val: "dec_digits False 0 (dec_nat n) = Some n" for n by (simp add: dec_digits_val dig dec_val_dec_nat)
  show ?thesis
  proof (cases "i < 0")
    case True
    have "strip (CHR ''-'' # dec_nat (nat (- i))) = CHR ''-'' # dec_nat (nat (- i))"
      using ends digit_no_space by (intro strip_id) (auto simp: is_space_def)
    then show ?thesis using True by (simp add: int10_def dec_int_def starts_with_def val)
  next
    case False
    have "strip (dec_nat (nat i)) = dec_nat (nat i)"
      using ends digit_no_space by (intro strip_id) auto
    moreover have "\<not> starts_with (dec_nat (nat i)) ''-''" "\<not> starts_with (dec_nat (nat i)) ''+''"
      using ends(1) [of "nat i"] by (cases "dec_nat (nat i)"; auto simp: starts_with_def is_digit_def)+
    ultimately show ?thesis using False by (simp add: int10_def dec_int_def val)
  qed
qed


subsection \<open>What happens to the store\<close>

text \<open>
  Everything the service writes to Redis between two requests of a client: logins, callbacks and
  logouts of any user, account erasures, and the windows of the rate limiter.
\<close>

datatype store_op =
    SLogin rat bytes bytes string
  | SCallback rat string
  | SLogout rat claims
  | SErase rat string
  | SLimit rat string string

fun op_time :: "store_op \<Rightarrow> rat" where
  "op_time (SLogin t _ _ _) = t"
| "op_time (SCallback t _) = t"
| "op_time (SLogout t _) = t"
| "op_time (SErase t _) = t"
| "op_time (SLimit t _ _) = t"

text \<open>The marker of an account erasure (router.py, \<open>delete_my_account\<close>).\<close>

definition erase_store :: "'s redis \<Rightarrow> 's \<Rightarrow> rat \<Rightarrow> string \<Rightarrow> 's" where
  "erase_store R s now sub = r_setex R s now (invalidated_key sub) (86400 * 30) (dec_int \<lfloor>now\<rfloor>)"

fun store_step :: "'s redis \<Rightarrow> oidc_settings \<Rightarrow> 's \<Rightarrow> store_op \<Rightarrow> 's" where
  "store_step R st s (SLogin t rnd32 rnd64 ra) = fst (oidc_login R st s t rnd32 rnd64 ra)"
| "store_step R st s (SCallback t state) = fst (take_state R s t state)"
| "store_step R st s (SLogout t p) = logout_store R s t p"
| "store_step R st s (SErase t sub) = erase_store R s t sub"
| "store_step R st s (SLimit t ip meth) = fst (rate_pipeline R s (rate_key ip meth) t)"

lemma key_neq [simp]:
  "state_key a \<noteq> blacklist_key b" "blacklist_key b \<noteq> state_key a"
  "invalidated_key a \<noteq> blacklist_key b" "blacklist_key b \<noteq> invalidated_key a"
  "state_key a \<noteq> invalidated_key b" "invalidated_key b \<noteq> state_key a"
  "rate_key ip m \<noteq> blacklist_key b" "blacklist_key b \<noteq> rate_key ip m"
  "rate_key ip m \<noteq> invalidated_key b" "invalidated_key b \<noteq> rate_key ip m"
  "rate_key ip m \<noteq> state_key b" "state_key b \<noteq> rate_key ip m"
  by (simp_all add: state_key_def blacklist_key_def invalidated_key_def rate_key_def)

lemma key_inj [simp]:
  "blacklist_key a = blacklist_key b \<longleftrightarrow> a = b" "invalidated_key a = invalidated_key b \<longleftrightarrow> a = b"
  "state_key a = state_key b \<longleftrightarrow> a = b"
  by (simp_all add: blacklist_key_def invalidated_key_def state_key_def)

lemma logout_ttl_pos [simp]: "0 < logout_ttl p t"
  by (simp add: logout_ttl_def)

lemma logout_ttl_covers:
  assumes "c_exp p = Some e"
  shows "of_int e \<le> t + of_int (logout_ttl p t)"
proof -
  have "e - \<lfloor>t\<rfloor> \<le> logout_ttl p t" using assms by (simp add: logout_ttl_def or_zero_def)
  then have "(of_int (e - \<lfloor>t\<rfloor>) :: rat) \<le> of_int (logout_ttl p t)" by (simp only: of_int_le_iff)
  then show ?thesis using of_int_floor_le [of t] unfolding of_int_diff by linarith
qed

context redis_server
begin

lemma get_pipeline_other: "k' \<noteq> k \<Longrightarrow> r_get R (fst (rate_pipeline R s k t)) u k' = r_get R s u k'"
  by (simp add: rate_pipeline_def Let_def get_expire_other get_zadd_other get_zrem_other)

lemma get_take_state_other: "k \<noteq> state_key x \<Longrightarrow> r_get R (fst (take_state R s t x)) u k = r_get R s u k"
  by (simp add: take_state_def get_delete_other)

lemma get_login_other:
  "k \<noteq> state_key (generate_state rnd32) \<Longrightarrow> r_get R (fst (oidc_login R st s t rnd32 rnd64 ra)) u k = r_get R s u k"
  by (simp add: oidc_login_def Let_def split: prod.split) (simp add: get_setex_other)

lemma get_logout_blacklist:
  assumes "c_jti p = Some j" "j \<noteq> []" "t \<le> u"
  shows "r_get R (logout_store R s t p) u (blacklist_key j) =
    (if u < t + of_int (logout_ttl p t) then Some ''1'' else None)"
  using assms by (simp add: logout_store_def Let_def or_empty_def get_setex get_setex_other)

lemma get_logout_other_blacklist:
  "c_jti p \<noteq> Some j \<Longrightarrow> j \<noteq> [] \<Longrightarrow> r_get R (logout_store R s t p) u (blacklist_key j) = r_get R s u (blacklist_key j)"
  by (auto simp: logout_store_def Let_def or_empty_def get_setex_other split: option.splits)

text \<open>Blacklisted until the second \<open>e\<close> at every time from \<open>t\<close> on.\<close>

definition blacklisted_until :: "string \<Rightarrow> int \<Rightarrow> rat \<Rightarrow> 's \<Rightarrow> bool" where
  "blacklisted_until j e t s \<longleftrightarrow> (\<forall>u. t \<le> u \<and> u < of_int e \<longrightarrow> r_get R s u (blacklist_key j) = Some ''1'')"

lemma blacklisted_step:
  assumes bl: "blacklisted_until j e t s" and "t \<le> op_time x" "j \<noteq> []"
    and same: "\<And>u p. x = SLogout u p \<Longrightarrow> c_jti p = Some j \<Longrightarrow> c_exp p = Some e"
  shows "blacklisted_until j e (op_time x) (store_step R st s x)"
proof (cases x)
  case (SLogout v p)
  show ?thesis
  proof (cases "c_jti p = Some j")
    case True
    then have "c_exp p = Some e" using same SLogout by blast
    then show ?thesis using True assms(3) SLogout get_logout_blacklist logout_ttl_covers [of p e v]
      by (fastforce simp: blacklisted_until_def)
  next
    case False
    then show ?thesis using bl assms(2,3) SLogout
      by (simp add: blacklisted_until_def get_logout_other_blacklist)
  qed
qed (use bl assms(2) in \<open>simp_all add: blacklisted_until_def get_pipeline_other get_take_state_other get_login_other
      erase_store_def get_setex_other\<close>)

lemma blacklisted_run:
  assumes "blacklisted_until j e t s" "sorted (t # map op_time xs)" "j \<noteq> []"
    and "\<And>u p. SLogout u p \<in> set xs \<Longrightarrow> c_jti p = Some j \<Longrightarrow> c_exp p = Some e"
  shows "blacklisted_until j e (last (t # map op_time xs)) (foldl (store_step R st) s xs)"
  using assms
proof (induction xs arbitrary: t s)
  case (Cons x xs)
  have "blacklisted_until j e (op_time x) (store_step R st s x)"
    using Cons.prems by (intro blacklisted_step) auto
  then have "blacklisted_until j e (last (op_time x # map op_time xs)) (foldl (store_step R st) (store_step R st s x) xs)"
    by (rule Cons.IH) (use Cons.prems in auto)
  then show ?case by simp
qed simp

end


text \<open>The decoder rejects a token from the second after its expiry on.\<close>

definition enforces_expiry :: "decoder \<Rightarrow> bool" where
  "enforces_expiry dec \<longleftrightarrow>
     (\<forall>ks iss tok now p e. dec ks iss tok now = Some p \<and> c_exp p = Some e \<longrightarrow> \<lfloor>now\<rfloor> \<le> e)"

lemma validate_token_claims:
  "validate_token dec st c io1 io2 now tok = (c', Inr p) \<Longrightarrow>
    (\<exists>ks. dec ks (issuer st) tok now = Some p) \<and> check_audience st p"
  by (auto simp: validate_token_def accept_claims_def split: prod.splits sum.splits option.splits if_splits)

lemma auth_dispatch_Pass:
  assumes "auth_dispatch R dec st env c s r = (c', Pass, pl)" "\<not> is_public (rq_path r)"
  obtains tok p ks where "fst (extract_token r) = Some tok" "pl = Some p" "en_redis_up env"
    "dec ks (issuer st) tok (en_now env) = Some p" "check_audience st p" "revoked R s (en_now env) p = Some False"
    "snd (extract_token r) \<Longrightarrow> rq_method r \<notin> set SAFE_METHODS \<Longrightarrow> csrf_ok r"
proof -
  obtain t fc where tk: "extract_token r = (t, fc)" by fastforce
  then have t: "truthy t" and csrf: "fc \<and> rq_method r \<notin> set SAFE_METHODS \<longrightarrow> csrf_ok r"
    using assms by (auto simp: auth_dispatch_def split: if_splits)
  then obtain tok where tok: "t = Some tok" by (cases t) auto
  obtain c1 v where v: "validate_token dec st c (en_fetch env) (en_refetch env) (en_now env) tok = (c1, v)" by fastforce
  with assms tk tok t csrf obtain p where p: "v = Inr p" "check_revoked R env s p = (Pass, pl)"
    by (auto simp: auth_dispatch_def split: if_splits sum.splits exc.splits)
  then have "en_redis_up env" "revoked R s (en_now env) p = Some False" "pl = Some p"
    by (auto simp: check_revoked_def split: if_splits option.splits)
  then show thesis using that [of tok p] tk tok csrf validate_token_claims v p(1) by fastforce
qed

text \<open>C22: After a logout at time \<open>t\<close>, no request with a token of the same \<open>jti\<close> gets past the middleware
  on a protected path, up to the second in which the token expires and from the next second on,
  whatever the service writes to Redis in between.\<close>

theorem logged_out_token_refused:
  assumes "redis_server R zs"
    and "c_jti p = Some j" "j \<noteq> []" "c_exp p = Some e"
    and "sorted (t # map op_time xs @ [en_now env])"
    and "\<And>u q. SLogout u q \<in> set xs \<Longrightarrow> c_jti q = Some j \<Longrightarrow> c_exp q = Some e"
    and "enforces_expiry dec"
    and "\<And>ks q. dec ks (issuer st) tok (en_now env) = Some q \<Longrightarrow> c_jti q = Some j \<and> c_exp q = Some e"
    and "fst (extract_token r) = Some tok" "\<not> is_public (rq_path r)"
    and "en_now env < of_int e \<or> of_int e + 1 \<le> en_now env"
  shows "fst (snd (auth_dispatch R dec st env c (foldl (store_step R st) (logout_store R s t p) xs) r)) \<noteq> Pass"
proof
  let ?s = "foldl (store_step R st) (logout_store R s t p) xs"
  assume "fst (snd (auth_dispatch R dec st env c ?s r)) = Pass"
  then obtain c' pl where "auth_dispatch R dec st env c ?s r = (c', Pass, pl)" by (metis prod.collapse)
  then obtain tok' q ks where q: "fst (extract_token r) = Some tok'" "dec ks (issuer st) tok' (en_now env) = Some q"
    "revoked R ?s (en_now env) q = Some False"
    by (rule auth_dispatch_Pass [OF _ assms(10)])
  then have d: "dec ks (issuer st) tok (en_now env) = Some q" using assms(9) by simp
  then have jq: "c_jti q = Some j" "c_exp q = Some e" using assms(8) by blast+
  have "\<lfloor>en_now env\<rfloor> \<le> e" using assms(7) d jq(2) by (auto simp: enforces_expiry_def)
  then have early: "en_now env < of_int e" using assms(11) by linarith
  have "redis_server.blacklisted_until R j e t (logout_store R s t p)"
    using redis_server.get_logout_blacklist [OF assms(1,2,3)] logout_ttl_covers [OF assms(4), of t]
    by (auto simp: redis_server.blacklisted_until_def [OF assms(1)])
  then have "redis_server.blacklisted_until R j e (last (t # map op_time xs)) ?s"
    by (rule redis_server.blacklisted_run [OF assms(1)]) (use assms(3,5,6) in \<open>auto simp: sorted_append\<close>)
  moreover have "last (t # map op_time xs) \<le> en_now env"
    using assms(5) last_in_set [of "t # map op_time xs"] by (auto simp: sorted_append)
  ultimately have "r_get R ?s (en_now env) (blacklist_key j) = Some ''1''"
    using early by (simp add: redis_server.blacklisted_until_def [OF assms(1)])
  then show False using q(3) jq by (auto simp: revoked_def or_empty_def Let_def split: if_splits option.splits)
qed


lemma validate_cached:
  assumes "cache_fresh c (fi_now io1) False" "dec (the (jc_keys c)) (issuer st) tok now = Some p" "check_audience st p"
  shows "validate_token dec st c io1 io2 now tok = (c, Inr p)"
  using assms by (simp add: validate_token_def fetch_jwks_def accept_claims_def)

lemma auth_dispatch_valid:
  assumes "\<not> is_public (rq_path r)" "extract_token r = (Some tok, fc)" "tok \<noteq> []"
    and "fc \<Longrightarrow> rq_method r \<notin> set SAFE_METHODS \<Longrightarrow> csrf_ok r"
    and "validate_token dec st c (en_fetch env) (en_refetch env) (en_now env) tok = (c', Inr p)"
  shows "auth_dispatch R dec st env c s r = (c', check_revoked R env s p)"
  using assms by (auto simp: auth_dispatch_def)

context redis_server
begin

lemma get_logout_invalidated:
  assumes "c_sub p = Some k" "k \<noteq> []" "t \<le> u"
  shows "r_get R (logout_store R s t p) u (invalidated_key k) =
    (if u < t + of_int (logout_ttl p t) then Some (dec_int (or_zero (c_iat p))) else None)"
  using assms by (auto simp: logout_store_def Let_def or_empty_def get_setex get_setex_other)

lemma get_logout_frame:
  "c_jti p \<noteq> Some j \<or> j = [] \<Longrightarrow> r_get R (logout_store R s t p) u (blacklist_key j) = r_get R s u (blacklist_key j)"
  by (auto simp: logout_store_def Let_def or_empty_def get_setex_other split: option.splits)

end

lemma dec_int_nonempty [simp]: "dec_int i \<noteq> []"
  by (simp add: dec_int_def)

text \<open>A logout revokes only the user's tokens that are no younger than the one presented: a token of
  the same user with a later issue time and another \<open>jti\<close>, though issued before the logout, still
  gets past the middleware.\<close>

theorem logout_spares_younger_tokens:
  assumes "redis_server R zs"
    and "c_sub p = Some k" "c_sub q = Some k" "k \<noteq> []" "or_zero (c_iat p) < or_zero (c_iat q)"
    and "c_jti q \<noteq> c_jti p" "r_get R s (en_now env) (blacklist_key (or_empty (c_jti q))) = None"
    and "t \<le> en_now env" "en_redis_up env"
    and "\<not> is_public (rq_path r)" "extract_token r = (Some tok, False)" "tok \<noteq> []"
    and "validate_token dec st c (en_fetch env) (en_refetch env) (en_now env) tok = (c', Inr q)"
  shows "auth_dispatch R dec st env c (logout_store R s t p) r = (c', Pass, Some q)"
proof -
  have "r_get R (logout_store R s t p) (en_now env) (blacklist_key (or_empty (c_jti q))) = None"
    using redis_server.get_logout_frame [OF assms(1), of p "or_empty (c_jti q)" s t "en_now env"] assms(6,7)
    by (cases "c_jti q") (auto simp: or_empty_def)
  moreover have "r_get R (logout_store R s t p) (en_now env) (invalidated_key k) =
      (if en_now env < t + of_int (logout_ttl p t) then Some (dec_int (or_zero (c_iat p))) else None)"
    by (rule redis_server.get_logout_invalidated [OF assms(1,2,4,8)])
  ultimately have "revoked R (logout_store R s t p) (en_now env) q = Some False"
    using assms(3,5) by (simp add: revoked_def or_empty_def int10_dec_int)
  then show ?thesis
    using auth_dispatch_valid [OF assms(10,11,12) _ assms(13), of R s] assms(9)
      auth_dispatch_valid [OF assms(10,11,12) _ assms(13), of R "logout_store R s t p"]
    by (simp add: check_revoked_def)
qed

text \<open>The boundary second: python-jose accepts a token during the whole second \<open>exp\<close>, the blacklist entry
  may have run out within it, and a token that was logged out is admitted again.\<close>

theorem logged_out_token_last_second:
  assumes "redis_server R zs"
    and "c_jti p = Some j" "j \<noteq> []" "c_sub p = Some k" "k \<noteq> []" "c_exp p = Some e" "\<lfloor>t\<rfloor> < e"
    and "of_int e + (t - of_int \<lfloor>t\<rfloor>) \<le> en_now env" "en_redis_up env"
    and "\<not> is_public (rq_path r)" "extract_token r = (Some tok, False)" "tok \<noteq> []"
    and "validate_token dec st c (en_fetch env) (en_refetch env) (en_now env) tok = (c', Inr p)"
  shows "auth_dispatch R dec st env c (logout_store R s t p) r = (c', Pass, Some p)"
proof -
  have ttl: "of_int (logout_ttl p t) = (of_int e - of_int \<lfloor>t\<rfloor> :: rat)"
    using assms(6,7) by (simp add: logout_ttl_def or_zero_def)
  have "of_int (\<lfloor>t\<rfloor> + 1) \<le> (of_int e :: rat)" using assms(7) by (simp only: of_int_le_iff)
  then have "t \<le> en_now env" using assms(8) by simp
  then have "r_get R (logout_store R s t p) (en_now env) (blacklist_key j) = None"
    "r_get R (logout_store R s t p) (en_now env) (invalidated_key k) = None"
    using redis_server.get_logout_blacklist [OF assms(1,2,3), of t "en_now env" s]
      redis_server.get_logout_invalidated [OF assms(1,4,5), of t "en_now env" s] ttl assms(8) by auto
  then have "revoked R (logout_store R s t p) (en_now env) p = Some False"
    using assms(2,4) by (simp add: revoked_def or_empty_def)
  then show ?thesis
    using auth_dispatch_valid [OF assms(10,11,12) _ assms(13), of R "logout_store R s t p"] assms(9)
    by (simp add: check_revoked_def)
qed



subsection \<open>Sample sessions\<close>

definition sample_settings :: oidc_settings where
  "sample_settings = \<lparr>kc_environment = ''development'', kc_url = ''https://kc'', kc_realm = ''pxtly'', kc_client_id = ''pxtly-api'',
     kc_client_secret = ''s'', kc_callback_url = ''https://app/cb'', kc_verify_tls = True, kc_ca_cert_path = None,
     kc_fabric_tls = True, kc_database_url = ''db''\<rparr>"

definition sample_claims :: "string \<Rightarrow> int \<Rightarrow> claims" where
  "sample_claims j iat = \<lparr>c_jti = Some j, c_sub = Some ''u-1'', c_iat = Some iat, c_exp = Some (iat + 900), c_aud = [''pxtly-api''],
     c_azp = None, c_email = Some ''a@x'', c_pxtly_role = Some ''TRADER'', c_realm_roles = []\<rparr>"

text \<open>A decoder that knows two tokens of the user.\<close>

definition sample_dec :: decoder where
  "sample_dec ks iss tok now =
     (if tok = ''A'' \<and> \<lfloor>now\<rfloor> \<le> 910 then Some (sample_claims ''j-a'' 10)
      else if tok = ''B'' \<and> \<lfloor>now\<rfloor> \<le> 950 then Some (sample_claims ''j-b'' 50) else None)"

definition sample_cache :: jwks_cache where
  "sample_cache = \<lparr>jc_keys = Some [(''keys'', PList [])], jc_fetched_at = 0\<rparr>"

definition sample_env :: "rat \<Rightarrow> auth_env" where
  "sample_env now = (let io = \<lparr>fi_now = 8, fi_locked = 8, fi_done = 8, fi_reply = Inr [(''keys'', PList [])]\<rparr> in
     \<lparr>en_fetch = io, en_refetch = io, en_now = now, en_redis_up = True\<rparr>)"

definition bearer_request :: "string \<Rightarrow> request" where
  "bearer_request tok = \<lparr>rq_method = ''GET'', rq_path = ''/api/v1/auth/me'', rq_peer = None,
     rq_headers = [(''authorization'', ''Bearer '' @ tok)], rq_cookies = []\<rparr>"

lemma sample_expiry: "enforces_expiry sample_dec"
  by (auto simp: enforces_expiry_def sample_dec_def sample_claims_def split: if_splits)

lemma sample_fresh: "cache_fresh sample_cache 8 False"
  using rnd_of_int [of 8] by (simp add: cache_fresh_def sample_cache_def fsub_def JWKS_TTL_def)

lemma sample_protected: "\<not> is_public (rq_path (bearer_request tok))"
  by (simp add: bearer_request_def is_public_def PUBLIC_API_PATHS_def EXCLUDED_PREFIXES_def starts_with_def)

lemma bearer_token: "extract_token (bearer_request tok) = (Some tok, False)"
proof -
  have "lower ''Authorization'' = ''authorization''" by code_simp
  then show ?thesis by (simp add: extract_token_def bearer_request_def header_def starts_with_def)
qed

lemma sample_validates:
  "sample_dec ks (issuer sample_settings) tok now = Some p \<Longrightarrow>
   validate_token sample_dec sample_settings sample_cache (en_fetch (sample_env t)) (en_refetch (sample_env t)) now tok
     = (sample_cache, Inr p)"
  using sample_fresh
  by (intro validate_cached)
    (auto simp: sample_env_def Let_def sample_dec_def check_audience_def sample_claims_def sample_settings_def split: if_splits)

theorem logged_out_token_refused_witness:
  "fst (snd (auth_dispatch map_redis sample_dec sample_settings (sample_env 200) sample_cache
      (foldl (store_step map_redis sample_settings) (logout_store map_redis [] 100 (sample_claims ''j-a'' 10))
         [SLogout 120 (sample_claims ''j-b'' 50), SErase 130 ''u-9'']) (bearer_request ''A''))) \<noteq> Pass"
  by (rule logged_out_token_refused [OF map_server.redis_server_axioms, where j = "''j-a''" and e = 910 and tok = "''A''"])
    (auto simp: sample_expiry bearer_token sample_protected,
     auto simp: sample_claims_def sample_env_def Let_def sample_dec_def split: if_splits)

theorem logout_spares_younger_tokens_witness:
  "snd (auth_dispatch map_redis sample_dec sample_settings (sample_env 200) sample_cache
      (logout_store map_redis [] 100 (sample_claims ''j-a'' 10)) (bearer_request ''B'')) = (Pass, Some (sample_claims ''j-b'' 50))"
proof -
  have "validate_token sample_dec sample_settings sample_cache (en_fetch (sample_env 200)) (en_refetch (sample_env 200))
      (en_now (sample_env 200)) ''B'' = (sample_cache, Inr (sample_claims ''j-b'' 50))"
    by (rule sample_validates) (simp add: sample_dec_def sample_env_def Let_def)
  then have "auth_dispatch map_redis sample_dec sample_settings (sample_env 200) sample_cache
      (logout_store map_redis [] 100 (sample_claims ''j-a'' 10)) (bearer_request ''B'') = (sample_cache, Pass, Some (sample_claims ''j-b'' 50))"
    by (intro logout_spares_younger_tokens [OF map_server.redis_server_axioms, where k = "''u-1''"])
      (auto simp: sample_protected bearer_token sample_claims_def or_zero_def sample_env_def Let_def map_redis_def live_def)
  then show ?thesis by simp
qed


subsection \<open>From the callback to the next request\<close>

lemma browser_session_cookies:
  assumes "0 < age" "acc \<noteq> []"
  shows "map_of (browser_store jar (set_session_cookies st acc ref csrf age)) SESSION_COOKIE = Some acc"
    and "map_of (browser_store jar (set_session_cookies st acc ref csrf age)) CSRF_COOKIE = Some csrf"
  using assms
  by (simp_all add: browser_store_def set_session_cookies_def set_httponly_def SESSION_COOKIE_def REFRESH_COOKIE_def
      CSRF_COOKIE_def REFRESH_MAX_AGE_def)

lemma update_where_sub:
  assumes "distinct (map user_id users)" "u \<in> set users" "user_id u' = user_id u" "keycloak_sub u' = Some sub"
    and "\<And>v. v \<in> set users \<Longrightarrow> user_id v \<noteq> user_id u \<Longrightarrow> keycloak_sub v \<noteq> Some sub" "user_is_active u'"
  shows "filter (\<lambda>v. keycloak_sub v = Some sub \<and> user_is_active v) (update_where (\<lambda>v. user_id v = user_id u) (\<lambda>_. u') users) = [u']"
  using assms
proof (induction users)
  case (Cons v users)
  show ?case
  proof (cases "user_id v = user_id u")
    case True
    then have "\<forall>w \<in> set users. user_id w \<noteq> user_id u" using Cons.prems(1) by (metis distinct.simps(2) image_eqI list.set_map list.simps(9))
    then have "update_where (\<lambda>v. user_id v = user_id u) (\<lambda>_. u') users = users"
      and "filter (\<lambda>v. keycloak_sub v = Some sub \<and> user_is_active v) users = []"
      using Cons.prems(5) by (auto simp: update_where_def filter_empty_conv intro!: map_idI)
    then show ?thesis using True Cons.prems by (simp add: update_where_def)
  next
    case False
    then show ?thesis using Cons by (auto simp: update_where_def)
  qed
qed simp

lemma find_account_in: "find_account users sub email = Inr u \<Longrightarrow> u \<in> set users"
proof -
  have one: "scalar_one_or_none xs = OneRow u \<Longrightarrow> u \<in> set xs" for xs :: "user list"
    by (cases xs rule: scalar_one_or_none.cases) auto
  assume "find_account users sub email = Inr u"
  then show ?thesis
    by (auto simp: find_account_def split: one.splits if_splits dest!: one)
qed

lemma upsert_user_resolves:
  assumes "upsert_user users now sub email role = Inr users'" "distinct (map user_id users)" "sub \<noteq> []"
  shows "\<exists>u. get_current_user users' (Some sub) = Inr u \<and> user_is_active u \<and> keycloak_sub u = Some sub
    \<and> user_last_login u = Some now \<and> (truthy role \<longrightarrow> Some (user_role u) = role)
    \<and> user_role u \<in> set user_roles"
proof -
  from assms(1) obtain u where u: "find_account users sub email = Inr u" "user_is_active u"
    "user_row_ok users (link_user now sub role u)"
    "users' = update_where (\<lambda>v. user_id v = user_id u) (\<lambda>_. link_user now sub role u) users"
    by (auto simp: upsert_user_def Let_def split: sum.splits if_splits)
  let ?u = "link_user now sub role u"
  have "filter (\<lambda>v. keycloak_sub v = Some sub \<and> user_is_active v) users' = [?u]"
    unfolding u(4) using assms(2) find_account_in [OF u(1)] u(2,3)
    by (intro update_where_sub) (auto simp: link_user_def user_row_ok_def list_all_iff)
  then have "get_current_user users' (Some sub) = Inr ?u" using assms(3) by (simp add: get_current_user_def)
  then show ?thesis using u(2,3) by (cases role) (auto simp: link_user_def user_row_ok_def)
qed

definition cookie_request :: "string \<Rightarrow> string \<Rightarrow> (string \<times> string) list \<Rightarrow> request" where
  "cookie_request meth path jar =
     \<lparr>rq_method = meth, rq_path = path, rq_peer = None,
      rq_headers = (case map_of jar CSRF_COOKIE of None \<Rightarrow> [] | Some t \<Rightarrow> [(lower CSRF_HEADER, t)]), rq_cookies = jar\<rparr>"

lemma cookie_request_token:
  "map_of jar SESSION_COOKIE = Some tok \<Longrightarrow> tok \<noteq> [] \<Longrightarrow> extract_token (cookie_request m path jar) = (Some tok, True)"
proof -
  have "lower ''Authorization'' \<noteq> lower CSRF_HEADER" by code_simp
  then show "map_of jar SESSION_COOKIE = Some tok \<Longrightarrow> tok \<noteq> [] \<Longrightarrow> ?thesis"
    by (auto simp: extract_token_def cookie_request_def header_def cookie_def starts_with_def split: option.splits)
qed

lemma cookie_request_csrf:
  "map_of jar CSRF_COOKIE = Some t \<Longrightarrow> t \<noteq> [] \<Longrightarrow> csrf_ok (cookie_request m path jar)"
  by (simp add: csrf_ok_def cookie_request_def header_def cookie_def)

lemma callback_success:
  assumes "oidc_callback R dec kc st env now rb c s users code state = (s', c', users', Inr resp, cks)"
  obtains ts p sub where "c_sub p = Some sub" "resp = token_response_of ts"
    "validate_token dec st c (en_fetch env) (en_refetch env) (en_now env) (ts_access_token ts) = (c', Inr p)"
    "upsert_user users now sub (or_empty (c_email p)) (extract_role p) = Inr users'"
    "cks = set_session_cookies st (ts_access_token ts) (or_empty (ts_refresh_token ts)) (issue_csrf_token rb) (tr_expires_in resp)"
  using assms
  by (auto simp: oidc_callback_def open_session_def
      split: prod.splits option.splits sum.splits exc.splits)


text \<open>C23: A successful callback opens a session: a request that the browser sends with the cookies it was
  given, of any method and on any protected path, is admitted with the claims of the validated token
  while these are not revoked, and resolves to an active user whose role is one of the application's
  and is the role the token names, if it names one.\<close>

theorem callback_opens_session:
  assumes "oidc_callback R dec kc st env now rb c s users code state = (s', c', users', Inr resp, cks)"
    and "distinct (map user_id users)" "rb \<noteq> []" "0 < tr_expires_in resp" "tr_access_token resp \<noteq> []"
    and "\<And>q. (\<exists>ks. dec ks (issuer st) (tr_access_token resp) (en_now env) = Some q) \<Longrightarrow>
      c_sub q \<noteq> Some [] \<and> revoked R s'' (en_now env') q = Some False \<and>
      validate_token dec st c' (en_fetch env') (en_refetch env') (en_now env') (tr_access_token resp) = (c'', Inr q)"
    and "en_redis_up env'" "\<not> is_public path"
  shows "\<exists>p u. auth_dispatch R dec st env' c' s'' (cookie_request meth path (browser_store jar cks)) = (c'', Pass, Some p)
    \<and> get_current_user users' (c_sub p) = Inr u \<and> user_is_active u \<and> user_role u \<in> set user_roles
    \<and> (\<forall>r. extract_role p = Some r \<longrightarrow> user_role u = r)"
proof -
  from assms(1) obtain ts p sub where p: "c_sub p = Some sub" "resp = token_response_of ts"
    "validate_token dec st c (en_fetch env) (en_refetch env) (en_now env) (ts_access_token ts) = (c', Inr p)"
    "upsert_user users now sub (or_empty (c_email p)) (extract_role p) = Inr users'"
    "cks = set_session_cookies st (ts_access_token ts) (or_empty (ts_refresh_token ts)) (issue_csrf_token rb) (tr_expires_in resp)"
    by (rule callback_success)
  have acc: "tr_access_token resp = ts_access_token ts" using p(2) by (simp add: token_response_of_def)
  have q: "c_sub p \<noteq> Some []" "revoked R s'' (en_now env') p = Some False"
    "validate_token dec st c' (en_fetch env') (en_refetch env') (en_now env') (ts_access_token ts) = (c'', Inr p)"
    using assms(6) [of p] validate_token_claims [OF p(3)] acc by auto
  note jar = browser_session_cookies [OF assms(4), of "ts_access_token ts" jar st "or_empty (ts_refresh_token ts)"
      "issue_csrf_token rb", folded p(5)]
  have "auth_dispatch R dec st env' c' s'' (cookie_request meth path (browser_store jar cks)) = (c'', check_revoked R env' s'' p)"
    using assms(3,5,8) jar q(3) acc
    by (intro auth_dispatch_valid [of _ "ts_access_token ts" True])
      (auto simp: cookie_request_token issue_csrf_token_def intro!: cookie_request_csrf, simp add: cookie_request_def)
  moreover have "check_revoked R env' s'' p = (Pass, Some p)" using q(2) assms(7) by (simp add: check_revoked_def)
  moreover obtain u where "get_current_user users' (Some sub) = Inr u" "user_is_active u" "user_role u \<in> set user_roles"
    "truthy (extract_role p) \<longrightarrow> Some (user_role u) = extract_role p"
    using upsert_user_resolves [OF p(4) assms(2)] q(1) p(1) by auto
  moreover have "extract_role p = Some r \<Longrightarrow> r \<noteq> []" for r
    by (auto simp: extract_role_def VALID_APP_ROLES_def find_Some_iff split: if_splits)
  ultimately show ?thesis using p(1) by auto
qed


definition sample_account :: user where
  "sample_account = \<lparr>user_id = 7, user_org_id = 1, keycloak_sub = None, user_email = ''a@x'', user_first_name = None,
     user_last_name = None, user_role = ''AUDITEUR'', user_msp_id = None, user_is_active = True, user_phone = None,
     user_last_login = None\<rparr>"

definition sample_kc :: "kc_post \<Rightarrow> kc_reply" where
  "sample_kc post = KcStatus 200 (Some \<lparr>ts_access_token = ''A'', ts_refresh_token = None, ts_expires_in = Some 900,
     ts_refresh_expires_in = None\<rparr>)"

definition sample_date :: datetime where
  "sample_date = \<lparr>dt_year = 1, dt_month = 1, dt_day = 1, dt_hour = 0, dt_minute = 0, dt_second = 0, dt_micro = 0\<rparr>"

definition sample_callback where
  "sample_callback = oidc_callback map_redis sample_dec sample_kc sample_settings (sample_env 110) sample_date [1] sample_cache
     (r_setex map_redis [] 100 (state_key ''st'') 300 ''v|/'') [sample_account] ''code'' ''st''"

lemma sample_callback_ok:
  "\<exists>s' users' cks. sample_callback = (s', sample_cache, users',
     Inr \<lparr>tr_access_token = ''A'', tr_expires_in = 900, tr_refresh_expires_in = 0\<rparr>, cks)"
proof -
  have "validate_token sample_dec sample_settings sample_cache (en_fetch (sample_env 110)) (en_refetch (sample_env 110)) 110 ''A''
      = (sample_cache, Inr (sample_claims ''j-a'' 10))"
    by (rule sample_validates) (simp add: sample_dec_def)
  moreover have "en_now (sample_env 110) = 110" by (simp add: sample_env_def Let_def)
  moreover have "take_state map_redis (r_setex map_redis [] 100 (state_key ''st'') 300 ''v|/'') 110 ''st'' =
      (r_delete map_redis (r_setex map_redis [] 100 (state_key ''st'') 300 ''v|/'') 110 (state_key ''st''), Some ''v|/'')"
    using map_server.get_setex [of 300 100 110 "[]" "state_key ''st''" "''v|/''"] by (simp add: take_state_def)
  moreover have "extract_role (sample_claims ''j-a'' 10) = Some ''TRADER''"
    by (simp add: extract_role_def sample_claims_def VALID_APP_ROLES_def)
  ultimately show ?thesis
    by (simp add: sample_callback_def oidc_callback_def exchange_code_def sample_kc_def read_token_reply_def
        open_session_def upsert_user_def find_account_def sample_account_def sample_claims_def or_empty_def Let_def
        link_user_def user_row_ok_def user_roles_def token_response_of_def or_zero_def)
qed

theorem callback_opens_session_witness:
  "\<exists>s' users' cks p u. sample_callback = (s', sample_cache, users',
      Inr \<lparr>tr_access_token = ''A'', tr_expires_in = 900, tr_refresh_expires_in = 0\<rparr>, cks) \<and>
    auth_dispatch map_redis sample_dec sample_settings (sample_env 200) sample_cache []
      (cookie_request ''POST'' ''/api/v1/auth/logout'' (browser_store [] cks)) = (sample_cache, Pass, Some p) \<and>
    get_current_user users' (c_sub p) = Inr u"
proof -
  obtain s' users' cks where cb: "sample_callback = (s', sample_cache, users',
      Inr \<lparr>tr_access_token = ''A'', tr_expires_in = 900, tr_refresh_expires_in = 0\<rparr>, cks)"
    using sample_callback_ok by blast
  have dec: "sample_dec ks (issuer sample_settings) ''A'' (en_now (sample_env 110)) = Some q \<Longrightarrow>
      q = sample_claims ''j-a'' 10" for ks q
    by (simp add: sample_dec_def sample_env_def Let_def)
  have val: "validate_token sample_dec sample_settings sample_cache (en_fetch (sample_env 200)) (en_refetch (sample_env 200))
      (en_now (sample_env 200)) ''A'' = (sample_cache, Inr (sample_claims ''j-a'' 10))"
    by (rule sample_validates) (simp add: sample_dec_def sample_env_def Let_def)
  have "\<exists>p u. auth_dispatch map_redis sample_dec sample_settings (sample_env 200) sample_cache []
      (cookie_request ''POST'' ''/api/v1/auth/logout'' (browser_store [] cks)) = (sample_cache, Pass, Some p)
    \<and> get_current_user users' (c_sub p) = Inr u \<and> user_is_active u \<and> user_role u \<in> set user_roles
    \<and> (\<forall>r. extract_role p = Some r \<longrightarrow> user_role u = r)"
    by (rule callback_opens_session [OF cb [unfolded sample_callback_def]])
      (auto dest!: dec simp: val, auto simp: sample_claims_def revoked_def map_redis_def live_def Let_def sample_env_def
        is_public_def PUBLIC_API_PATHS_def EXCLUDED_PREFIXES_def starts_with_def)
  then show ?thesis using cb by blast
qed

subsection \<open>Weak points\<close>




text \<open>A role of the token that the table does not know fails the login after the state is spent.\<close>

lemma unknown_role_fails_login:
  assumes "role \<in> {''ADMIN_ORG'', ''READONLY''}" "find_account users sub email = Inr u" "user_is_active u"
  shows "role \<in> set VALID_APP_ROLES" "upsert_user users now sub email (Some role) = Inl UnhandledError"
  using assms by (auto simp: VALID_APP_ROLES_def upsert_user_def user_row_ok_def link_user_def user_roles_def Let_def)

text \<open>A token no key set decodes always costs a request to Keycloak, whatever the age of the cache.\<close>

lemma bad_token_refetches:
  assumes "\<And>ks. dec ks (issuer st) tok now = None" "cache_fresh c (fi_now io1) False" "fi_reply io2 = Inr ks"
  shows "validate_token dec st c io1 io2 now tok = (\<lparr>jc_keys = Some ks, jc_fetched_at = fi_done io2\<rparr>, Inl ValueError)"
  using assms by (simp add: validate_token_def fetch_jwks_def fetch_locked_def cache_fresh_def)

text \<open>The CORS middleware sits below this one, so a preflight request, which carries no credentials, is
  refused on every protected path.\<close>

lemma preflight_refused:
  assumes "rq_method r = ''OPTIONS''" "header r ''Authorization'' = None" "rq_cookies r = []" "\<not> is_public (rq_path r)"
  shows "auth_dispatch R dec st env c s r = (c, Refuse 401, None)"
  using assms by (simp add: auth_dispatch_def extract_token_def cookie_def starts_with_def)

end
