(* ===== verification/Schnorr.thy ===== *)
theory Schnorr
  imports PyText Sha256
begin

text \<open>
  The Schnorr proofs of core/features/zkp/crypto.py. The curve arithmetic comes from the
  package py_ecc: its \<open>add\<close>, \<open>multiply\<close>, generator, group order and field prime are the fields
  of a record the definitions take, and what the code relies on are the named hypotheses
  collected in \<open>curve_laws\<close>. The digest function is the argument \<open>H\<close> and the randomness drawn
  by \<open>os.urandom\<close> is an argument. An operation that raises gives \<open>None\<close>.
\<close>

type_synonym point = "int \<times> int"

record curve =
  ec_add :: "point \<Rightarrow> point \<Rightarrow> point"
  ec_multiply :: "point \<Rightarrow> int \<Rightarrow> point"
  ec_G :: point
  ec_N :: int
  ec_P :: int

definition is_on_curve :: "curve \<Rightarrow> point option \<Rightarrow> bool" where
  "is_on_curve ec p =
     (case p of
        None \<Rightarrow> False
      | Some (x, y) \<Rightarrow>
          if \<not> (0 \<le> x \<and> x < ec_P ec) \<or> \<not> (0 \<le> y \<and> y < ec_P ec) then False
          else (y * y - x * x * x - 7) mod ec_P ec = 0)"

definition point_to_bytes :: "point \<Rightarrow> bytes option" where
  "point_to_bytes p =
     (case (to_bytes 32 (fst p), to_bytes 32 (snd p)) of
        (Some a, Some b) \<Rightarrow> Some (a @ b) | _ \<Rightarrow> None)"

definition scalar_from_bytes :: "curve \<Rightarrow> bytes \<Rightarrow> int" where
  "scalar_from_bytes ec b = from_bytes b mod ec_N ec"

text \<open>Each part is hashed after its length as a big-endian 32-bit integer.\<close>

fun length_prefixed :: "bytes list \<Rightarrow> bytes option" where
  "length_prefixed [] = Some []"
| "length_prefixed (p # ps) =
     (case (to_bytes 4 (int (length p)), length_prefixed ps) of
        (Some l, Some r) \<Rightarrow> Some (l @ p @ r) | _ \<Rightarrow> None)"

definition hash_to_scalar :: "(bytes \<Rightarrow> bytes) \<Rightarrow> curve \<Rightarrow> bytes list \<Rightarrow> int option" where
  "hash_to_scalar H ec parts = map_option (\<lambda>m. scalar_from_bytes ec (H m)) (length_prefixed parts)"

text \<open>
  \<open>random_scalar\<close>: rejection sampling over the 32-byte strings \<open>os.urandom\<close> returns. The loop may
  run forever, so the draws are a list and \<open>None\<close> means that none of them was in range.
\<close>

fun random_scalar :: "curve \<Rightarrow> bytes list \<Rightarrow> int option" where
  "random_scalar ec [] = None"
| "random_scalar ec (b # bs) =
     (let x = from_bytes b in if 1 \<le> x \<and> x < ec_N ec then Some x else random_scalar ec bs)"

definition public_key_from_private :: "curve \<Rightarrow> int \<Rightarrow> point" where
  "public_key_from_private ec x = ec_multiply ec (ec_G ec) x"

definition generate_keypair :: "curve \<Rightarrow> bytes list \<Rightarrow> (int \<times> point) option" where
  "generate_keypair ec rnd =
     map_option (\<lambda>x. (x, ec_multiply ec (ec_G ec) x)) (random_scalar ec rnd)"

record schnorr_proof =
  sp_Rx :: int
  sp_Ry :: int
  sp_s :: int

definition proof_to_dict :: "schnorr_proof \<Rightarrow> (string \<times> string) list" where
  "proof_to_dict p =
     [(''Rx'', py_hex (sp_Rx p)), (''Ry'', py_hex (sp_Ry p)), (''s'', py_hex (sp_s p))]"

text \<open>\<open>from_dict\<close>: a missing key or a malformed integer raises.\<close>

definition proof_from_dict :: "(string \<times> string) list \<Rightarrow> schnorr_proof option" where
  "proof_from_dict d =
     (case (Option.bind (map_of d ''Rx'') int16, Option.bind (map_of d ''Ry'') int16, Option.bind (map_of d ''s'') int16) of
        (Some rx, Some ry, Some s) \<Rightarrow> Some \<lparr>sp_Rx = rx, sp_Ry = ry, sp_s = s\<rparr>
      | _ \<Rightarrow> None)"

definition challenge :: "(bytes \<Rightarrow> bytes) \<Rightarrow> curve \<Rightarrow> point \<Rightarrow> point \<Rightarrow> bytes \<Rightarrow> int option" where
  "challenge H ec R Y ctx =
     (case (point_to_bytes R, point_to_bytes Y) of
        (Some r, Some y) \<Rightarrow> hash_to_scalar H ec [r, y, ctx] | _ \<Rightarrow> None)"

definition nullifier_of :: "(bytes \<Rightarrow> bytes) \<Rightarrow> int \<Rightarrow> bytes \<Rightarrow> bytes option" where
  "nullifier_of H x ctx = map_option (\<lambda>b. H (utf8 ''NULLIFIER'' @ b @ ctx)) (to_bytes 32 x)"

definition schnorr_prove ::
    "(bytes \<Rightarrow> bytes) \<Rightarrow> curve \<Rightarrow> int \<Rightarrow> int \<Rightarrow> point \<Rightarrow> bytes \<Rightarrow> (schnorr_proof \<times> bytes) option" where
  "schnorr_prove H ec k x Y ctx =
     (let R = ec_multiply ec (ec_G ec) k in
      case (challenge H ec R Y ctx, nullifier_of H x ctx) of
        (Some c, Some n) \<Rightarrow>
          Some (\<lparr>sp_Rx = fst R, sp_Ry = snd R, sp_s = (k - c * x) mod ec_N ec\<rparr>, n)
      | _ \<Rightarrow> None)"

definition schnorr_verify ::
    "(bytes \<Rightarrow> bytes) \<Rightarrow> curve \<Rightarrow> schnorr_proof \<Rightarrow> point \<Rightarrow> bytes \<Rightarrow> bool option" where
  "schnorr_verify H ec p Y ctx =
     (let R = (sp_Rx p, sp_Ry p) in
      if \<not> is_on_curve ec (Some Y) \<or> \<not> is_on_curve ec (Some R) then Some False
      else if \<not> (0 \<le> sp_s p \<and> sp_s p < ec_N ec) then Some False
      else map_option
             (\<lambda>c. ec_add ec (ec_multiply ec (ec_G ec) (sp_s p mod ec_N ec)) (ec_multiply ec Y (c mod ec_N ec)) = R)
             (challenge H ec R Y ctx))"

definition point_to_hex :: "point \<Rightarrow> string \<times> string" where
  "point_to_hex p = (py_hex (fst p), py_hex (snd p))"

definition point_from_hex :: "string \<Rightarrow> string \<Rightarrow> point option" where
  "point_from_hex a b = (case (int16 a, int16 b) of (Some x, Some y) \<Rightarrow> Some (x, y) | _ \<Rightarrow> None)"

subsection \<open>What the code relies on\<close>

text \<open>
  The documented behaviour of the curve package for the multiples of the generator: they lie on
  the curve, addition and multiplication follow the group law of prime order \<open>N\<close>, the field
  elements and the scalars fit 32 bytes.
\<close>

definition curve_laws :: "curve \<Rightarrow> bool" where
  "curve_laws ec \<longleftrightarrow>
     1 < ec_N ec \<and> ec_N ec \<le> 2 ^ 256 \<and> ec_P ec \<le> 2 ^ 256 \<and>
     (\<forall>a. 1 \<le> a \<and> a < ec_N ec \<longrightarrow> is_on_curve ec (Some (ec_multiply ec (ec_G ec) a))) \<and>
     (\<forall>a b x. 0 \<le> a \<and> a < ec_N ec \<and> 0 \<le> b \<and> b < ec_N ec \<and> 1 \<le> x \<and> x < ec_N ec \<longrightarrow>
        ec_add ec (ec_multiply ec (ec_G ec) a) (ec_multiply ec (ec_multiply ec (ec_G ec) x) b) =
        ec_multiply ec (ec_G ec) ((a + b * x) mod ec_N ec))"

text \<open>Multiples of the generator by different scalars below the order are different.\<close>

definition multiples_distinct :: "curve \<Rightarrow> bool" where
  "multiples_distinct ec \<longleftrightarrow>
     (\<forall>a b. 0 \<le> a \<and> a < ec_N ec \<and> 0 \<le> b \<and> b < ec_N ec \<longrightarrow>
        ec_multiply ec (ec_G ec) a = ec_multiply ec (ec_G ec) b \<longrightarrow> a = b)"

subsection \<open>Serialisation\<close>

lemma proof_from_to_dict [simp]: "proof_from_dict (proof_to_dict p) = Some p"
  by (simp add: proof_from_dict_def proof_to_dict_def)

lemma point_from_to_hex [simp]: "case_prod point_from_hex (point_to_hex p) = Some p"
  by (simp add: point_from_hex_def point_to_hex_def)

lemma to_bytes_field: "0 \<le> x \<Longrightarrow> x < P \<Longrightarrow> P \<le> 2 ^ 256 \<Longrightarrow> to_bytes 32 x = Some (be_bytes 32 x)"
  by (simp add: to_bytes_def)

lemma on_curve_bytes:
  assumes "is_on_curve ec (Some p)" and "ec_P ec \<le> 2 ^ 256"
  shows "point_to_bytes p = Some (be_bytes 32 (fst p) @ be_bytes 32 (snd p))"
  using assms to_bytes_field [of _ "ec_P ec"]
  by (auto simp: is_on_curve_def point_to_bytes_def split: prod.splits if_splits)

lemma challenge_defined:
  assumes "is_on_curve ec (Some R)" and "is_on_curve ec (Some Y)" and "ec_P ec \<le> 2 ^ 256"
    and "length ctx < 2 ^ 32"
  shows "challenge H ec R Y ctx =
    Some (scalar_from_bytes ec (H (
      be_bytes 4 64 @ be_bytes 32 (fst R) @ be_bytes 32 (snd R) @
      be_bytes 4 64 @ be_bytes 32 (fst Y) @ be_bytes 32 (snd Y) @
      be_bytes 4 (int (length ctx)) @ ctx)))"
  using assms on_curve_bytes [OF assms(1,3)] on_curve_bytes [OF assms(2,3)]
  by (simp add: challenge_def hash_to_scalar_def to_bytes_def)

lemma challenge_range: "challenge H ec R Y ctx = Some c \<Longrightarrow> 1 < ec_N ec \<Longrightarrow> 0 \<le> c \<and> c < ec_N ec"
  by (auto simp: challenge_def hash_to_scalar_def scalar_from_bytes_def split: option.splits)

subsection \<open>Completeness and soundness\<close>

lemma schnorr_completeness:
  assumes "curve_laws ec" and "1 \<le> k" and "k < ec_N ec" and "1 \<le> x" and "x < ec_N ec"
    and "length ctx < 2 ^ 32"
  shows "\<exists>p n. schnorr_prove H ec k x (public_key_from_private ec x) ctx = Some (p, n) \<and>
    schnorr_verify H ec p (public_key_from_private ec x) ctx = Some True"
proof -
  let ?R = "ec_multiply ec (ec_G ec) k" and ?Y = "public_key_from_private ec x"
  have N: "1 < ec_N ec" "ec_N ec \<le> 2 ^ 256" and P: "ec_P ec \<le> 2 ^ 256"
    using assms(1) by (simp_all add: curve_laws_def)
  have R: "is_on_curve ec (Some ?R)" and Y: "is_on_curve ec (Some ?Y)"
    using assms by (simp_all add: curve_laws_def public_key_from_private_def)
  obtain c where c: "challenge H ec ?R ?Y ctx = Some c"
    using challenge_defined [OF R Y P assms(6)] by simp
  note range = challenge_range [OF c N(1)]
  obtain n where n: "nullifier_of H x ctx = Some n"
    using to_bytes_field [of x "ec_N ec"] assms N by (simp add: nullifier_of_def)
  let ?s = "(k - c * x) mod ec_N ec"
  have s: "0 \<le> ?s" "?s < ec_N ec" using N by simp_all
  have "(?s + c * x) mod ec_N ec = k mod ec_N ec" by (simp add: mod_simps)
  then have "(?s + c * x) mod ec_N ec = k" using assms by simp
  moreover have "ec_add ec (ec_multiply ec (ec_G ec) ?s) (ec_multiply ec ?Y c) =
      ec_multiply ec (ec_G ec) ((?s + c * x) mod ec_N ec)"
    using assms(1,4,5) s range by (simp add: curve_laws_def public_key_from_private_def)
  ultimately have "schnorr_verify H ec \<lparr>sp_Rx = fst ?R, sp_Ry = snd ?R, sp_s = ?s\<rparr> ?Y ctx = Some True"
    using R Y c s range by (simp add: schnorr_verify_def Let_def)
  then show ?thesis using c n by (simp add: schnorr_prove_def Let_def)
qed

text \<open>
  Honest proofs verify. For a curve with the laws of \<open>curve_laws\<close>, any key, nonce and context
  shorter than 2^32 bytes, proving succeeds and the verifier accepts the proof.
\<close>

theorem schnorr_complete:
  assumes "curve_laws ec" and "1 \<le> k" and "k < ec_N ec" and "1 \<le> x" and "x < ec_N ec"
    and "length ctx < 2 ^ 32"
  shows "\<exists>p n. schnorr_prove H ec k x (public_key_from_private ec x) ctx = Some (p, n) \<and>
    schnorr_verify H ec p (public_key_from_private ec x) ctx = Some True"
  using assms by (rule schnorr_completeness)

text \<open>The curve \<open>y\<^sup>2 = x\<^sup>3 + 7\<close> over the field with 13 elements has a group of order 7.\<close>

definition small_points :: "point list" where
  "small_points = [(0, 0), (7, 5), (8, 5), (11, 8), (11, 5), (8, 8), (7, 8)]"

fun index_of :: "point list \<Rightarrow> point \<Rightarrow> int" where
  "index_of [] p = 0"
| "index_of (q # qs) p = (if p = q then 0 else 1 + index_of qs p)"

definition small_curve :: curve where
  "small_curve = \<lparr>
     ec_add = (\<lambda>p q. small_points ! nat ((index_of small_points p + index_of small_points q) mod 7)),
     ec_multiply = (\<lambda>p a. small_points ! nat ((index_of small_points p * a) mod 7)),
     ec_G = (7, 5), ec_N = 7, ec_P = 13\<rparr>"


lemma small_curve_simps:
  "ec_add small_curve p q = small_points ! nat ((index_of small_points p + index_of small_points q) mod 7)"
  "ec_multiply small_curve p a = small_points ! nat ((index_of small_points p * a) mod 7)"
  "ec_G small_curve = (7, 5)" "ec_N small_curve = 7" "ec_P small_curve = 13"
  by (simp_all only: small_curve_def curve.select_convs)

lemma index_of_nth: "distinct xs \<Longrightarrow> k < length xs \<Longrightarrow> index_of xs (xs ! k) = int k"
proof (induction xs arbitrary: k)
  case (Cons a xs)
  then show ?case by (cases k) auto
qed simp

lemma small_index: "0 \<le> i \<Longrightarrow> i < 7 \<Longrightarrow> index_of small_points (small_points ! nat i) = i"
  using index_of_nth [of small_points "nat i"] by (simp add: small_points_def nat_less_iff del: index_of.simps)

lemma small_on_curve: "p \<in> set (tl small_points) \<Longrightarrow> is_on_curve small_curve (Some p)"
  by (auto simp: is_on_curve_def small_curve_simps small_points_def)

lemma small_curve_laws: "curve_laws small_curve"
proof -
  have G: "index_of small_points (7, 5) = 1" by (simp add: small_points_def)
  have "is_on_curve small_curve (Some (small_points ! nat a))" if "1 \<le> a" "a < 7" for a
  proof (rule small_on_curve)
    have "small_points ! nat a = tl small_points ! (nat a - 1)"
      using that by (simp add: nth_tl nat_less_iff small_points_def)
    moreover have "nat a - 1 < length (tl small_points)" using that by (simp add: small_points_def nat_less_iff)
    ultimately show "small_points ! nat a \<in> set (tl small_points)" by (metis nth_mem)
  qed
  moreover have "small_points ! nat ((index_of small_points (small_points ! nat a) +
      index_of small_points (small_points ! nat ((index_of small_points (small_points ! nat x) * b) mod 7))) mod 7) =
      small_points ! nat ((a + b * x) mod 7)" if "0 \<le> a" "a < 7" "1 \<le> x" "x < 7" for a b x
    using that by (simp add: small_index mod_simps mult.commute)
  ultimately show ?thesis by (simp add: curve_laws_def small_curve_simps G)
qed

lemma small_multiples_distinct: "multiples_distinct small_curve"
proof -
  have G: "index_of small_points (7, 5) = 1" by (simp add: small_points_def)
  have "a = b" if "0 \<le> a" "a < 7" "0 \<le> b" "b < 7" "small_points ! nat a = small_points ! nat b" for a b
    using small_index [of a] small_index [of b] that by metis
  then show ?thesis by (simp add: multiples_distinct_def small_curve_simps G)
qed

theorem schnorr_complete_witness:
  "\<exists>p n. schnorr_prove sha256 small_curve 3 5 (public_key_from_private small_curve 5) (utf8 ''kyc_gate:1'') = Some (p, n) \<and>
    schnorr_verify sha256 small_curve p (public_key_from_private small_curve 5) (utf8 ''kyc_gate:1'') = Some True"
  by (rule schnorr_complete [OF small_curve_laws])
    (simp_all add: small_curve_simps utf8_def utf8_char_def)

text \<open>
  C10: special soundness. Two accepted proofs for one public key \<open>x * G\<close> with the same
  commitment and challenges that differ by a unit modulo the order determine the private key:
  it is the only scalar \<open>z\<close> with \<open>(c2 - c1) * z = s1 - s2\<close> modulo the order. So whoever can answer
  two challenges knows the key, and a nonce used for two contexts gives the key away.
\<close>

theorem schnorr_special_soundness:
  assumes "curve_laws ec" and "multiples_distinct ec" and "1 \<le> x" and "x < ec_N ec"
    and "sp_Rx p1 = sp_Rx p2" and "sp_Ry p1 = sp_Ry p2"
    and "challenge H ec (sp_Rx p1, sp_Ry p1) (public_key_from_private ec x) ctx1 = Some c1"
    and "challenge H ec (sp_Rx p2, sp_Ry p2) (public_key_from_private ec x) ctx2 = Some c2"
    and "schnorr_verify H ec p1 (public_key_from_private ec x) ctx1 = Some True"
    and "schnorr_verify H ec p2 (public_key_from_private ec x) ctx2 = Some True"
    and "coprime (c2 - c1) (ec_N ec)"
  shows "((c2 - c1) * x - (sp_s p1 - sp_s p2)) mod ec_N ec = 0 \<and>
    (\<forall>z. 0 \<le> z \<and> z < ec_N ec \<and> ((c2 - c1) * z - (sp_s p1 - sp_s p2)) mod ec_N ec = 0 \<longrightarrow> z = x)"
proof -
  let ?N = "ec_N ec" and ?Y = "public_key_from_private ec x"
  have N: "1 < ?N" using assms(1) by (simp add: curve_laws_def)
  have eq: "ec_multiply ec (ec_G ec) ((sp_s p + c * x) mod ?N) = (sp_Rx p, sp_Ry p)"
    if "schnorr_verify H ec p ?Y ctx = Some True" "challenge H ec (sp_Rx p, sp_Ry p) ?Y ctx = Some c" for p ctx c
  proof -
    have "ec_add ec (ec_multiply ec (ec_G ec) (sp_s p)) (ec_multiply ec ?Y c) = (sp_Rx p, sp_Ry p)"
      "0 \<le> sp_s p" "sp_s p < ?N"
      using that challenge_range [OF that(2) N] by (auto simp: schnorr_verify_def Let_def split: if_splits)
    then show ?thesis using assms(1,3,4) challenge_range [OF that(2) N]
      by (simp add: curve_laws_def public_key_from_private_def)
  qed
  have range: "0 \<le> (sp_s p + c * x) mod ?N \<and> (sp_s p + c * x) mod ?N < ?N" for p c using N by simp
  have "ec_multiply ec (ec_G ec) ((sp_s p1 + c1 * x) mod ?N) = ec_multiply ec (ec_G ec) ((sp_s p2 + c2 * x) mod ?N)"
    using eq [OF assms(9,7)] eq [OF assms(10,8)] assms(5,6) by simp
  then have "(sp_s p1 + c1 * x) mod ?N = (sp_s p2 + c2 * x) mod ?N"
    using assms(2) range [of p1 c1] range [of p2 c2] unfolding multiples_distinct_def by metis
  then have "?N dvd (sp_s p2 + c2 * x) - (sp_s p1 + c1 * x)" by (metis mod_eq_dvd_iff)
  then have key: "?N dvd (c2 - c1) * x - (sp_s p1 - sp_s p2)" by (simp add: algebra_simps)
  have "z = x" if z: "0 \<le> z" "z < ?N" "?N dvd (c2 - c1) * z - (sp_s p1 - sp_s p2)" for z
  proof -
    have "?N dvd (c2 - c1) * (z - x)" using dvd_diff [OF z(3) key] by (simp add: algebra_simps)
    then have "?N dvd z - x" using assms(11) by (simp add: coprime_commute coprime_dvd_mult_right_iff)
    moreover have "\<bar>z - x\<bar> < ?N" using z(1,2) assms(3,4) by linarith
    ultimately show ?thesis using zdvd_not_zless [of "\<bar>z - x\<bar>" ?N] by (cases "z = x") auto
  qed
  with key show ?thesis by (auto simp: mod_eq_0_iff_dvd)
qed

text \<open>The witness uses the length of the message as its digest: two contexts, one nonce.\<close>

definition length_digest :: "bytes \<Rightarrow> bytes" where
  "length_digest m = [of_nat (length m)]"

theorem schnorr_special_soundness_witness:
  "((1 - 0) * 5 - (3 - 5)) mod ec_N small_curve = 0"
proof -
  let ?p1 = "\<lparr>sp_Rx = 11, sp_Ry = 8, sp_s = 3\<rparr>" and ?p2 = "\<lparr>sp_Rx = 11, sp_Ry = 8, sp_s = 5\<rparr>"
  have Y: "public_key_from_private small_curve 5 = (8, 8)" by code_simp
  have c: "challenge length_digest small_curve (11, 8) (8, 8) [] = Some 0"
    "challenge length_digest small_curve (11, 8) (8, 8) [0] = Some 1" by code_simp+
  have v: "schnorr_verify length_digest small_curve ?p1 (8, 8) [] = Some True"
    "schnorr_verify length_digest small_curve ?p2 (8, 8) [0] = Some True" by code_simp+
  show ?thesis
    using schnorr_special_soundness [OF small_curve_laws small_multiples_distinct,
        of 5 ?p1 ?p2 length_digest "[]" 0 "[0]" 1] c v
    by (simp add: Y small_curve_simps)
qed

end
