(* ===== verification/Merkle.thy ===== *)
theory Merkle
  imports Sha256
begin

text \<open>
  The sorted Merkle tree of \<open>core/features/zkp/merkle.py\<close>: building the tree of a sanctions
  list, the path of a leaf, the non-membership proof the prover produces and the stateless
  verifier. The digest function is the argument \<open>H\<close> (\<open>hashlib.sha256\<close> in the code). Reading a
  list outside its bounds and malformed hexadecimal text are \<open>Inl\<close> results, as the code raises.
\<close>

datatype merkle_error = IndexError | HexError

definition leaf_hash :: "(bytes \<Rightarrow> bytes) \<Rightarrow> string \<Rightarrow> bytes" where
  "leaf_hash H value = H (utf8 ''LEAF:'' @ utf8 (lower value))"

definition node_hash :: "(bytes \<Rightarrow> bytes) \<Rightarrow> bytes \<Rightarrow> bytes \<Rightarrow> bytes" where
  "node_hash H left right = H (utf8 ''NODE:'' @ left @ right)"

record merkle_tree =
  sorted_names :: "string list"
  leaves :: "bytes list"
  root :: bytes
  levels :: "bytes list list"

text \<open>One pass of the inner loop of \<open>build\<close>: pairs are hashed, a last odd node with itself.\<close>

fun next_level :: "(bytes \<Rightarrow> bytes) \<Rightarrow> bytes list \<Rightarrow> bytes list" where
  "next_level H [] = []"
| "next_level H [l] = [node_hash H l l]"
| "next_level H (l # r # rest) = node_hash H l r # next_level H rest"

lemma length_next_level [simp]: "length (next_level H xs) = (length xs + 1) div 2"
  by (induction H xs rule: next_level.induct) auto

text \<open>The outer loop: the levels from the leaves up, until one node is left.\<close>

function build_levels :: "(bytes \<Rightarrow> bytes) \<Rightarrow> bytes list \<Rightarrow> bytes list list" where
  "build_levels H current =
     (if 1 < length current then current # build_levels H (next_level H current) else [current])"
  by pat_completeness auto
termination
  by (relation "measure (\<lambda>(H, current). length current)") auto

declare build_levels.simps [simp del]

definition build :: "(bytes \<Rightarrow> bytes) \<Rightarrow> string list \<Rightarrow> merkle_tree" where
  "build H names =
     (let names1 = sort (remdups (map lower names));
          leaves1 = map (leaf_hash H) names1;
          leaves2 = (if leaves1 = [] then [replicate 32 0] else leaves1);
          names2 = (if leaves1 = [] then [[]] else names1);
          lvls = build_levels H leaves2
      in \<lparr>sorted_names = names2, leaves = leaves2, root = hd (last lvls), levels = lvls\<rparr>)"

record path_step =
  step_hash :: string
  side :: string

text \<open>\<open>_merkle_path\<close>: every level but the last contributes the sibling of the running index.\<close>

fun path_from :: "bytes list list \<Rightarrow> nat \<Rightarrow> merkle_error + path_step list" where
  "path_from [] idx = Inr []"
| "path_from (level # rest) idx =
     (let sib = (if even idx then (if idx + 1 < length level then idx + 1 else idx) else idx - 1)
      in if sib < length level
         then (case path_from rest (idx div 2) of
                 Inl e \<Rightarrow> Inl e
               | Inr p \<Rightarrow>
                   Inr (\<lparr>step_hash = bytes_hex (level ! sib),
                        side = (if even idx then ''right'' else ''left'')\<rparr> # p))
         else Inl IndexError)"

definition merkle_path :: "merkle_tree \<Rightarrow> nat \<Rightarrow> merkle_error + path_step list" where
  "merkle_path t leaf_index = path_from (butlast (levels t)) leaf_index"

text \<open>
  The binary search of \<open>non_membership_proof\<close>: \<open>None\<close> when the key is found, otherwise the
  final value of \<open>lo\<close>, the insertion index.
\<close>

function search :: "string list \<Rightarrow> string \<Rightarrow> int \<Rightarrow> int \<Rightarrow> int option" where
  "search names key lo hi =
     (if lo \<le> hi then
        (let mid = (lo + hi) div 2 in
         if names ! nat mid = key then None
         else if names ! nat mid < key then search names key (mid + 1) hi
         else search names key lo (mid - 1))
      else Some lo)"
  by pat_completeness auto
termination
  by (relation "measure (\<lambda>(names, key, lo, hi). nat (hi + 1 - lo))") auto

declare search.simps [simp del]

record non_membership_proof =
  queried_name :: string
  left_leaf_name :: string
  right_leaf_name :: string
  left_leaf_hash :: string
  right_leaf_hash :: string
  left_path :: "path_step list"
  right_path :: "path_step list"
  proof_root :: string

definition prove_non_membership ::
  "merkle_tree \<Rightarrow> string \<Rightarrow> merkle_error + non_membership_proof option" where
  "prove_non_membership t name =
     (let n = int (length (sorted_names t)) in
      case search (sorted_names t) (lower name) 0 (n - 1) of
        None \<Rightarrow> Inr None
      | Some lo \<Rightarrow>
          (let li = nat (max (lo - 1) 0); ri = nat (min lo (n - 1)) in
           case (merkle_path t li, merkle_path t ri) of
             (Inr lp, Inr rp) \<Rightarrow>
               if li < length (leaves t) \<and> ri < length (leaves t)
               then Inr (Some
                 \<lparr>queried_name = name,
                  left_leaf_name = sorted_names t ! li, right_leaf_name = sorted_names t ! ri,
                  left_leaf_hash = bytes_hex (leaves t ! li),
                  right_leaf_hash = bytes_hex (leaves t ! ri),
                  left_path = lp, right_path = rp, proof_root = bytes_hex (root t)\<rparr>)
               else Inl IndexError
           | _ \<Rightarrow> Inl IndexError))"

fun climb :: "(bytes \<Rightarrow> bytes) \<Rightarrow> bytes \<Rightarrow> path_step list \<Rightarrow> merkle_error + bytes" where
  "climb H current [] = Inr current"
| "climb H current (st # path) =
     (case fromhex (step_hash st) of
        None \<Rightarrow> Inl HexError
      | Some sibling \<Rightarrow>
          if side st = ''right'' then climb H (node_hash H current sibling) path
          else climb H (node_hash H sibling current) path)"

definition verify_path ::
  "(bytes \<Rightarrow> bytes) \<Rightarrow> bytes \<Rightarrow> path_step list \<Rightarrow> string \<Rightarrow> merkle_error + bool" where
  "verify_path H leaf path expected_root =
     (case climb H leaf path of
        Inl e \<Rightarrow> Inl e
      | Inr current \<Rightarrow> Inr (bytes_hex current = expected_root))"

definition verify_non_membership ::
  "(bytes \<Rightarrow> bytes) \<Rightarrow> non_membership_proof \<Rightarrow> string \<Rightarrow> merkle_error + bool" where
  "verify_non_membership H p expected_root =
     (if bytes_hex (leaf_hash H (left_leaf_name p)) \<noteq> left_leaf_hash p then Inr False
      else if bytes_hex (leaf_hash H (right_leaf_name p)) \<noteq> right_leaf_hash p then Inr False
      else
        (let key = lower (queried_name p) in
         if \<not> (lower (left_leaf_name p) \<le> key \<and> key \<le> lower (right_leaf_name p)) then Inr False
         else if lower (left_leaf_name p) = key \<or> lower (right_leaf_name p) = key then Inr False
         else
           (case (fromhex (left_leaf_hash p), fromhex (right_leaf_hash p)) of
              (Some lh, Some rh) \<Rightarrow>
                (case verify_path H lh (left_path p) expected_root of
                   Inl e \<Rightarrow> Inl e
                 | Inr left_ok \<Rightarrow>
                     (case verify_path H rh (right_path p) expected_root of
                        Inl e \<Rightarrow> Inl e
                      | Inr right_ok \<Rightarrow>
                          Inr (left_ok \<and> right_ok \<and> proof_root p = expected_root)))
            | _ \<Rightarrow> Inl HexError)))"

subsection \<open>Levels\<close>

lemma next_level_nth:
  "i < (length xs + 1) div 2 \<Longrightarrow>
   next_level H xs ! i =
     node_hash H (xs ! (2 * i)) (xs ! (if 2 * i + 1 < length xs then 2 * i + 1 else 2 * i))"
proof (induction H xs arbitrary: i rule: next_level.induct)
  case (3 H l r rest)
  then show ?case by (cases i) auto
qed auto

lemma build_levels_small: "length xs \<le> 1 \<Longrightarrow> build_levels H xs = [xs]"
  by (subst build_levels.simps) simp

lemma build_levels_big:
  "1 < length xs \<Longrightarrow> build_levels H xs = xs # build_levels H (next_level H xs)"
  by (subst build_levels.simps) simp

lemma build_levels_nonempty [simp]: "build_levels H xs \<noteq> []"
  by (subst build_levels.simps) simp

lemma hd_build_levels [simp]: "hd (build_levels H xs) = xs"
  by (subst build_levels.simps) simp

lemma next_level_Nil_iff [simp]: "next_level H xs = [] \<longleftrightarrow> xs = []"
  by (cases "(H, xs)" rule: next_level.cases) auto

lemma length_last_build_levels: "xs \<noteq> [] \<Longrightarrow> length (last (build_levels H xs)) = 1"
proof (induction H xs rule: build_levels.induct)
  case (1 H xs)
  show ?case
  proof (cases "1 < length xs")
    case True
    with 1 show ?thesis by (auto simp: build_levels_big)
  next
    case False
    with 1 show ?thesis by (cases xs) (auto simp: build_levels_small)
  qed
qed

lemma climb_path:
  "idx < length xs \<Longrightarrow>
   \<exists>p. path_from (butlast (build_levels H xs)) idx = Inr p \<and>
       climb H (xs ! idx) p = Inr (hd (last (build_levels H xs)))"
proof (induction H xs arbitrary: idx rule: build_levels.induct)
  case (1 H xs)
  show ?case
  proof (cases "1 < length xs")
    case False
    with 1 show ?thesis by (cases xs) (auto simp: build_levels_small)
  next
    case True
    let ?ys = "next_level H xs"
    have i: "idx div 2 < length ?ys" using 1(2) by auto
    with 1 True obtain p where p: "path_from (butlast (build_levels H ?ys)) (idx div 2) = Inr p"
      "climb H (?ys ! (idx div 2)) p = Inr (hd (last (build_levels H ?ys)))"
      by blast
    have node: "?ys ! (idx div 2) = node_hash H (xs ! (2 * (idx div 2)))
        (xs ! (if 2 * (idx div 2) + 1 < length xs then 2 * (idx div 2) + 1 else 2 * (idx div 2)))"
      using i by (simp add: next_level_nth)
    show ?thesis
    proof (cases "even idx")
      case even: True
      then have "2 * (idx div 2) = idx" by simp
      with even p node 1(2) True show ?thesis by (auto simp: build_levels_big Let_def)
    next
      case False
      then obtain k where k: "idx = 2 * k + 1" by (rule oddE)
      with p node 1(2) True show ?thesis by (simp add: build_levels_big Let_def)
    qed
  qed
qed

subsection \<open>The binary search\<close>

lemma search_spec:
  assumes "sorted_wrt (<) names" "0 \<le> lo" "lo \<le> hi + 1" "hi < int (length names)"
    and "\<forall>i < nat lo. names ! i < key"
    and "\<forall>i < length names. hi < int i \<longrightarrow> key < names ! i"
  shows "case search names key lo hi of
      None \<Rightarrow> key \<in> set names
    | Some k \<Rightarrow> 0 \<le> k \<and> k \<le> int (length names) \<and>
        (\<forall>i < nat k. names ! i < key) \<and> (\<forall>i < length names. nat k \<le> i \<longrightarrow> key < names ! i)"
  using assms
proof (induction names key lo hi rule: search.induct)
  case (1 names key lo hi)
  show ?case
  proof (cases "lo \<le> hi")
    case False
    with 1 show ?thesis by (auto simp: search.simps [of names key lo hi] nat_le_iff)
  next
    case True
    let ?mid = "(lo + hi) div 2"
    have mid: "lo \<le> ?mid" "?mid \<le> hi" using True by auto
    then have in_range: "nat ?mid < length names" using 1 by auto
    have below: "names ! i < names ! nat ?mid" if "i < nat ?mid" for i
      using 1(3) in_range that by (simp add: sorted_wrt_nth_less)
    have above: "names ! nat ?mid < names ! i" if "nat ?mid < i" "i < length names" for i
      using 1(3) that by (simp add: sorted_wrt_nth_less)
    consider (eq) "names ! nat ?mid = key" | (lt) "names ! nat ?mid < key" | (gt) "key < names ! nat ?mid"
      by fastforce
    then show ?thesis
    proof cases
      case eq
      with True in_range show ?thesis by (auto simp: search.simps [of names key lo hi] Let_def)
    next
      case lt
      then have "\<forall>i < nat (?mid + 1). names ! i < key"
      proof (intro allI impI)
        fix i assume "i < nat (?mid + 1)"
        with mid 1(4) have "i < nat ?mid \<or> i = nat ?mid" by linarith
        with below lt show "names ! i < key" by (auto dest: less_trans)
      qed
      with 1 True lt mid show ?thesis
        by (auto simp: search.simps [of names key lo hi] Let_def)
    next
      case gt
      then have "\<forall>i < length names. ?mid - 1 < int i \<longrightarrow> key < names ! i"
      proof (intro allI impI)
        fix i assume "i < length names" "?mid - 1 < int i"
        with mid 1(4) have "nat ?mid < i \<or> i = nat ?mid" by linarith
        with above gt \<open>i < length names\<close> show "key < names ! i" by (metis less_trans)
      qed
      moreover have "\<not> names ! nat ?mid < key" using gt by (rule less_not_sym)
      ultimately show ?thesis using 1 True gt mid
        by (auto simp: search.simps [of names key lo hi] Let_def)
    qed
  qed
qed

subsection \<open>The tree that \<open>build\<close> returns\<close>

definition name_list :: "string list \<Rightarrow> string list" where
  "name_list names = sort (remdups (map lower names))"

lemma name_list_strict: "sorted_wrt (<) (name_list names)"
  by (simp add: name_list_def strict_sorted_iff)

lemma set_name_list [simp]: "set (name_list names) = lower ` set names"
  by (simp add: name_list_def)

lemma name_list_Nil [simp]: "name_list names = [] \<longleftrightarrow> names = []"
  by (metis image_is_empty set_empty set_name_list)

lemma lower_name_list: "x \<in> set (name_list names) \<Longrightarrow> lower x = x"
  by auto

lemma build_nonempty:
  "names \<noteq> [] \<Longrightarrow> sorted_names (build H names) = name_list names"
  "names \<noteq> [] \<Longrightarrow> leaves (build H names) = map (leaf_hash H) (name_list names)"
  by (simp_all add: build_def Let_def name_list_def [symmetric])

lemma build_levels_of: "levels (build H names) = build_levels H (leaves (build H names))"
  by (simp add: build_def Let_def)

lemma build_root: "root (build H names) = hd (last (build_levels H (leaves (build H names))))"
  by (simp add: build_def Let_def)

lemma build_leaves_nonempty [simp]: "leaves (build H names) \<noteq> []"
  by (simp add: build_def Let_def)

lemma length_build_leaves [simp]:
  "length (leaves (build H names)) = length (sorted_names (build H names))"
  by (simp add: build_def Let_def)

lemma build_sorted: "sorted_wrt (<) (sorted_names (build H names))"
  using name_list_strict [of names] by (simp add: build_def Let_def name_list_def)

lemma build_path:
  assumes "i < length (sorted_names (build H names))"
  obtains p where "merkle_path (build H names) i = Inr p"
    and "verify_path H (leaves (build H names) ! i) p (bytes_hex (root (build H names))) = Inr True"
  using climb_path [of i "leaves (build H names)" H] assms
  by (auto simp: merkle_path_def verify_path_def build_levels_of build_root)

lemma build_search:
  "case search (sorted_names (build H names)) key 0 (int (length (sorted_names (build H names))) - 1) of
     None \<Rightarrow> key \<in> set (sorted_names (build H names))
   | Some k \<Rightarrow> 0 \<le> k \<and> k \<le> int (length (sorted_names (build H names))) \<and>
       (\<forall>i < nat k. sorted_names (build H names) ! i < key) \<and>
       (\<forall>i < length (sorted_names (build H names)). nat k \<le> i \<longrightarrow> key < sorted_names (build H names) ! i)"
  by (rule search_spec [OF build_sorted]) auto

lemma verify_built:
  assumes "names \<noteq> []" and "li < length (name_list names)" and "ri < length (name_list names)"
    and "merkle_path (build H names) li = Inr lp" and "merkle_path (build H names) ri = Inr rp"
  shows "verify_non_membership H
      \<lparr>queried_name = name,
       left_leaf_name = name_list names ! li, right_leaf_name = name_list names ! ri,
       left_leaf_hash = bytes_hex (leaves (build H names) ! li),
       right_leaf_hash = bytes_hex (leaves (build H names) ! ri),
       left_path = lp, right_path = rp, proof_root = bytes_hex (root (build H names))\<rparr>
      (bytes_hex (root (build H names))) =
    Inr (name_list names ! li < lower name \<and> lower name < name_list names ! ri)"
proof -
  have "lower (name_list names ! i) = name_list names ! i" if "i < length (name_list names)" for i
    by (rule lower_name_list [OF nth_mem [OF that]])
  moreover have "verify_path H (leaves (build H names) ! i) q (bytes_hex (root (build H names))) = Inr True"
    if "i < length (name_list names)" "merkle_path (build H names) i = Inr q" for i q
    using assms(1) that by (metis build_nonempty(1) build_path sum.inject(2))
  ultimately show ?thesis
    using assms by (auto simp: verify_non_membership_def Let_def build_nonempty order.strict_iff_order)
qed

lemma prove_built:
  assumes "names \<noteq> []" and "lower name \<notin> lower ` set names"
  obtains lo li ri lp rp where "lo \<le> length (name_list names)"
    and "\<forall>i < lo. name_list names ! i < lower name"
    and "\<forall>i < length (name_list names). lo \<le> i \<longrightarrow> lower name < name_list names ! i"
    and "li = lo - 1" and "ri = min lo (length (name_list names) - 1)"
    and "merkle_path (build H names) li = Inr lp" and "merkle_path (build H names) ri = Inr rp"
    and "prove_non_membership (build H names) name = Inr (Some
      \<lparr>queried_name = name,
       left_leaf_name = name_list names ! li, right_leaf_name = name_list names ! ri,
       left_leaf_hash = bytes_hex (leaves (build H names) ! li),
       right_leaf_hash = bytes_hex (leaves (build H names) ! ri),
       left_path = lp, right_path = rp, proof_root = bytes_hex (root (build H names))\<rparr>)"
proof -
  let ?ns = "name_list names" let ?n = "int (length ?ns)"
  have ns: "sorted_names (build H names) = ?ns" using assms by (simp add: build_nonempty)
  have pos: "0 < length ?ns" using assms by simp
  obtain k where k: "search ?ns (lower name) 0 (?n - 1) = Some k"
    and bounds: "0 \<le> k" "k \<le> ?n" and lt: "\<forall>i < nat k. ?ns ! i < lower name"
    and gt: "\<forall>i < length ?ns. nat k \<le> i \<longrightarrow> lower name < ?ns ! i"
    using build_search [where key = "lower name" and H = H and names = names] assms ns
    by (auto split: option.splits)
  let ?li = "nat k - 1" and ?ri = "min (nat k) (length ?ns - 1)"
  have idx: "nat (max (k - 1) 0) = ?li" "nat (min k (?n - 1)) = ?ri"
    and in_range: "?li < length ?ns" "?ri < length ?ns"
    using bounds pos by linarith+
  obtain lp rp where paths: "merkle_path (build H names) ?li = Inr lp"
    "merkle_path (build H names) ?ri = Inr rp"
    using build_path [of ?li H names] build_path [of ?ri H names] in_range ns by metis
  have "nat k \<le> length ?ns" using bounds by linarith
  then show thesis
    using that [OF _ lt gt refl refl paths] k paths in_range idx ns
    by (simp add: prove_non_membership_def Let_def)
qed

text \<open>
  The path the tree returns for a leaf always exists and always verifies against the
  tree's root, for every digest function, every list of names and every leaf.
\<close>

theorem merkle_path_verifies:
  assumes "i < length (leaves (build H names))"
  shows "\<exists>p. merkle_path (build H names) i = Inr p \<and>
    verify_path H (leaves (build H names) ! i) p (bytes_hex (root (build H names))) = Inr True"
  using build_path [of i H names] assms by auto

theorem merkle_path_verifies_witness:
  "\<exists>p. merkle_path (build sha256 [''Bob'', ''alice'', ''Carol'']) 2 = Inr p \<and>
    verify_path sha256 (leaves (build sha256 [''Bob'', ''alice'', ''Carol'']) ! 2) p
      (bytes_hex (root (build sha256 [''Bob'', ''alice'', ''Carol'']))) = Inr True"
proof (rule merkle_path_verifies)
  have "length (name_list [''Bob'', ''alice'', ''Carol'']) = 3" by code_simp
  then show "2 < length (leaves (build sha256 [''Bob'', ''alice'', ''Carol'']))"
    by (simp add: build_nonempty)
qed

text \<open>
  The search \<open>non_membership_proof\<close> never fails on a built tree, and it declines to produce a proof
  exactly when the queried name, in lower case, is one of the tree's names.
\<close>

theorem prove_non_membership_decides:
  "\<exists>r. prove_non_membership (build H names) name = Inr r \<and>
     (r = None \<longleftrightarrow> lower name \<in> set (sorted_names (build H names)))"
proof -
  let ?t = "build H names" let ?ns = "sorted_names (build H names)"
  let ?n = "int (length ?ns)"
  have pos: "0 < length ?ns" using build_leaves_nonempty [of H names] length_build_leaves [of H names]
    by (metis length_greater_0_conv)
  show ?thesis
  proof (cases "search ?ns (lower name) 0 (?n - 1)")
    case None
    with build_search [where key = "lower name" and H = H and names = names] show ?thesis
      by (auto simp: prove_non_membership_def Let_def)
  next
    case (Some lo)
    with build_search [where key = "lower name" and H = H and names = names]
    have lo: "0 \<le> lo" "lo \<le> ?n" and lt: "\<forall>i < nat lo. ?ns ! i < lower name"
      and gt: "\<forall>i < length ?ns. nat lo \<le> i \<longrightarrow> lower name < ?ns ! i"
      by auto
    have absent: "lower name \<notin> set ?ns"
      using lt gt by (metis in_set_conv_nth less_irrefl linorder_not_less)
    have li: "nat (max (lo - 1) 0) < length ?ns" and ri: "nat (min lo (?n - 1)) < length ?ns"
      using lo pos by linarith+
    obtain lp rp where "merkle_path ?t (nat (max (lo - 1) 0)) = Inr lp"
      and "merkle_path ?t (nat (min lo (?n - 1))) = Inr rp"
      using build_path [OF li] build_path [OF ri] by metis
    then show ?thesis
      using Some li ri absent by (auto simp: prove_non_membership_def Let_def)
  qed
qed

text \<open>
  The proof the tree produces for an absent name is accepted by the stateless verifier
  exactly when some listed name sorts before it and some after it. An absent name that sorts
  before the first or after the last leaf gets a proof whose two leaves coincide, and the
  verifier refuses it.
\<close>

theorem honest_proof_verdict:
  assumes "names \<noteq> []" and "lower name \<notin> lower ` set names"
  shows "\<exists>p. prove_non_membership (build H names) name = Inr (Some p) \<and>
    verify_non_membership H p (bytes_hex (root (build H names))) =
      Inr ((\<exists>a \<in> lower ` set names. a < lower name) \<and> (\<exists>b \<in> lower ` set names. lower name < b))"
proof -
  let ?ns = "name_list names"
  obtain lo li ri lp rp where lo: "lo \<le> length ?ns" and lt: "\<forall>i < lo. ?ns ! i < lower name"
    and gt: "\<forall>i < length ?ns. lo \<le> i \<longrightarrow> lower name < ?ns ! i"
    and li: "li = lo - 1" and ri: "ri = min lo (length ?ns - 1)"
    and paths: "merkle_path (build H names) li = Inr lp" "merkle_path (build H names) ri = Inr rp"
    and prv: "prove_non_membership (build H names) name = Inr (Some
      \<lparr>queried_name = name, left_leaf_name = ?ns ! li, right_leaf_name = ?ns ! ri,
       left_leaf_hash = bytes_hex (leaves (build H names) ! li),
       right_leaf_hash = bytes_hex (leaves (build H names) ! ri),
       left_path = lp, right_path = rp, proof_root = bytes_hex (root (build H names))\<rparr>)"
    by (rule prove_built [OF assms, of H])
  have pos: "0 < length ?ns" using assms by simp
  have in_range: "li < length ?ns" "ri < length ?ns" using li ri lo pos by linarith+
  have ex: "(\<exists>a \<in> lower ` set names. P a) \<longleftrightarrow> (\<exists>i < length ?ns. P (?ns ! i))" for P
    by (metis in_set_conv_nth set_name_list)
  have "(\<exists>a \<in> lower ` set names. a < lower name) \<longleftrightarrow> 0 < lo"
    using lt gt lo pos unfolding ex by (metis le0 less_le_trans less_not_sym not_gr_zero)
  moreover have "(\<exists>b \<in> lower ` set names. lower name < b) \<longleftrightarrow> lo < length ?ns"
    using lt gt lo unfolding ex by (metis le_refl less_not_sym linorder_not_less le_less_trans)
  moreover have "?ns ! li < lower name \<longleftrightarrow> 0 < lo"
    using lt gt pos li by (metis diff_less le0 less_not_sym less_one not_gr_zero zero_diff)
  moreover have "lower name < ?ns ! ri \<longleftrightarrow> lo < length ?ns"
    using lt gt lo pos ri by (metis diff_less le_refl less_not_sym less_one linorder_not_less
        min.absorb1 min.absorb2 nat_less_le diff_le_self less_imp_le Suc_pred less_Suc_eq_le)
  ultimately show ?thesis
    using prv verify_built [OF assms(1) in_range paths, of name] by auto
qed

theorem honest_proof_verdict_witness:
  "\<exists>p. prove_non_membership (build sha256 [''Bob'', ''Dave'']) ''Carol'' = Inr (Some p) \<and>
    verify_non_membership sha256 p (bytes_hex (root (build sha256 [''Bob'', ''Dave'']))) = Inr True"
proof -
  have "lower ''Carol'' \<notin> lower ` set [''Bob'', ''Dave'']" by code_simp
  moreover have "(\<exists>a \<in> lower ` set [''Bob'', ''Dave'']. a < lower ''Carol'') \<and>
      (\<exists>b \<in> lower ` set [''Bob'', ''Dave'']. lower ''Carol'' < b)" by code_simp
  ultimately show ?thesis
    using honest_proof_verdict [of "[''Bob'', ''Dave'']" "''Carol''" sha256] by simp
qed

text \<open>
  The verifier does not check that the two leaves of a proof are adjacent. For a tree with
  at least three names and any three of its positions in order, there is a proof, assembled
  from the tree's own leaves and paths, that the verifier accepts although the queried name is
  a leaf of the tree.
\<close>

theorem non_adjacent_proof_accepted:
  assumes "i < j" and "j < k" and "k < length (sorted_names (build H names))" and "names \<noteq> []"
  shows "\<exists>p. lower (queried_name p) = sorted_names (build H names) ! j \<and>
    lower (queried_name p) \<in> set (sorted_names (build H names)) \<and>
    verify_non_membership H p (bytes_hex (root (build H names))) = Inr True"
proof -
  let ?ns = "name_list names"
  have ns: "sorted_names (build H names) = ?ns" using assms by (simp add: build_nonempty)
  have range: "i < length ?ns" "j < length ?ns" "k < length ?ns" using assms ns by auto
  obtain lp rp where paths: "merkle_path (build H names) i = Inr lp" "merkle_path (build H names) k = Inr rp"
    using build_path [of i H names] build_path [of k H names] range ns by metis
  have "lower (?ns ! j) = ?ns ! j" by (rule lower_name_list [OF nth_mem [OF range(2)]])
  moreover have "?ns ! i < ?ns ! j" "?ns ! j < ?ns ! k"
    using name_list_strict [of names] assms(1,2) range by (auto simp: sorted_wrt_nth_less)
  ultimately show ?thesis
    using verify_built [OF assms(4) range(1) range(3) paths, of "?ns ! j"] ns nth_mem [OF range(2)]
    by (intro exI [of _ "\<lparr>queried_name = ?ns ! j, left_leaf_name = ?ns ! i, right_leaf_name = ?ns ! k,
       left_leaf_hash = bytes_hex (leaves (build H names) ! i),
       right_leaf_hash = bytes_hex (leaves (build H names) ! k),
       left_path = lp, right_path = rp, proof_root = bytes_hex (root (build H names))\<rparr>"]) simp
qed

theorem non_adjacent_proof_accepted_witness:
  "\<exists>p. lower (queried_name p) = sorted_names (build sha256 [''Ann'', ''Bob'', ''Cid'']) ! 1 \<and>
    lower (queried_name p) \<in> set (sorted_names (build sha256 [''Ann'', ''Bob'', ''Cid''])) \<and>
    verify_non_membership sha256 p (bytes_hex (root (build sha256 [''Ann'', ''Bob'', ''Cid'']))) = Inr True"
proof (rule non_adjacent_proof_accepted [of 0 1 2])
  have "length (name_list [''Ann'', ''Bob'', ''Cid'']) = 3" by code_simp
  then show "2 < length (sorted_names (build sha256 [''Ann'', ''Bob'', ''Cid'']))"
    by (simp add: build_nonempty)
qed simp_all

subsection \<open>Soundness of a path, up to digest collisions\<close>

text \<open>
  The messages hashed while a tree is built and while a path is climbed. Soundness is stated
  for a digest function that does not collide on exactly these messages; a forged proof
  therefore yields two explicit messages with the same digest.
\<close>

fun pair_msgs :: "bytes list \<Rightarrow> bytes list" where
  "pair_msgs [] = []"
| "pair_msgs [l] = [utf8 ''NODE:'' @ l @ l]"
| "pair_msgs (l # r # rest) = (utf8 ''NODE:'' @ l @ r) # pair_msgs rest"

definition leaf_msg :: "string \<Rightarrow> bytes" where
  "leaf_msg value = utf8 ''LEAF:'' @ utf8 (lower value)"

definition tree_msgs :: "(bytes \<Rightarrow> bytes) \<Rightarrow> string list \<Rightarrow> bytes list" where
  "tree_msgs H names =
     map leaf_msg (name_list names) @ concat (map pair_msgs (butlast (levels (build H names))))"

fun climb_msgs :: "(bytes \<Rightarrow> bytes) \<Rightarrow> bytes \<Rightarrow> path_step list \<Rightarrow> bytes list" where
  "climb_msgs H current [] = []"
| "climb_msgs H current (st # path) =
     (case fromhex (step_hash st) of
        None \<Rightarrow> []
      | Some sibling \<Rightarrow>
          (let m = (if side st = ''right'' then utf8 ''NODE:'' @ current @ sibling
                    else utf8 ''NODE:'' @ sibling @ current)
           in m # climb_msgs H (H m) path))"

lemma leaf_neq_node: "leaf_msg v \<noteq> utf8 ''NODE:'' @ x"
  by (simp add: leaf_msg_def utf8_def utf8_char_def Let_def)

lemma next_level_msgs: "next_level H xs = map H (pair_msgs xs)"
  by (induction H xs rule: next_level.induct) (auto simp: node_hash_def)

lemma pair_msgs_parts:
  "m \<in> set (pair_msgs xs) \<Longrightarrow> \<exists>l r. m = utf8 ''NODE:'' @ l @ r \<and> l \<in> set xs \<and> r \<in> set xs"
  by (induction xs rule: pair_msgs.induct) auto

lemma build_levels_member:
  assumes "lvl \<in> set (build_levels H xs)" and "d \<in> set lvl"
  shows "d \<in> set xs \<or>
    (\<exists>below \<in> set (butlast (build_levels H xs)). \<exists>m \<in> set (pair_msgs below). d = H m)"
  using assms
proof (induction H xs rule: build_levels.induct)
  case (1 H xs)
  show ?case
  proof (cases "1 < length xs")
    case False
    with 1 show ?thesis by (simp add: build_levels_small)
  next
    case True
    consider "lvl = xs" | "lvl \<in> set (build_levels H (next_level H xs))"
      using 1 True by (auto simp: build_levels_big)
    then show ?thesis
    proof cases
      case 2
      with 1 True have "d \<in> set (next_level H xs) \<or>
        (\<exists>below \<in> set (butlast (build_levels H (next_level H xs))). \<exists>m \<in> set (pair_msgs below). d = H m)"
        by blast
      then show ?thesis using True by (auto simp: build_levels_big next_level_msgs)
    qed (use 1 in simp)
  qed
qed

lemma climb_append:
  "climb H c (p @ q) = (case climb H c p of Inl e \<Rightarrow> Inl e | Inr d \<Rightarrow> climb H d q)"
  by (induction H c p rule: climb.induct) (auto split: option.splits)

lemma climb_msgs_append:
  "climb H c p = Inr d \<Longrightarrow> climb_msgs H c (p @ q) = climb_msgs H c p @ climb_msgs H d q"
  by (induction H c p rule: climb.induct) (auto simp: node_hash_def Let_def split: option.splits if_splits)

context digest32
begin

lemma climb_length: "length c = 32 \<Longrightarrow> climb H c p = Inr d \<Longrightarrow> length d = 32"
proof (induction p arbitrary: c)
  case (Cons st p)
  from Cons.prems(2) show ?case
    by (auto simp: node_hash_def split: option.splits if_splits intro: Cons.IH [OF length_H])
qed simp

lemma level_length:
  assumes "\<forall>x \<in> set xs. length x = 32" and "lvl \<in> set (build_levels H xs)" and "d \<in> set lvl"
  shows "length d = 32"
  using build_levels_member [OF assms(2,3)] assms(1) by auto

lemma descend:
  assumes leaf: "\<forall>x \<in> set xs. \<exists>v. x = H (leaf_msg v) \<and> leaf_msg v \<in> M"
    and nodes: "\<forall>lvl \<in> set (butlast (build_levels H xs)). set (pair_msgs lvl) \<subseteq> M"
    and c: "length c = 32"
  shows "inj_on H (M \<union> set (climb_msgs H c path)) \<Longrightarrow> climb H c path = Inr d \<Longrightarrow>
    lvl \<in> set (build_levels H xs) \<Longrightarrow> d \<in> set lvl \<Longrightarrow>
    \<exists>lvl \<in> set (build_levels H xs). c \<in> set lvl"
proof (induction path arbitrary: d lvl rule: rev_induct)
  case Nil
  then show ?case by auto
next
  case (snoc st path)
  from snoc.prems(2) obtain e sib where e: "climb H c path = Inr e"
    and sib: "fromhex (step_hash st) = Some sib"
    by (auto simp: climb_append split: sum.splits option.splits)
  define m where "m = (if side st = ''right'' then utf8 ''NODE:'' @ e @ sib else utf8 ''NODE:'' @ sib @ e)"
  have d: "d = H m"
    using snoc.prems(2) e sib by (auto simp: climb_append node_hash_def m_def split: if_splits)
  have m: "m \<in> set (climb_msgs H c (path @ [st]))"
    using climb_msgs_append [OF e] sib by (simp add: m_def Let_def)
  note inj = inj_onD [OF snoc.prems(1)]
  have len: "length e = 32" by (rule climb_length [OF c e])
  have "d \<notin> set xs"
  proof
    assume "d \<in> set xs"
    then obtain v where "d = H (leaf_msg v)" "leaf_msg v \<in> M" using leaf by blast
    with d m inj have "leaf_msg v = m" by auto
    then show False unfolding m_def by (metis leaf_neq_node)
  qed
  with build_levels_member [OF snoc.prems(3,4)] obtain below m'
    where below: "below \<in> set (butlast (build_levels H xs))" "m' \<in> set (pair_msgs below)" "d = H m'"
    by blast
  have "m = m'" using below nodes d m inj by auto
  obtain l r where lr: "m' = utf8 ''NODE:'' @ l @ r" "l \<in> set below" "r \<in> set below"
    using pair_msgs_parts [OF below(2)] by blast
  have below': "below \<in> set (build_levels H xs)" using below(1) by (rule in_set_butlastD)
  have "\<forall>x \<in> set xs. length x = 32" using leaf by auto
  then have "length l = 32" "length r = 32" using level_length [OF _ below'] lr by auto
  with \<open>m = m'\<close> lr len have "e = l \<or> e = r"
    by (auto simp: m_def append_eq_append_conv split: if_splits)
  with lr have "e \<in> set below" by auto
  moreover have "inj_on H (M \<union> set (climb_msgs H c path))"
    using snoc.prems(1) climb_msgs_append [OF e, of "[st]"] by (auto elim: inj_on_subset)
  ultimately show ?case using snoc.IH [OF _ e below'] by blast
qed

text \<open>A path that resolves a declared leaf to the root of a tree is a path of a listed name.\<close>

lemma verified_leaf_listed:
  assumes "names \<noteq> []"
    and "verify_path H (leaf_hash H v) path (bytes_hex (root (build H names))) = Inr True"
    and "inj_on H (set (tree_msgs H names) \<union> set (climb_msgs H (leaf_hash H v) path) \<union> {leaf_msg v})"
  shows "lower v \<in> lower ` set names"
proof -
  let ?xs = "leaves (build H names)" let ?M = "set (tree_msgs H names)"
  have hash: "leaf_hash H u = H (leaf_msg u)" for u by (simp add: leaf_hash_def leaf_msg_def)
  have leaf: "\<forall>x \<in> set ?xs. \<exists>u. x = H (leaf_msg u) \<and> leaf_msg u \<in> ?M"
    using assms(1) by (auto simp: build_nonempty tree_msgs_def hash simp del: set_name_list)
  have nodes: "\<forall>lvl \<in> set (butlast (build_levels H ?xs)). set (pair_msgs lvl) \<subseteq> ?M"
    by (auto simp: tree_msgs_def build_levels_of)
  obtain d where d: "climb H (leaf_hash H v) path = Inr d" "d = root (build H names)"
    using assms(2) by (auto simp: verify_path_def split: sum.splits)
  have "length (last (build_levels H ?xs)) = 1" by (rule length_last_build_levels) simp
  then have "d \<in> set (last (build_levels H ?xs))"
    using d by (metis One_nat_def build_root hd_in_set length_0_conv zero_neq_one)
  then obtain lvl where lvl: "lvl \<in> set (build_levels H ?xs)" "leaf_hash H v \<in> set lvl"
    using descend [OF leaf nodes _ _ d(1) last_in_set] assms(3)
    by (auto simp: hash elim: inj_on_subset)
  have inj: "m = leaf_msg v" if "m \<in> ?M" "H m = leaf_hash H v" for m
    using that inj_onD [OF assms(3), of m "leaf_msg v"] by (auto simp: hash)
  have "leaf_hash H v \<noteq> H m"
    if "below \<in> set (butlast (build_levels H ?xs))" "m \<in> set (pair_msgs below)" for below m
  proof
    assume eq: "leaf_hash H v = H m"
    from that nodes have "m \<in> ?M" by blast
    with inj eq have "m = leaf_msg v" by simp
    with pair_msgs_parts [OF that(2)] show False by (metis leaf_neq_node)
  qed
  then have "leaf_hash H v \<in> set ?xs" using build_levels_member [OF lvl] by blast
  then obtain u where u: "u \<in> set (name_list names)" "leaf_msg u = leaf_msg v"
    using assms(1) inj by (auto simp: build_nonempty tree_msgs_def hash simp del: set_name_list)
  then have "lower u = lower v" by (auto simp: leaf_msg_def dest: utf8_inj)
  with u(1) lower_name_list [OF u(1)] show ?thesis by simp
qed

end

text \<open>
  C11: what an accepted non-membership proof does establish. If the digest function has 32-byte
  values and does not collide on the messages hashed by building the tree and by checking the
  proof, an accepted proof names two leaves of the tree with the queried name strictly between.
\<close>

definition proof_msgs :: "(bytes \<Rightarrow> bytes) \<Rightarrow> non_membership_proof \<Rightarrow> bytes list" where
  "proof_msgs H p =
     leaf_msg (left_leaf_name p) # leaf_msg (right_leaf_name p) #
     climb_msgs H (leaf_hash H (left_leaf_name p)) (left_path p) @
     climb_msgs H (leaf_hash H (right_leaf_name p)) (right_path p)"

theorem accepted_proof_straddles:
  assumes "digest32 H" and "names \<noteq> []"
    and "inj_on H (set (tree_msgs H names) \<union> set (proof_msgs H p))"
    and "verify_non_membership H p (bytes_hex (root (build H names))) = Inr True"
  shows "lower (left_leaf_name p) \<in> set (sorted_names (build H names)) \<and>
    lower (right_leaf_name p) \<in> set (sorted_names (build H names)) \<and>
    lower (left_leaf_name p) < lower (queried_name p) \<and>
    lower (queried_name p) < lower (right_leaf_name p)"
proof -
  let ?rt = "bytes_hex (root (build H names))"
  have "left_leaf_hash p = bytes_hex (leaf_hash H (left_leaf_name p))"
    and "right_leaf_hash p = bytes_hex (leaf_hash H (right_leaf_name p))"
    using assms(4) by (auto simp: verify_non_membership_def split: if_splits)
  then have "verify_path H (leaf_hash H (left_leaf_name p)) (left_path p) ?rt = Inr True"
    and "verify_path H (leaf_hash H (right_leaf_name p)) (right_path p) ?rt = Inr True"
    and "lower (left_leaf_name p) < lower (queried_name p)"
    and "lower (queried_name p) < lower (right_leaf_name p)"
    using assms(4)
    by (auto simp: verify_non_membership_def Let_def order.strict_iff_order
          split: if_splits sum.splits option.splits)
  moreover have "inj_on H (set (tree_msgs H names) \<union> set (climb_msgs H (leaf_hash H (left_leaf_name p)) (left_path p)) \<union> {leaf_msg (left_leaf_name p)})"
    "inj_on H (set (tree_msgs H names) \<union> set (climb_msgs H (leaf_hash H (right_leaf_name p)) (right_path p)) \<union> {leaf_msg (right_leaf_name p)})"
    by (rule inj_on_subset [OF assms(3)]; auto simp: proof_msgs_def)+
  ultimately show ?thesis
    using digest32.verified_leaf_listed [OF assms(1,2)] assms(2) by (simp add: build_nonempty)
qed

text \<open>The witness uses a cheap 32-byte digest, the reversed last bytes of the message, on a two-leaf tree.\<close>

definition suffix32 :: "bytes \<Rightarrow> bytes" where
  "suffix32 m = take 32 (rev m @ replicate 32 0)"

definition sample_proof :: "non_membership_proof" where
  "sample_proof =
     (case prove_non_membership (build suffix32 [''B'', ''D'']) ''C'' of
        Inr (Some p) \<Rightarrow> p | _ \<Rightarrow> undefined)"

theorem accepted_proof_straddles_witness:
  "lower (left_leaf_name sample_proof) \<in> set (sorted_names (build suffix32 [''B'', ''D''])) \<and>
   lower (right_leaf_name sample_proof) \<in> set (sorted_names (build suffix32 [''B'', ''D''])) \<and>
   lower (left_leaf_name sample_proof) < lower (queried_name sample_proof) \<and>
   lower (queried_name sample_proof) < lower (right_leaf_name sample_proof)"
proof (rule accepted_proof_straddles)
  show "digest32 suffix32" by unfold_locales (simp add: suffix32_def)
  have "distinct (map suffix32 (remdups (tree_msgs suffix32 [''B'', ''D''] @ proof_msgs suffix32 sample_proof)))"
    by code_simp
  then show "inj_on suffix32 (set (tree_msgs suffix32 [''B'', ''D'']) \<union> set (proof_msgs suffix32 sample_proof))"
    by (simp add: distinct_map)
  show "verify_non_membership suffix32 sample_proof (bytes_hex (root (build suffix32 [''B'', ''D'']))) = Inr True"
    by code_simp
qed simp

end
