(* ===== verification/Interfaces.thy ===== *)
theory Interfaces
  imports Prelude
begin

text \<open>
  The interfaces several components share, as locales. A component is a machine: a step
  function on its state, driven by a sequence of inputs. The laws it promises are stated once
  here, with the consequences every client draws from them for whole runs; each component
  theory interprets the locale on its own step function.
\<close>

subsection \<open>Machines with an invariant\<close>

locale machine =
  fixes step :: "'s \<Rightarrow> 'a \<Rightarrow> 's" and inv :: "'s \<Rightarrow> bool"
  assumes inv_step: "inv s \<Longrightarrow> inv (step s a)"
begin

lemma inv_run: "inv s \<Longrightarrow> inv (foldl step s as)"
  by (induction as arbitrary: s) (auto intro: inv_step)

lemma inv_prefix: "inv s \<Longrightarrow> inv (foldl step s (take n as))"
  by (rule inv_run)

end

subsection \<open>Machines whose state only grows in an order\<close>

locale growing = machine step inv
  for step :: "'s \<Rightarrow> 'a \<Rightarrow> 's" and inv :: "'s \<Rightarrow> bool" +
  fixes le :: "'s \<Rightarrow> 's \<Rightarrow> bool"
  assumes le_refl: "le s s"
    and le_trans: "le s t \<Longrightarrow> le t u \<Longrightarrow> le s u"
    and le_step: "inv s \<Longrightarrow> le s (step s a)"
begin

lemma le_run: "inv s \<Longrightarrow> le s (foldl step s as)"
proof (induction as arbitrary: s)
  case Nil
  then show ?case by (simp add: le_refl)
next
  case (Cons a as)
  have "le s (step s a)" by (rule le_step [OF Cons.prems])
  moreover have "le (step s a) (foldl step (step s a) as)"
    by (rule Cons.IH [OF inv_step [OF Cons.prems]])
  ultimately show ?case by (auto intro: le_trans)
qed

end

subsection \<open>Simulation of a specification\<close>

text \<open>
  A concrete machine refines an abstract one through an abstraction function when every
  concrete step from a state satisfying the invariant is the abstract step on the abstraction.
\<close>

locale refinement = machine step inv
  for step :: "'s \<Rightarrow> 'a \<Rightarrow> 's" and inv :: "'s \<Rightarrow> bool" +
  fixes abs :: "'s \<Rightarrow> 't" and spec :: "'t \<Rightarrow> 'a \<Rightarrow> 't"
  assumes abs_step: "inv s \<Longrightarrow> abs (step s a) = spec (abs s) a"
begin

lemma abs_run: "inv s \<Longrightarrow> abs (foldl step s as) = foldl spec (abs s) as"
  by (induction as arbitrary: s) (auto simp: abs_step inv_step)

end

end
