(* ===== verification/Fixtures.thy ===== *)
theory Fixtures
  imports PyFloat PyText Merkle Interfaces
begin

text \<open>
  The signed fixture file with the sanctions lists and the AML indicators
  (core/features/compliance/fixtures_loader.py) and the Merkle tree cached over its lists
  (get_sanctions_tree in core/features/zkp/merkle.py). What the loader finds on disk and in the
  environment at one call is a record; the Ed25519 check of the cryptography package and the
  JSON decoder are arguments.
\<close>

subsection \<open>The loader\<close>

type_synonym document = "(string \<times> json) list"

text \<open>
  \<open>fs_mtime = None\<close>: the file does not exist. \<open>fs_raw = None\<close>: reading it fails. \<open>fs_signature = None\<close>:
  there is no signature file. \<open>fs_pubkey_hex\<close> is the environment variable, empty when unset.
\<close>

record file_state =
  fs_mtime :: "rat option"
  fs_raw :: "bytes option"
  fs_pubkey_hex :: string
  fs_signature :: "bytes option"

record fixture_cache =
  cached_data :: document
  cached_mtime :: "rat option"

definition empty_cache :: fixture_cache where
  "empty_cache = \<lparr>cached_data = [], cached_mtime = None\<rparr>"

text \<open>\<open>ed key sig raw\<close>: the signature is valid; \<open>False\<close> covers \<open>InvalidSignature\<close> and every other exception.\<close>

definition verify_signature :: "(bytes \<Rightarrow> bytes \<Rightarrow> bytes \<Rightarrow> bool) \<Rightarrow> file_state \<Rightarrow> bytes \<Rightarrow> bool" where
  "verify_signature ed fs raw =
     (let pubkey_hex = strip (fs_pubkey_hex fs) in
      if pubkey_hex = [] then True
      else case fs_signature fs of
             None \<Rightarrow> False
           | Some sig \<Rightarrow>
               (case fromhex pubkey_hex of None \<Rightarrow> False | Some key \<Rightarrow> ed key sig raw))"

text \<open>A document that is not an object counts as the empty one.\<close>

definition dict_of :: "json \<Rightarrow> document" where
  "dict_of j = (case j of JObj kvs \<Rightarrow> kvs | _ \<Rightarrow> [])"

text \<open>\<open>decode\<close> is \<open>json.loads(raw.decode("utf-8-sig"))\<close>, \<open>None\<close> when it raises.\<close>

definition read_fixtures ::
    "(bytes \<Rightarrow> bytes \<Rightarrow> bytes \<Rightarrow> bool) \<Rightarrow> (bytes \<Rightarrow> json option) \<Rightarrow> fixture_cache \<Rightarrow> file_state \<Rightarrow>
     fixture_cache \<times> document" where
  "read_fixtures ed decode c fs =
     (case fs_mtime fs of
        None \<Rightarrow> (c, cached_data c)
      | Some mtime \<Rightarrow>
          if cached_mtime c = Some mtime \<and> cached_data c \<noteq> [] then (c, cached_data c)
          else case fs_raw fs of
                 None \<Rightarrow> (c, cached_data c)
               | Some raw \<Rightarrow>
                   if \<not> verify_signature ed fs raw then (c, cached_data c)
                   else case decode raw of
                          None \<Rightarrow> (c, cached_data c)
                        | Some j \<Rightarrow>
                            (\<lparr>cached_data = dict_of j, cached_mtime = Some mtime\<rparr>, dict_of j))"

definition get_sanctions_lists :: "document \<Rightarrow> (string \<times> json) list" where
  "get_sanctions_lists d = (case map_of d ''sanctions_lists'' of Some (JObj kvs) \<Rightarrow> kvs | _ \<Rightarrow> [])"

definition get_participants :: "document \<Rightarrow> json list" where
  "get_participants d = (case map_of d ''participants'' of Some (JList js) \<Rightarrow> js | _ \<Rightarrow> [])"

definition invalidate_cache :: "fixture_cache \<Rightarrow> fixture_cache" where
  "invalidate_cache c = empty_cache"

subsection \<open>The sanctions tree\<close>

text \<open>The names of the lists; the lists of the file hold strings.\<close>

definition list_names :: "json \<Rightarrow> string list" where
  "list_names j = (case j of JList es \<Rightarrow> concat (map (\<lambda>e. case e of JStr s \<Rightarrow> [s] | _ \<Rightarrow> []) es) | _ \<Rightarrow> [])"

definition all_names :: "document \<Rightarrow> string list" where
  "all_names d = concat (map (list_names \<circ> snd) (get_sanctions_lists d))"

text \<open>\<open>doc\<close> is what \<open>load_fixtures\<close> would return now; it is read only when no tree is cached.\<close>

definition get_sanctions_tree ::
    "(bytes \<Rightarrow> bytes) \<Rightarrow> merkle_tree option \<Rightarrow> document \<Rightarrow> merkle_tree option \<times> merkle_tree" where
  "get_sanctions_tree H cached doc =
     (case cached of
        Some t \<Rightarrow> (cached, t)
      | None \<Rightarrow> let t = build H (all_names doc) in (Some t, t))"

definition invalidate_sanctions_cache :: "merkle_tree option \<Rightarrow> merkle_tree option" where
  "invalidate_sanctions_cache cached = None"

subsection \<open>Only verified documents are served\<close>

text \<open>
  A document is trusted for a key when it is the decoded content of some bytes that carry a
  valid signature under that key.
\<close>

definition trusted :: "(bytes \<Rightarrow> bytes \<Rightarrow> bytes \<Rightarrow> bool) \<Rightarrow> (bytes \<Rightarrow> json option) \<Rightarrow> bytes \<Rightarrow> document \<Rightarrow> bool" where
  "trusted ed decode key d \<longleftrightarrow>
     d = [] \<or> (\<exists>raw sig j. ed key sig raw \<and> decode raw = Some j \<and> d = dict_of j)"

definition fixture_step ::
    "(bytes \<Rightarrow> bytes \<Rightarrow> bytes \<Rightarrow> bool) \<Rightarrow> (bytes \<Rightarrow> json option) \<Rightarrow> string \<Rightarrow> fixture_cache \<Rightarrow> file_state \<Rightarrow> fixture_cache" where
  "fixture_step ed decode pubkey c fs = fst (read_fixtures ed decode c (fs\<lparr>fs_pubkey_hex := pubkey\<rparr>))"

definition fixture_inv ::
    "(bytes \<Rightarrow> bytes \<Rightarrow> bytes \<Rightarrow> bool) \<Rightarrow> (bytes \<Rightarrow> json option) \<Rightarrow> string \<Rightarrow> fixture_cache \<Rightarrow> bool" where
  "fixture_inv ed decode pubkey c \<longleftrightarrow>
     (strip pubkey \<noteq> [] \<longrightarrow>
        cached_data c = [] \<or> (\<exists>key. fromhex (strip pubkey) = Some key \<and> trusted ed decode key (cached_data c)))"

lemma read_fixtures_served: "read_fixtures ed decode c fs = (c', d) \<Longrightarrow> d = cached_data c'"
  by (auto simp: read_fixtures_def Let_def split: option.splits if_splits)

lemma read_fixtures_changed:
  "fst (read_fixtures ed decode c fs) = c \<or>
   (\<exists>raw j. verify_signature ed fs raw \<and> decode raw = Some j \<and>
      cached_data (fst (read_fixtures ed decode c fs)) = dict_of j)"
  by (auto simp: read_fixtures_def split: option.splits)

lemma verify_signature_key:
  "verify_signature ed fs raw \<Longrightarrow> strip (fs_pubkey_hex fs) \<noteq> [] \<Longrightarrow>
     \<exists>key sig. fromhex (strip (fs_pubkey_hex fs)) = Some key \<and> ed key sig raw"
  by (auto simp: verify_signature_def Let_def split: option.splits)

lemma fixture_step_inv:
  assumes "fixture_inv ed decode pubkey c"
  shows "fixture_inv ed decode pubkey (fixture_step ed decode pubkey c fs)"
proof (cases "strip pubkey = []")
  case True
  then show ?thesis by (simp add: fixture_inv_def)
next
  case False
  let ?fs = "fs\<lparr>fs_pubkey_hex := pubkey\<rparr>"
  show ?thesis
  proof (cases "fst (read_fixtures ed decode c ?fs) = c")
    case True
    then show ?thesis using assms by (simp add: fixture_step_def)
  next
    case changed: False
    then obtain raw j where j: "verify_signature ed ?fs raw" "decode raw = Some j"
        "cached_data (fst (read_fixtures ed decode c ?fs)) = dict_of j"
      using read_fixtures_changed by blast
    moreover obtain key sig where key: "fromhex (strip pubkey) = Some key" "ed key sig raw"
      using verify_signature_key [OF j(1)] False by auto
    ultimately have "trusted ed decode key (dict_of j)" unfolding trusted_def by blast
    with j key show ?thesis by (auto simp: fixture_inv_def fixture_step_def)
  qed
qed

interpretation fixtures: machine "fixture_step ed decode pubkey" "fixture_inv ed decode pubkey" for ed decode pubkey
  by unfold_locales (rule fixture_step_inv)

text \<open>
  C13: with a verification key configured, whatever happens to the files between calls, every
  document the loader serves is empty or was decoded from bytes with a valid signature under
  that key; a malformed key lets nothing through.
\<close>

theorem fixtures_only_verified:
  assumes "strip pubkey \<noteq> []"
    and "read_fixtures ed decode (foldl (fixture_step ed decode pubkey) empty_cache states)
           (fs\<lparr>fs_pubkey_hex := pubkey\<rparr>) = (c', d)"
  shows "d = [] \<or> (\<exists>key. fromhex (strip pubkey) = Some key \<and> trusted ed decode key d)"
proof -
  have "fixture_inv ed decode pubkey (foldl (fixture_step ed decode pubkey) empty_cache (states @ [fs]))"
    by (rule fixtures.inv_run) (simp add: fixture_inv_def empty_cache_def)
  then have "fixture_inv ed decode pubkey c'" using assms(2) by (simp add: fixture_step_def)
  then show ?thesis using assms(1) read_fixtures_served [OF assms(2)] by (simp add: fixture_inv_def)
qed

definition sample_document :: json where
  "sample_document = JObj [(''sanctions_lists'', JObj [(''UK_HMT'', JList [JStr ''Ivan Drago''])])]"

theorem fixtures_only_verified_witness:
  "\<exists>key. fromhex (strip ''0a'') = Some key \<and>
     trusted (\<lambda>key sig raw. sig = key) (\<lambda>raw. Some sample_document) key
       [(''sanctions_lists'', JObj [(''UK_HMT'', JList [JStr ''Ivan Drago''])])]"
proof -
  let ?fs = "\<lparr>fs_mtime = Some 1, fs_raw = Some [1], fs_pubkey_hex = [], fs_signature = Some [10]\<rparr>"
  let ?d = "[(''sanctions_lists'', JObj [(''UK_HMT'', JList [JStr ''Ivan Drago''])])]"
  have "read_fixtures (\<lambda>key sig raw. sig = key) (\<lambda>raw. Some sample_document)
      (foldl (fixture_step (\<lambda>key sig raw. sig = key) (\<lambda>raw. Some sample_document) ''0a'') empty_cache [])
      (?fs\<lparr>fs_pubkey_hex := ''0a''\<rparr>) = (\<lparr>cached_data = ?d, cached_mtime = Some 1\<rparr>, ?d)"
    by (simp add: read_fixtures_def verify_signature_def empty_cache_def strip_def is_space_def hex_val_def
        is_ascii_space_def sample_document_def dict_of_def)
  from fixtures_only_verified [OF _ this] show ?thesis by (simp add: strip_def is_space_def)
qed

text \<open>
  The tree over the sanctions lists is built once. After the first call every later call
  returns that tree, whatever the lists have become since, until the cache is invalidated.
\<close>

theorem sanctions_tree_stale:
  assumes "get_sanctions_tree H None d0 = (c, t)"
  shows "snd (foldl (\<lambda>(c, t) d. get_sanctions_tree H c d) (c, t) ds) = build H (all_names d0) \<and>
    snd (get_sanctions_tree H (invalidate_sanctions_cache c) d) = build H (all_names d)"
proof -
  have c: "c = Some t" and t: "t = build H (all_names d0)"
    using assms by (auto simp: get_sanctions_tree_def Let_def)
  have "foldl (\<lambda>(c, t) d. get_sanctions_tree H c d) (Some t, t) ds = (Some t, t)"
    by (induction ds) (simp_all add: get_sanctions_tree_def)
  then show ?thesis by (simp add: c t get_sanctions_tree_def invalidate_sanctions_cache_def Let_def)
qed

theorem sanctions_tree_stale_witness:
  "snd (get_sanctions_tree sha256 (fst (get_sanctions_tree sha256 None [])) [(''sanctions_lists'', JObj [(''UK_HMT'', JList [JStr ''Ivan Drago''])])]) =
     build sha256 (all_names [])"
  using sanctions_tree_stale [OF prod.collapse [symmetric], where H = sha256 and d0 = "[]"
      and ds = "[[(''sanctions_lists'', JObj [(''UK_HMT'', JList [JStr ''Ivan Drago''])])]]"]
  by (simp add: get_sanctions_tree_def Let_def)
end
