(* ===== verification/Compliance.thy ===== *)
theory Compliance
  imports PyFloat PyText Access
begin

text \<open>
  The compliance engine (core/features/compliance): KYC verification, sanctions screening, AML
  scoring, MiCA rules, suspicious-activity reports, the orchestration \<open>full_check\<close> and the
  endpoints that maintain the compliance records. The database is a record of tables; an
  operation returns the new tables beside its result or error, since some raise after a commit.
  The clock, the measured duration, the caller's address, the drawn UUIDs and random bytes, the
  Redis counter and the string-similarity function of the rapidfuzz package are arguments.
  Commits succeed, up to the uniqueness of the report reference, which is checked.
\<close>

subsection \<open>Constants (core/constants.py)\<close>

definition MAX_AML_SCORE :: rat where "MAX_AML_SCORE = rnd (60 / 100)"
definition SAR_THRESHOLD :: rat where "SAR_THRESHOLD = rnd (75 / 100)"
definition KYC_RENEWAL_DAYS :: nat where "KYC_RENEWAL_DAYS = 30"
definition KYC_REQUIRED_LEVEL :: int where "KYC_REQUIRED_LEVEL = 3"
definition MICA_IDENTIFICATION_THRESHOLD :: rat where "MICA_IDENTIFICATION_THRESHOLD = 1000"
definition AML_HIGH_AMOUNT_BONUS_1 :: rat where "AML_HIGH_AMOUNT_BONUS_1 = rnd (10 / 100)"
definition AML_HIGH_AMOUNT_BONUS_1_THRESHOLD :: rat where "AML_HIGH_AMOUNT_BONUS_1_THRESHOLD = 25000000"
definition AML_HIGH_AMOUNT_BONUS_2 :: rat where "AML_HIGH_AMOUNT_BONUS_2 = rnd (5 / 100)"
definition AML_HIGH_AMOUNT_BONUS_2_THRESHOLD :: rat where "AML_HIGH_AMOUNT_BONUS_2_THRESHOLD = 5000000"
definition SANCTION_MATCH_THRESHOLD :: rat where "SANCTION_MATCH_THRESHOLD = 85"

subsection \<open>Tables\<close>

text \<open>\<open>t + timedelta(days=n)\<close> for dates that stay below the year 9999.\<close>

definition plus_days :: "nat \<Rightarrow> datetime \<Rightarrow> datetime" where
  "plus_days n t = (next_day ^^ n) t"

record compliance_record =
  cr_id :: uuid
  cr_participant_id :: uuid
  cr_kyc_status :: string
  cr_kyc_level :: int
  cr_aml_score :: rat
  cr_risk_category :: string
  cr_sanctions_hit :: bool
  cr_pep_status :: bool
  cr_checked_by :: "uuid option"
  cr_approved_by :: "uuid option"
  cr_check_date :: "datetime option"
  cr_expires_at :: datetime
  cr_notes :: "string option"
  cr_created_at :: datetime

definition cr_is_expired :: "datetime \<Rightarrow> compliance_record \<Rightarrow> bool" where
  "cr_is_expired now r \<longleftrightarrow> \<not> dt_less now (cr_expires_at r)"

definition needs_renewal :: "datetime \<Rightarrow> compliance_record \<Rightarrow> bool" where
  "needs_renewal now r \<longleftrightarrow> cr_is_expired now r \<or> cr_kyc_status r = ''EXPIRE''"

record sar_report =
  sar_ref :: string
  sar_transaction_id :: "uuid option"
  sar_reported_user_id :: uuid
  sar_reporting_officer :: uuid
  sar_reason_code :: string
  sar_amount :: xfloat
  sar_submission_date :: "datetime option"
  sar_status :: string

datatype reason =
    KycMissing uuid
  | KycExpired datetime
  | KycLevelTooLow int int
  | KycConform
  | SanctionsMatch
  | AmlScoreTooHigh rat
  | MicaFailed

record audit_log =
  al_user_id :: uuid
  al_endpoint :: string
  al_http_method :: string
  al_ip_address :: string
  al_request_body :: "reason option"
  al_response_code :: nat
  al_duration_ms :: int

record network_event =
  ne_event_name :: string
  ne_asset_id :: string
  ne_amount :: xfloat
  ne_compliant :: bool
  ne_art68_triggered :: bool

record kyc_document =
  kd_user_id :: uuid
  kd_document_type :: string
  kd_file_hash :: string
  kd_document_number :: "string option"
  kd_issuing_country :: "string option"
  kd_verified :: bool

record organization =
  org_id :: uuid
  org_code :: string
  org_lei :: "string option"
  org_legal_name :: string
  org_msp_id :: string
  org_country_code :: "string option"
  org_is_active :: bool

record compliance_db =
  cdb_records :: "compliance_record list"
  cdb_sars :: "sar_report list"
  cdb_audit :: "audit_log list"
  cdb_events :: "network_event list"
  cdb_documents :: "kyc_document list"
  cdb_users :: "user list"
  cdb_orgs :: "organization list"

text \<open>\<open>select ... where participant_id = u order by created_at desc limit 1\<close>.\<close>

definition latest_record :: "compliance_db \<Rightarrow> uuid \<Rightarrow> compliance_record option" where
  "latest_record db u =
     latest (\<lambda>r. dt_key (cr_created_at r)) (filter (\<lambda>r. cr_participant_id r = u) (cdb_records db))"

subsection \<open>KYC (kyc.py)\<close>

record kyc_result =
  kyc_approved :: bool
  kyc_res_level :: int
  kyc_res_status :: string
  kyc_res_expires_at :: datetime
  kyc_reason :: reason
  kyc_needs_renewal :: bool

definition kyc_verify :: "compliance_db \<Rightarrow> datetime \<Rightarrow> uuid \<Rightarrow> int \<Rightarrow> reason + kyc_result" where
  "kyc_verify db now u required_level =
     (case latest_record db u of
        None \<Rightarrow> Inl (KycMissing u)
      | Some r \<Rightarrow>
          if dt_less (cr_expires_at r) now
          then Inr \<lparr>kyc_approved = False, kyc_res_level = cr_kyc_level r, kyc_res_status = cr_kyc_status r,
                    kyc_res_expires_at = cr_expires_at r, kyc_reason = KycExpired (cr_expires_at r),
                    kyc_needs_renewal = True\<rparr>
          else
            let renewal_threshold = plus_days KYC_RENEWAL_DAYS now in
            if cr_kyc_level r < required_level
            then Inr \<lparr>kyc_approved = False, kyc_res_level = cr_kyc_level r, kyc_res_status = cr_kyc_status r,
                      kyc_res_expires_at = cr_expires_at r,
                      kyc_reason = KycLevelTooLow (cr_kyc_level r) required_level,
                      kyc_needs_renewal = dt_less (cr_expires_at r) renewal_threshold\<rparr>
            else Inr \<lparr>kyc_approved = True, kyc_res_level = cr_kyc_level r, kyc_res_status = cr_kyc_status r,
                      kyc_res_expires_at = cr_expires_at r, kyc_reason = KycConform,
                      kyc_needs_renewal = dt_less (cr_expires_at r) renewal_threshold\<rparr>)"

definition get_documents :: "compliance_db \<Rightarrow> uuid \<Rightarrow> kyc_document list" where
  "get_documents db u = filter (\<lambda>d. kd_user_id d = u) (cdb_documents db)"

subsection \<open>Sanctions (sanctions.py)\<close>

record sanction_match =
  sm_list_name :: string
  sm_matched_name :: string
  sm_match_score :: rat
  sm_pep_level :: "nat option"

record sanctions_result =
  sr_hit :: bool
  sr_matches :: "sanction_match list"
  sr_screened_lists :: "string list"

definition lists_to_check :: "string list" where
  "lists_to_check =
     [''OFAC_SDN'', ''UN_CONSOLIDATED'', ''EU_CONSOLIDATED'', ''UK_HMT'',
      ''PEP_LEVEL_1'', ''PEP_LEVEL_2'', ''PEP_LEVEL_3'']"

definition pep_level :: "string \<Rightarrow> nat option" where
  "pep_level list_name = (if contains list_name ''PEP'' then digit_val (last list_name) else None)"

text \<open>
  The candidates of one list: an exact match (case-insensitive) ends the scan of the list, a
  ratio above the threshold is recorded and the scan goes on. \<open>ratio\<close> is \<open>rapidfuzz.fuzz.ratio\<close>.
\<close>

fun scan_list :: "(string \<Rightarrow> string \<Rightarrow> rat) \<Rightarrow> string \<Rightarrow> string \<Rightarrow> string list \<Rightarrow> sanction_match list" where
  "scan_list ratio list_name nm [] = []"
| "scan_list ratio list_name nm (c # cs) =
     (if nm = lower c
      then [\<lparr>sm_list_name = list_name, sm_matched_name = c, sm_match_score = 100, sm_pep_level = pep_level list_name\<rparr>]
      else let r = ratio nm (lower c) in
        if r > SANCTION_MATCH_THRESHOLD
        then \<lparr>sm_list_name = list_name, sm_matched_name = c, sm_match_score = r, sm_pep_level = pep_level list_name\<rparr>
             # scan_list ratio list_name nm cs
        else scan_list ratio list_name nm cs)"

definition screen ::
    "(string \<Rightarrow> string \<Rightarrow> rat) \<Rightarrow> (string \<rightharpoonup> string list) \<Rightarrow> string \<Rightarrow> sanctions_result" where
  "screen ratio sdb full_name =
     (let ms = concat (map (\<lambda>l. scan_list ratio l (lower full_name) (case sdb l of None \<Rightarrow> [] | Some cs \<Rightarrow> cs))
                         lists_to_check)
      in \<lparr>sr_hit = (ms \<noteq> []), sr_matches = ms, sr_screened_lists = lists_to_check\<rparr>)"

subsection \<open>AML (aml.py)\<close>

text \<open>A participant of the fixture file, with the indicators that are present.\<close>

record participant =
  pt_user_id :: string
  pt_jurisdiction_risk :: "xfloat option"
  pt_cross_border_activity :: "xfloat option"
  pt_unusual_volume :: "xfloat option"

record aml_indicators =
  jurisdiction_risk :: xfloat
  cross_border_activity :: xfloat
  unusual_volume :: xfloat

record aml_result =
  aml_score :: rat
  aml_risk_category :: string
  aml_blocked :: bool
  aml_blocked_reason :: "reason option"
  aml_sar_required :: bool

definition default_indicator :: xfloat where
  "default_indicator = Fin (rnd (5 / 100))"

definition indicator :: "xfloat option \<Rightarrow> xfloat" where
  "indicator v = (case v of None \<Rightarrow> default_indicator | Some x \<Rightarrow> x)"

fun load_indicators :: "participant list \<Rightarrow> string \<Rightarrow> aml_indicators" where
  "load_indicators [] target =
     \<lparr>jurisdiction_risk = default_indicator, cross_border_activity = default_indicator,
      unusual_volume = default_indicator\<rparr>"
| "load_indicators (p # ps) target =
     (if lower (pt_user_id p) = target
      then \<lparr>jurisdiction_risk = indicator (pt_jurisdiction_risk p),
            cross_border_activity = indicator (pt_cross_border_activity p),
            unusual_volume = indicator (pt_unusual_volume p)\<rparr>
      else load_indicators ps target)"

definition raw_score :: "aml_indicators \<Rightarrow> xfloat \<Rightarrow> xfloat" where
  "raw_score ind amount =
     (let raw = xadd (xadd (xscale (rnd (3 / 10)) (jurisdiction_risk ind))
                           (xscale (rnd (4 / 10)) (cross_border_activity ind)))
                     (xscale (rnd (3 / 10)) (unusual_volume ind))
      in if xgt amount AML_HIGH_AMOUNT_BONUS_1_THRESHOLD then xadd raw (Fin AML_HIGH_AMOUNT_BONUS_1)
         else if xgt amount AML_HIGH_AMOUNT_BONUS_2_THRESHOLD then xadd raw (Fin AML_HIGH_AMOUNT_BONUS_2)
         else raw)"

definition clamp_score :: "xfloat \<Rightarrow> rat" where
  "clamp_score x = (case x of Fin r \<Rightarrow> max 0 (min 1 r) | _ \<Rightarrow> 1)"

definition final_score :: "aml_indicators \<Rightarrow> xfloat \<Rightarrow> rat" where
  "final_score ind amount = round4 (clamp_score (raw_score ind amount))"

definition risk_category_of :: "rat \<Rightarrow> string" where
  "risk_category_of s =
     (if s < rnd (30 / 100) then ''FAIBLE''
      else if s < MAX_AML_SCORE then ''MOYEN''
      else if s \<le> SAR_THRESHOLD then ''ELEVE''
      else ''CRITIQUE'')"

text \<open>A double stored in a \<open>Numeric(5, 4)\<close> column.\<close>

definition numeric4 :: "rat \<Rightarrow> rat" where
  "numeric4 x = of_int (round_even (x * 10000)) / 10000"

definition aml_score_op ::
    "participant list \<Rightarrow> compliance_db \<Rightarrow> uuid \<Rightarrow> xfloat \<Rightarrow> compliance_db \<times> aml_result" where
  "aml_score_op parts db u amount =
     (let s = final_score (load_indicators parts (lower (uuid_str u))) amount;
          category = risk_category_of s;
          db' = (if s > rnd (40 / 100) then
                   (case latest_record db u of
                      None \<Rightarrow> db
                    | Some r \<Rightarrow> db\<lparr>cdb_records := update_where (\<lambda>x. cr_id x = cr_id r)
                        (\<lambda>x. x\<lparr>cr_aml_score := numeric4 s, cr_risk_category := category\<rparr>) (cdb_records db)\<rparr>)
                 else db)
      in (db', \<lparr>aml_score = s, aml_risk_category = category, aml_blocked = (s > MAX_AML_SCORE),
                aml_blocked_reason = (if s > MAX_AML_SCORE then Some (AmlScoreTooHigh s) else None),
                aml_sar_required = (s > SAR_THRESHOLD)\<rparr>))"

subsection \<open>MiCA (rules_mica.py)\<close>

record mica_violation =
  mv_article :: string
  mv_blocking :: bool

record mica_result =
  mica_compliant :: bool
  mica_violations :: "mica_violation list"
  mica_identification_required :: bool

definition mica_check ::
    "compliance_db \<Rightarrow> xfloat \<Rightarrow> string \<Rightarrow> string \<Rightarrow> compliance_db \<times> mica_result" where
  "mica_check db amount asset_id asset_type =
     (let ident = xgt amount MICA_IDENTIFICATION_THRESHOLD;
          violations = (if asset_type \<in> {''OBLIGATION'', ''DERIVE''} \<and> \<not> starts_with asset_id ''RWA-''
                        then [\<lparr>mv_article = ''ART76'', mv_blocking = False\<rparr>] else []);
          compliant = (\<not> list_ex mv_blocking violations)
      in (db\<lparr>cdb_events := cdb_events db @
               [\<lparr>ne_event_name = ''MICA_VERIFICATION'', ne_asset_id = asset_id, ne_amount = amount,
                 ne_compliant = compliant, ne_art68_triggered = ident\<rparr>]\<rparr>,
          \<lparr>mica_compliant = compliant, mica_violations = violations, mica_identification_required = ident\<rparr>))"

subsection \<open>Suspicious-activity reports (sar_reporter.py)\<close>

definition resolve_compliance_officer :: "compliance_db \<Rightarrow> uuid \<Rightarrow> uuid" where
  "resolve_compliance_officer db u =
     (case filter (\<lambda>x. user_role x = ''COMPLIANCE_OFFICER'' \<and> user_is_active x) (cdb_users db) of
        [] \<Rightarrow> u | x # _ \<Rightarrow> user_id x)"

definition resolve_org_code :: "compliance_db \<Rightarrow> uuid \<Rightarrow> string" where
  "resolve_org_code db u =
     (case [org_code o'. x \<leftarrow> cdb_users db, user_id x = u, o' \<leftarrow> cdb_orgs db, org_id o' = user_org_id x] of
        [] \<Rightarrow> ''UNK'' | c # _ \<Rightarrow> take 20 (if c = [] then ''UNK'' else c))"

definition pad4 :: "nat \<Rightarrow> string" where
  "pad4 n = (let s = dec_nat n in replicate (4 - length s) CHR ''0'' @ s)"

text \<open>
  \<open>counter\<close> is what Redis \<open>INCR\<close> returned, \<open>None\<close> when Redis is unavailable; \<open>tail3\<close> are the three
  random bytes. A reference that is already in the table violates its unique constraint, the reported
  user is a foreign key, and the database refuses a text that is longer than its column or an amount
  beyond \<open>NUMERIC(20, 4)\<close>.
\<close>

definition sar_reference :: "compliance_db \<Rightarrow> datetime \<Rightarrow> nat option \<Rightarrow> bytes \<Rightarrow> uuid \<Rightarrow> string" where
  "sar_reference db now counter tail3 u =
     ''TMA-'' @ dec_nat (dt_year now) @ ''-'' @ bytes_hex tail3 @ ''-'' @
     pad4 (case counter of None \<Rightarrow> 0 | Some n \<Rightarrow> n) @ ''-'' @ resolve_org_code db u"

definition user_exists :: "compliance_db \<Rightarrow> uuid \<Rightarrow> bool" where
  "user_exists db u \<longleftrightarrow> u \<in> user_id ` set (cdb_users db)"

definition sar_fits :: "string \<Rightarrow> string \<Rightarrow> xfloat \<Rightarrow> bool" where
  "sar_fits ref reason_code amount \<longleftrightarrow>
     length ref \<le> 50 \<and> length reason_code \<le> 20 \<and>
     (case amount of Fin x \<Rightarrow> floor (\<bar>x\<bar> * 10 ^ 4 + 1 / 2) < 10 ^ 20 | NaN \<Rightarrow> True | _ \<Rightarrow> False)"

definition sar_generate ::
    "compliance_db \<Rightarrow> datetime \<Rightarrow> nat option \<Rightarrow> bytes \<Rightarrow> uuid \<Rightarrow> uuid option \<Rightarrow> string \<Rightarrow> xfloat \<Rightarrow>
     (compliance_db \<times> string) option" where
  "sar_generate db now counter tail3 u tx reason_code amount =
     (let ref = sar_reference db now counter tail3 u in
      if ref \<in> sar_ref ` set (cdb_sars db) \<or> \<not> sar_fits ref reason_code amount \<or> \<not> user_exists db u then None
      else Some (db\<lparr>cdb_sars := cdb_sars db @
             [\<lparr>sar_ref = ref, sar_transaction_id = tx, sar_reported_user_id = u,
               sar_reporting_officer = resolve_compliance_officer db u, sar_reason_code = reason_code,
               sar_amount = amount, sar_submission_date = None, sar_status = ''DRAFT''\<rparr>]\<rparr>, ref))"

definition sar_get_active :: "compliance_db \<Rightarrow> sar_report list" where
  "sar_get_active db = filter (\<lambda>r. sar_status r = ''DRAFT'') (cdb_sars db)"

text \<open>\<open>close\<close>: \<open>scalar_one\<close> raises (\<open>None\<close>) unless there is exactly one report with the reference.\<close>

definition sar_close :: "compliance_db \<Rightarrow> datetime \<Rightarrow> string \<Rightarrow> (compliance_db \<times> sar_report) option" where
  "sar_close db now ref =
     (case scalar_one_or_none (filter (\<lambda>r. sar_ref r = ref) (cdb_sars db)) of
        OneRow r \<Rightarrow>
          let r' = r\<lparr>sar_status := ''SOUMIS'', sar_submission_date := Some now\<rparr>
          in Some (db\<lparr>cdb_sars := update_where (\<lambda>x. sar_ref x = ref) (\<lambda>_. r') (cdb_sars db)\<rparr>, r')
      | _ \<Rightarrow> None)"

subsection \<open>Orchestration (service.py)\<close>

text \<open>What the check reads from outside the database.\<close>

record compliance_env =
  env_now :: datetime
  env_ip :: string
  env_duration_ms :: int
  env_random :: bytes
  env_counter :: "nat option"
  env_ratio :: "string \<Rightarrow> string \<Rightarrow> rat"
  env_sanctions :: "string \<rightharpoonup> string list"
  env_participants :: "participant list"

record compliance_result =
  res_approved :: bool
  res_blocked_by :: "string option"
  res_blocking_reason :: "reason option"
  res_kyc :: "kyc_result option"
  res_aml :: "aml_result option"
  res_mica :: "mica_result option"
  res_sanctions :: "sanctions_result option"
  res_sar_reference :: "string option"

datatype compliance_error = NoKycRecord reason | SarNotStored

definition log_block :: "compliance_env \<Rightarrow> compliance_db \<Rightarrow> uuid \<Rightarrow> string \<Rightarrow> reason \<Rightarrow> compliance_db" where
  "log_block env db u action why =
     db\<lparr>cdb_audit := cdb_audit db @
       [\<lparr>al_user_id = u, al_endpoint = ''/'' @ action, al_http_method = ''BLOCK'', al_ip_address = env_ip env,
         al_request_body = Some why, al_response_code = 403, al_duration_ms = env_duration_ms env\<rparr>]\<rparr>"

definition log_pass :: "compliance_env \<Rightarrow> compliance_db \<Rightarrow> uuid \<Rightarrow> compliance_db" where
  "log_pass env db u =
     db\<lparr>cdb_audit := cdb_audit db @
       [\<lparr>al_user_id = u, al_endpoint = ''COMPLIANCE_PASS'', al_http_method = ''VERIFY'', al_ip_address = env_ip env,
         al_request_body = None, al_response_code = 200, al_duration_ms = env_duration_ms env\<rparr>]\<rparr>"

definition blocked_result ::
    "string \<Rightarrow> reason \<Rightarrow> kyc_result \<Rightarrow> aml_result option \<Rightarrow> mica_result option \<Rightarrow> sanctions_result option \<Rightarrow>
     string option \<Rightarrow> compliance_result" where
  "blocked_result who why k a m s ref =
     \<lparr>res_approved = False, res_blocked_by = Some who, res_blocking_reason = Some why,
      res_kyc = Some k, res_aml = a, res_mica = m, res_sanctions = s, res_sar_reference = ref\<rparr>"

definition full_check ::
    "compliance_env \<Rightarrow> compliance_db \<Rightarrow> uuid \<Rightarrow> xfloat \<Rightarrow> string \<Rightarrow> string \<Rightarrow> string \<Rightarrow>
     compliance_db \<times> (compliance_error + compliance_result)" where
  "full_check env db u amount asset_id asset_type full_name =
     (case kyc_verify db (env_now env) u KYC_REQUIRED_LEVEL of
        Inl why \<Rightarrow> (log_block env db u ''COMPLIANCE_BLOCK'' why, Inl (NoKycRecord why))
      | Inr k \<Rightarrow>
          if \<not> kyc_approved k
          then (log_block env db u ''COMPLIANCE_BLOCK'' (kyc_reason k),
                Inr (blocked_result ''KYC'' (kyc_reason k) k None None None None))
          else let s = screen (env_ratio env) (env_sanctions env) full_name in
            if sr_hit s
            then (log_block env db u ''COMPLIANCE_BLOCK'' SanctionsMatch,
                  Inr (blocked_result ''SANCTIONS'' SanctionsMatch k None None (Some s) None))
            else (case aml_score_op (env_participants env) db u amount of
              (db1, a) \<Rightarrow>
                if aml_blocked a then
                  let why = (case aml_blocked_reason a of Some w \<Rightarrow> w | None \<Rightarrow> AmlScoreTooHigh 0) in
                  (case (if aml_sar_required a
                         then map_option (\<lambda>(d, r). (d, Some r))
                                (sar_generate db1 (env_now env) (env_counter env) (env_random env) u None
                                   ''AML_CRITICAL_THRESHOLD'' amount)
                         else Some (db1, None)) of
                     None \<Rightarrow> (db1, Inl SarNotStored)
                   | Some (db2, ref) \<Rightarrow>
                       (log_block env db2 u ''COMPLIANCE_BLOCK'' why,
                        Inr (blocked_result ''AML'' why k (Some a) None (Some s) ref)))
                else (case mica_check db1 amount asset_id asset_type of
                  (db2, m) \<Rightarrow>
                    if \<not> mica_compliant m
                    then (log_block env db2 u ''COMPLIANCE_BLOCK'' MicaFailed,
                          Inr (blocked_result ''MICA'' MicaFailed k (Some a) (Some m) (Some s) None))
                    else (log_pass env db2 u,
                          Inr \<lparr>res_approved = True, res_blocked_by = None, res_blocking_reason = None,
                               res_kyc = Some k, res_aml = Some a, res_mica = Some m, res_sanctions = Some s,
                               res_sar_reference = None\<rparr>))))"

text \<open>The wrapper the asset service calls: blocked?, reason, by whom.\<close>

definition full_check_wrapper ::
    "compliance_env \<Rightarrow> compliance_db \<Rightarrow> uuid \<Rightarrow> xfloat \<Rightarrow> string \<Rightarrow> string \<Rightarrow> string \<Rightarrow>
     compliance_db \<times> (compliance_error + bool \<times> reason option \<times> string)" where
  "full_check_wrapper env db u amount asset_id asset_type full_name =
     (case full_check env db u amount asset_id asset_type full_name of
        (db', Inl e) \<Rightarrow> (db', Inl e)
      | (db', Inr r) \<Rightarrow>
          (db', Inr (if \<not> res_approved r
                     then (True, res_blocking_reason r, case res_blocked_by r of Some b \<Rightarrow> b | None \<Rightarrow> ''UNKNOWN'')
                     else (False, None, []))))"

subsection \<open>Endpoints (router.py)\<close>

record kyc_submit_request =
  ksr_user_id :: uuid
  ksr_document_type :: string
  ksr_file_hash :: string
  ksr_document_number :: "string option"
  ksr_issuing_country :: "string option"

definition valid_kyc_submit :: "kyc_submit_request \<Rightarrow> bool" where
  "valid_kyc_submit b \<longleftrightarrow>
     length (ksr_document_type b) \<le> 50 \<and> 32 \<le> length (ksr_file_hash b) \<and> length (ksr_file_hash b) \<le> 128 \<and>
     (case ksr_document_number b of None \<Rightarrow> True | Some s \<Rightarrow> length s \<le> 100) \<and>
     (case ksr_issuing_country b of None \<Rightarrow> True | Some s \<Rightarrow> length s = 2)"

record kyc_approve_request =
  kar_user_id :: uuid
  kar_level :: int
  kar_validity_days :: nat
  kar_notes :: "string option"

definition valid_kyc_approve :: "kyc_approve_request \<Rightarrow> bool" where
  "valid_kyc_approve b \<longleftrightarrow>
     1 \<le> kar_level b \<and> kar_level b \<le> 5 \<and> 30 \<le> kar_validity_days b \<and> kar_validity_days b \<le> 1095 \<and>
     (case kar_notes b of None \<Rightarrow> True | Some s \<Rightarrow> length s \<le> 1000)"

definition record_of :: "compliance_db \<Rightarrow> uuid \<Rightarrow> compliance_record one" where
  "record_of db u = scalar_one_or_none (filter (\<lambda>r. cr_participant_id r = u) (cdb_records db))"

definition get_compliance_status ::
    "compliance_db \<Rightarrow> string option \<Rightarrow> uuid \<Rightarrow> app_error + compliance_record" where
  "get_compliance_status db sub u =
     (case require_role [''COMPLIANCE_OFFICER'', ''REGULATEUR''] (cdb_users db) sub of
        Inl e \<Rightarrow> Inl e
      | Inr _ \<Rightarrow> (case record_of db u of
                    NoRow \<Rightarrow> Inl (HTTPException 404)
                  | ManyRows \<Rightarrow> Inl UnhandledError
                  | OneRow r \<Rightarrow> Inr r))"

definition submit_kyc ::
    "compliance_db \<Rightarrow> string option \<Rightarrow> datetime \<Rightarrow> uuid \<Rightarrow> kyc_submit_request \<Rightarrow> app_error + compliance_db" where
  "submit_kyc db sub now new_id body =
     (case require_role [''COMPLIANCE_OFFICER''] (cdb_users db) sub of
        Inl e \<Rightarrow> Inl e
      | Inr officer \<Rightarrow>
          if \<not> valid_kyc_submit body then Inl (HTTPException 422)
          else if \<not> user_exists db (ksr_user_id body) then Inl UnhandledError
          else let doc = \<lparr>kd_user_id = ksr_user_id body, kd_document_type = ksr_document_type body,
                          kd_file_hash = ksr_file_hash body, kd_document_number = ksr_document_number body,
                          kd_issuing_country = ksr_issuing_country body, kd_verified = False\<rparr>;
                   db1 = db\<lparr>cdb_documents := cdb_documents db @ [doc]\<rparr>
               in (case record_of db (ksr_user_id body) of
                     ManyRows \<Rightarrow> Inl UnhandledError
                   | OneRow r \<Rightarrow>
                       Inr (db1\<lparr>cdb_records := update_where (\<lambda>x. cr_id x = cr_id r)
                              (\<lambda>x. x\<lparr>cr_kyc_status := ''EN_COURS'', cr_checked_by := Some (user_id officer),
                                     cr_check_date := Some now\<rparr>) (cdb_records db)\<rparr>)
                   | NoRow \<Rightarrow>
                       Inr (db1\<lparr>cdb_records := cdb_records db @
                              [\<lparr>cr_id = new_id, cr_participant_id = ksr_user_id body, cr_kyc_status = ''EN_COURS'',
                                cr_kyc_level = 1, cr_aml_score = 0, cr_risk_category = ''FAIBLE'',
                                cr_sanctions_hit = False, cr_pep_status = False,
                                cr_checked_by = Some (user_id officer), cr_approved_by = None,
                                cr_check_date = Some now, cr_expires_at = plus_days 365 now, cr_notes = None,
                                cr_created_at = now\<rparr>]\<rparr>)))"

text \<open>The approval writes the record, commits, and verifies again at a later clock reading.\<close>

definition approve_kyc ::
    "compliance_db \<Rightarrow> string option \<Rightarrow> datetime \<Rightarrow> datetime \<Rightarrow> kyc_approve_request \<Rightarrow>
     compliance_db \<times> (app_error + kyc_result)" where
  "approve_kyc db sub now later body =
     (case require_role [''COMPLIANCE_OFFICER''] (cdb_users db) sub of
        Inl e \<Rightarrow> (db, Inl e)
      | Inr officer \<Rightarrow>
          if \<not> valid_kyc_approve body then (db, Inl (HTTPException 422))
          else (case record_of db (kar_user_id body) of
                  NoRow \<Rightarrow> (db, Inl (HTTPException 404))
                | ManyRows \<Rightarrow> (db, Inl UnhandledError)
                | OneRow r \<Rightarrow>
                    let db' = db\<lparr>cdb_records := update_where (\<lambda>x. cr_id x = cr_id r)
                          (\<lambda>x. x\<lparr>cr_kyc_status := ''APPROUVE'', cr_kyc_level := kar_level body,
                                 cr_approved_by := Some (user_id officer), cr_check_date := Some now,
                                 cr_expires_at := plus_days (kar_validity_days body) now,
                                 cr_notes := (if truthy (kar_notes body) then kar_notes body else cr_notes x)\<rparr>)
                          (cdb_records db)\<rparr>
                    in (case kyc_verify db' later (kar_user_id body) KYC_REQUIRED_LEVEL of
                          Inl _ \<Rightarrow> (db', Inl UnhandledError)
                        | Inr k \<Rightarrow> (db', Inr k))))"

definition run_aml_screening ::
    "compliance_env \<Rightarrow> compliance_db \<Rightarrow> string option \<Rightarrow> uuid \<Rightarrow> xfloat \<Rightarrow>
     compliance_db \<times> (app_error + aml_result)" where
  "run_aml_screening env db sub u amount =
     (case require_role [''COMPLIANCE_OFFICER''] (cdb_users db) sub of
        Inl e \<Rightarrow> (db, Inl e)
      | Inr _ \<Rightarrow>
          if \<not> xgt amount 0 then (db, Inl (HTTPException 422))
          else (case aml_score_op (env_participants env) db u amount of
                  (db1, a) \<Rightarrow>
                    if aml_sar_required a
                    then (case sar_generate db1 (env_now env) (env_counter env) (env_random env) u None
                                 ''AML_CRITICAL_THRESHOLD'' amount of
                            None \<Rightarrow> (db1, Inl UnhandledError)
                          | Some (db2, _) \<Rightarrow> (db2, Inr a))
                    else (db1, Inr a)))"

text \<open>The rows behind the active alerts, in the order of the response.\<close>

datatype alert = HighRiskParticipant compliance_record | DraftSar sar_report

definition get_active_alerts :: "compliance_db \<Rightarrow> string option \<Rightarrow> nat \<Rightarrow> nat \<Rightarrow> app_error + alert list" where
  "get_active_alerts db sub limit offset =
     (case require_role [''COMPLIANCE_OFFICER'', ''REGULATEUR'', ''EMETTEUR''] (cdb_users db) sub of
        Inl e \<Rightarrow> Inl e
      | Inr _ \<Rightarrow>
          if \<not> (1 \<le> limit \<and> limit \<le> 200) then Inl (HTTPException 422)
          else Inr (map HighRiskParticipant (take limit (drop offset
                      (filter (\<lambda>r. cr_risk_category r \<in> {''ELEVE'', ''CRITIQUE''} \<or> cr_sanctions_hit r \<or> cr_pep_status r)
                         (cdb_records db)))) @
                    map DraftSar (take limit (sar_get_active db))))"

definition list_compliance_records ::
    "compliance_db \<Rightarrow> string option \<Rightarrow> nat \<Rightarrow> nat \<Rightarrow> app_error + compliance_record list" where
  "list_compliance_records db sub limit offset =
     (case require_role [''COMPLIANCE_OFFICER'', ''REGULATEUR'', ''SUPER_ADMIN'', ''AUDITEUR'', ''EMETTEUR'']
             (cdb_users db) sub of
        Inl e \<Rightarrow> Inl e
      | Inr _ \<Rightarrow> if \<not> (1 \<le> limit \<and> limit \<le> 200) then Inl (HTTPException 422)
                 else Inr (take limit (drop offset (cdb_records db))))"

subsection \<open>The AML score\<close>

lemma round_even_ge: "of_int n \<le> x \<Longrightarrow> n \<le> round_even x"
proof -
  assume "of_int n \<le> x"
  then have "n \<le> \<lfloor>x\<rfloor>" by (simp add: le_floor_iff)
  then show ?thesis by (auto simp: round_even_def Let_def)
qed

lemma clamp_score_range: "0 \<le> clamp_score x \<and> clamp_score x \<le> 1"
  by (auto simp: clamp_score_def split: xfloat.splits)

lemma clamped_ten_thousandths: "0 \<le> ten_thousandths (clamp_score x) \<and> ten_thousandths (clamp_score x) \<le> 10000"
proof -
  have "of_int 0 \<le> clamp_score x * 10000" "clamp_score x * 10000 \<le> of_int 10000"
    using clamp_score_range [of x] by simp_all
  then show ?thesis unfolding ten_thousandths_def by (metis round_even_ge round_even_le)
qed

lemma thresholds:
  "MAX_AML_SCORE = rnd (of_int 6000 / 10000)" "SAR_THRESHOLD = rnd (of_int 7500 / 10000)"
  "rnd (30 / 100) = rnd (of_int 3000 / 10000)" "rnd (40 / 100) = rnd (of_int 4000 / 10000)"
  by (simp_all add: MAX_AML_SCORE_def SAR_THRESHOLD_def)

text \<open>
  The AML decisions are exact. The score is a whole number of ten-thousandths between 0 and
  1, and the float comparisons of the code with 0.30, 0.60 and 0.75 classify it as the integers
  compare: a transfer is blocked above 6000, a report is required above 7500, and the category
  follows the same bounds.
\<close>

theorem aml_decisions_exact:
  assumes "aml_score_op parts db u amount = (db', r)"
    and "k = ten_thousandths (clamp_score (raw_score (load_indicators parts (lower (uuid_str u))) amount))"
  shows "0 \<le> k \<and> k \<le> 10000 \<and> aml_score r = rnd (of_int k / 10000) \<and>
    (aml_blocked r \<longleftrightarrow> 6000 < k) \<and> (aml_sar_required r \<longleftrightarrow> 7500 < k) \<and>
    aml_risk_category r =
      (if k < 3000 then ''FAIBLE'' else if k < 6000 then ''MOYEN'' else if k \<le> 7500 then ''ELEVE'' else ''CRITIQUE'')"
proof -
  have k: "0 \<le> k" "k \<le> 10000" using clamped_ten_thousandths assms(2) by auto
  have s: "aml_score r = rnd (of_int k / 10000)" "aml_blocked r \<longleftrightarrow> MAX_AML_SCORE < aml_score r"
    "aml_sar_required r \<longleftrightarrow> SAR_THRESHOLD < aml_score r" "aml_risk_category r = risk_category_of (aml_score r)"
    using assms by (auto simp: aml_score_op_def Let_def final_score_def round4_def)
  have less: "rnd (of_int k / 10000) < rnd (of_int m / 10000) \<longleftrightarrow> k < m"
    "rnd (of_int m / 10000) < rnd (of_int k / 10000) \<longleftrightarrow> m < k" if "0 \<le> m" "m \<le> 10000" for m
    using rnd_ten_thousandths_iff k that by blast+
  show ?thesis
    unfolding s risk_category_of_def thresholds not_less [symmetric]
    using k by (simp add: less del: of_int_numeral)
qed

lemma xround_unit:
  assumes "0 \<le> x" and "x \<le> b" and "b \<le> 1"
  shows "xround x = Fin (rnd x) \<and> 0 \<le> rnd x \<and> rnd x \<le> b + 1 / 2 ^ 53"
proof -
  have "\<bar>rnd x - x\<bar> \<le> 1 / 2 ^ 53" using assms by (intro rnd_unit_error) auto
  then have hi: "rnd x \<le> b + 1 / 2 ^ 53" using assms by linarith
  have "\<bar>rnd x - x\<bar> \<le> x / 2 ^ 53" using rnd_error [of x] assms by simp
  moreover have "x / 2 ^ 53 \<le> x" using assms by (simp add: divide_le_eq)
  ultimately have lo: "0 \<le> rnd x" by linarith
  have big: "(2::rat) \<le> 2 ^ 1024" using power_increasing [of 1 1024 "2::rat"] by simp
  have "rnd x < 2" using hi assms by simp
  then have "\<not> 2 ^ 1024 \<le> rnd x" "\<not> rnd x \<le> - (2 ^ 1024)" using big lo by linarith+
  then show ?thesis using hi lo by (simp add: xround_def Let_def)
qed

lemma load_indicators_default:
  "target \<notin> (\<lambda>p. lower (pt_user_id p)) ` set parts \<Longrightarrow> load_indicators parts target =
     \<lparr>jurisdiction_risk = default_indicator, cross_border_activity = default_indicator, unusual_volume = default_indicator\<rparr>"
  by (induction parts) auto

lemma default_raw_score:
  "\<exists>r. raw_score \<lparr>jurisdiction_risk = default_indicator, cross_border_activity = default_indicator,
      unusual_volume = default_indicator\<rparr> amount = Fin r \<and> 0 \<le> r \<and> r \<le> 2 / 10"
proof -
  define d where "d = rnd (5 / 100)"
  have d: "0 \<le> d" "d \<le> 6 / 100"
    using xround_unit [of "5 / 100" "5 / 100"] by (auto simp: d_def)
  have unit: "0 \<le> rnd (n / 10) \<and> rnd (n / 10) \<le> 5 / 10" if "0 \<le> n" "n \<le> 4" for n
    using xround_unit [of "n / 10" "4 / 10"] that by auto
  have summand: "xround (d * rnd (n / 10)) = Fin (rnd (d * rnd (n / 10))) \<and> 0 \<le> rnd (d * rnd (n / 10)) \<and>
      rnd (d * rnd (n / 10)) \<le> 31 / 1000" if "0 \<le> n" "n \<le> 4" for n
  proof -
    have "d * rnd (n / 10) \<le> 6 / 100 * (5 / 10)" using d unit [OF that] by (intro mult_mono) auto
    then show ?thesis using xround_unit [of "d * rnd (n / 10)" "3 / 100"] d unit [OF that] by auto
  qed
  define a b where "a = rnd (d * rnd (3 / 10))" and "b = rnd (d * rnd (4 / 10))"
  note ab = summand [of 3, folded a_def] summand [of 4, folded b_def]
  have s1: "xround (a + b) = Fin (rnd (a + b)) \<and> 0 \<le> rnd (a + b) \<and> rnd (a + b) \<le> 63 / 1000"
    using xround_unit [of "a + b" "62 / 1000"] ab by auto
  have s2: "xround (rnd (a + b) + a) = Fin (rnd (rnd (a + b) + a)) \<and> 0 \<le> rnd (rnd (a + b) + a) \<and>
      rnd (rnd (a + b) + a) \<le> 95 / 1000"
    using xround_unit [of "rnd (a + b) + a" "94 / 1000"] s1 ab by auto
  have bonus: "0 \<le> rnd (m / 100) \<and> rnd (m / 100) \<le> 101 / 1000" if "0 \<le> m" "m \<le> 10" for m
    using xround_unit [of "m / 100" "10 / 100"] that by auto
  have s3: "xround (rnd (rnd (a + b) + a) + rnd (m / 100)) = Fin (rnd (rnd (rnd (a + b) + a) + rnd (m / 100))) \<and>
      0 \<le> rnd (rnd (rnd (a + b) + a) + rnd (m / 100)) \<and> rnd (rnd (rnd (a + b) + a) + rnd (m / 100)) \<le> 2 / 10"
    if "0 \<le> m" "m \<le> 10" for m
    using xround_unit [of "rnd (rnd (a + b) + a) + rnd (m / 100)" "196 / 1000"] s2 bonus [OF that] by auto
  have default: "default_indicator = Fin d" by (simp add: default_indicator_def d_def)
  show ?thesis
    using ab s1 s2 s3 [of 10] s3 [of 5]
    by (auto simp: raw_score_def Let_def default AML_HIGH_AMOUNT_BONUS_1_def AML_HIGH_AMOUNT_BONUS_2_def)
qed

text \<open>
  A participant the fixture file does not know is scored with the default indicators and is
  never blocked, whatever the amount: the score is at most 0.2.
\<close>

theorem unknown_participant_never_blocked:
  assumes "lower (uuid_str u) \<notin> (\<lambda>p. lower (pt_user_id p)) ` set parts"
    and "aml_score_op parts db u amount = (db', r)"
  shows "\<not> aml_blocked r \<and> \<not> aml_sar_required r \<and> aml_risk_category r = ''FAIBLE'' \<and> db' = db"
proof -
  let ?ind = "load_indicators parts (lower (uuid_str u))"
  obtain x where x: "raw_score ?ind amount = Fin x" "0 \<le> x" "x \<le> 2 / 10"
    using default_raw_score [of amount] load_indicators_default [OF assms(1)] by auto
  define k where "k = ten_thousandths x"
  have "k \<le> 2000" unfolding k_def ten_thousandths_def using x by (intro round_even_le) simp
  moreover have "clamp_score (raw_score ?ind amount) = x" using x by (simp add: clamp_score_def)
  ultimately have k: "0 \<le> k" "k \<le> 2000" "final_score ?ind amount = rnd (of_int k / 10000)"
    using clamped_ten_thousandths [of "raw_score ?ind amount"]
    by (auto simp: k_def final_score_def round4_def)
  have less: "rnd (of_int k / 10000) < rnd (of_int m / 10000)" if "2000 < m" "m \<le> 10000" for m
    using k that by (intro rnd_ten_thousandths_less) auto
  show ?thesis
    using assms(2) less [of 3000] less [of 4000] less [of 6000] less [of 7500]
    unfolding aml_score_op_def Let_def k(3) risk_category_of_def thresholds
    by (auto simp del: of_int_numeral)
qed

definition empty_db :: compliance_db where
  "empty_db = \<lparr>cdb_records = [], cdb_sars = [], cdb_audit = [], cdb_events = [], cdb_documents = [],
     cdb_users = [], cdb_orgs = []\<rparr>"

definition risky_participant :: "uuid \<Rightarrow> participant" where
  "risky_participant u = \<lparr>pt_user_id = uuid_str u, pt_jurisdiction_risk = Some NaN,
     pt_cross_border_activity = None, pt_unusual_volume = None\<rparr>"

lemma risky_score:
  "clamp_score (raw_score (load_indicators [risky_participant u] (lower (uuid_str u))) amount) = 1"
  by (simp add: risky_participant_def raw_score_def indicator_def clamp_score_def Let_def)

theorem aml_decisions_exact_witness:
  "aml_blocked (snd (aml_score_op [risky_participant 7] empty_db 7 (Fin 100))) \<and>
   aml_risk_category (snd (aml_score_op [risky_participant 7] empty_db 7 (Fin 100))) = ''CRITIQUE''"
proof -
  have "ten_thousandths 1 = 10000" using round_even_int [of 10000] by (simp add: ten_thousandths_def)
  then show ?thesis
    using aml_decisions_exact [OF prod.collapse [symmetric] refl,
        where parts = "[risky_participant 7]" and db = empty_db and u = 7 and amount = "Fin 100"]
    by (simp add: risky_score del: load_indicators.simps)
qed

theorem unknown_participant_never_blocked_witness:
  "\<not> aml_blocked (snd (aml_score_op [] empty_db 7 (Fin 1000000000))) \<and>
   \<not> aml_sar_required (snd (aml_score_op [] empty_db 7 (Fin 1000000000)))"
  using unknown_participant_never_blocked [OF _ prod.collapse [symmetric],
      where parts = "[]" and db = empty_db and u = 7 and amount = "Fin 1000000000"]
  by simp

subsection \<open>Sanctions screening\<close>

lemma scan_list_hit:
  "scan_list ratio l nm cs \<noteq> [] \<longleftrightarrow> (\<exists>c \<in> set cs. nm = lower c \<or> ratio nm (lower c) > SANCTION_MATCH_THRESHOLD)"
  by (induction cs) (auto simp: Let_def)

text \<open>
  The screening hits exactly when one of the seven lists holds a name that equals the
  screened name up to case or is more than 85 per cent similar to it; every reported match is
  such a name of the list it is reported for.
\<close>

lemma scan_list_sound:
  "m \<in> set (scan_list ratio l nm cs) \<Longrightarrow> sm_list_name m = l \<and> sm_matched_name m \<in> set cs \<and>
     (nm = lower (sm_matched_name m) \<or> ratio nm (lower (sm_matched_name m)) > SANCTION_MATCH_THRESHOLD)"
  by (induction cs) (auto simp: Let_def split: if_splits)

theorem screen_hit_iff:
  "(sr_hit (screen ratio sdb nm) \<longleftrightarrow>
      (\<exists>l \<in> set lists_to_check. \<exists>cs. sdb l = Some cs \<and>
         (\<exists>c \<in> set cs. lower nm = lower c \<or> ratio (lower nm) (lower c) > SANCTION_MATCH_THRESHOLD))) \<and>
   (\<forall>m \<in> set (sr_matches (screen ratio sdb nm)).
      sm_list_name m \<in> set lists_to_check \<and>
      (\<exists>cs. sdb (sm_list_name m) = Some cs \<and> sm_matched_name m \<in> set cs))"
proof -
  have hit: "sr_hit (screen ratio sdb nm) \<longleftrightarrow>
      (\<exists>l \<in> set lists_to_check. scan_list ratio l (lower nm) (case sdb l of None \<Rightarrow> [] | Some cs \<Rightarrow> cs) \<noteq> [])"
    by (simp add: screen_def Let_def)
  have ex: "(\<exists>c \<in> set (case sdb l of None \<Rightarrow> [] | Some cs \<Rightarrow> cs). P c) \<longleftrightarrow> (\<exists>cs. sdb l = Some cs \<and> (\<exists>c \<in> set cs. P c))"
    for l P by (cases "sdb l") auto
  have "sm_list_name m \<in> set lists_to_check \<and> (\<exists>cs. sdb (sm_list_name m) = Some cs \<and> sm_matched_name m \<in> set cs)"
    if "m \<in> set (sr_matches (screen ratio sdb nm))" for m
  proof -
    from that obtain l where l: "l \<in> set lists_to_check"
      "m \<in> set (scan_list ratio l (lower nm) (case sdb l of None \<Rightarrow> [] | Some cs \<Rightarrow> cs))"
      by (auto simp: screen_def Let_def)
    have "\<exists>c \<in> set (case sdb l of None \<Rightarrow> [] | Some cs \<Rightarrow> cs). c = sm_matched_name m" "sm_list_name m = l"
      using scan_list_sound [OF l(2)] by auto
    then show ?thesis using l(1) unfolding ex by auto
  qed
  then show ?thesis unfolding hit scan_list_hit ex by blast
qed

theorem screen_hit_iff_witness:
  "\<exists>l \<in> set lists_to_check. \<exists>cs. [''UK_HMT'' \<mapsto> [''Ivan Drago'']] l = Some cs \<and>
     (\<exists>c \<in> set cs. lower ''IVAN DRAGO'' = lower c \<or> (0 :: rat) > SANCTION_MATCH_THRESHOLD)"
proof -
  have "sr_hit (screen (\<lambda>a b. 0) [''UK_HMT'' \<mapsto> [''Ivan Drago'']] ''IVAN DRAGO'')" by code_simp
  then show ?thesis using screen_hit_iff [of "\<lambda>a b. 0" "[''UK_HMT'' \<mapsto> [''Ivan Drago'']]" "''IVAN DRAGO''"] by simp
qed

subsection \<open>The full check\<close>

lemma kyc_verify_approved:
  "(\<exists>k. kyc_verify db now u lvl = Inr k \<and> kyc_approved k) \<longleftrightarrow>
   (\<exists>r. latest_record db u = Some r \<and> \<not> dt_less (cr_expires_at r) now \<and> lvl \<le> cr_kyc_level r)"
  by (auto simp: kyc_verify_def Let_def split: option.splits)

lemma mica_always_compliant: "mica_compliant (snd (mica_check db amount aid aty))"
  by (simp add: mica_check_def Let_def)

lemma aml_score_op_tables:
  "aml_score_op parts db u amount = (db', a) \<Longrightarrow>
     cdb_sars db' = cdb_sars db \<and> cdb_audit db' = cdb_audit db \<and> cdb_events db' = cdb_events db \<and>
     cdb_users db' = cdb_users db \<and> cdb_orgs db' = cdb_orgs db"
  by (auto simp: aml_score_op_def Let_def split: option.splits)

lemma aml_score_op_flags:
  assumes "aml_score_op parts db u amount = (db', a)"
  shows "aml_blocked a \<longleftrightarrow> 6000 < ten_thousandths
      (clamp_score (raw_score (load_indicators parts (lower (uuid_str u))) amount))"
    and "aml_sar_required a \<longleftrightarrow> 7500 < ten_thousandths
      (clamp_score (raw_score (load_indicators parts (lower (uuid_str u))) amount))"
  using assms
  by (auto simp: aml_score_op_def Let_def final_score_def round4_def thresholds
      rnd_ten_thousandths_iff clamped_ten_thousandths simp del: of_int_numeral)

lemma aml_blocked_reason_Some:
  "aml_score_op parts db u amount = (db', a) \<Longrightarrow> aml_blocked a \<Longrightarrow> aml_blocked_reason a = Some (AmlScoreTooHigh (aml_score a))"
  by (auto simp: aml_score_op_def Let_def)

text \<open>The five ways a check ends.\<close>

lemma full_check_cases:
  assumes "full_check env db u amount aid aty nm = (db', out)"
    and "aml_score_op (env_participants env) db u amount = (db1, a)"
  obtains (no_record) why where "out = Inl (NoKycRecord why)" "latest_record db u = None"
      "db' = log_block env db u ''COMPLIANCE_BLOCK'' why"
  | (kyc) k where "kyc_verify db (env_now env) u KYC_REQUIRED_LEVEL = Inr k" "\<not> kyc_approved k"
      "out = Inr (blocked_result ''KYC'' (kyc_reason k) k None None None None)"
      "db' = log_block env db u ''COMPLIANCE_BLOCK'' (kyc_reason k)"
  | (sanctions) k where "kyc_verify db (env_now env) u KYC_REQUIRED_LEVEL = Inr k" "kyc_approved k"
      "sr_hit (screen (env_ratio env) (env_sanctions env) nm)"
      "out = Inr (blocked_result ''SANCTIONS'' SanctionsMatch k None None
         (Some (screen (env_ratio env) (env_sanctions env) nm)) None)"
      "db' = log_block env db u ''COMPLIANCE_BLOCK'' SanctionsMatch"
  | (sar_failed) "out = Inl SarNotStored" "aml_blocked a" "aml_sar_required a" "db' = db1"
  | (aml) k db2 ref why where "kyc_verify db (env_now env) u KYC_REQUIRED_LEVEL = Inr k" "kyc_approved k"
      "\<not> sr_hit (screen (env_ratio env) (env_sanctions env) nm)" "aml_blocked a"
      "if aml_sar_required a
       then \<exists>r. ref = Some r \<and> sar_generate db1 (env_now env) (env_counter env) (env_random env) u None
                                  ''AML_CRITICAL_THRESHOLD'' amount = Some (db2, r)
       else ref = None \<and> db2 = db1"
      "out = Inr (blocked_result ''AML'' why k (Some a) None
         (Some (screen (env_ratio env) (env_sanctions env) nm)) ref)"
      "db' = log_block env db2 u ''COMPLIANCE_BLOCK'' why"
  | (pass) k r where "kyc_verify db (env_now env) u KYC_REQUIRED_LEVEL = Inr k" "kyc_approved k"
      "\<not> sr_hit (screen (env_ratio env) (env_sanctions env) nm)" "\<not> aml_blocked a"
      "out = Inr r" "res_approved r" "res_sar_reference r = None"
      "db' = log_pass env (fst (mica_check db1 amount aid aty)) u"
proof (cases "kyc_verify db (env_now env) u KYC_REQUIRED_LEVEL")
  case (Inl why)
  then have "latest_record db u = None" by (auto simp: kyc_verify_def Let_def split: option.splits if_splits)
  then show ?thesis using assms(1) Inl no_record by (auto simp: full_check_def)
next
  case (Inr k)
  let ?s = "screen (env_ratio env) (env_sanctions env) nm"
  consider "\<not> kyc_approved k" | "kyc_approved k" "sr_hit ?s" | "kyc_approved k" "\<not> sr_hit ?s" "aml_blocked a"
    | "kyc_approved k" "\<not> sr_hit ?s" "\<not> aml_blocked a" by blast
  then show ?thesis
  proof cases
    case 1
    then show ?thesis using assms(1) Inr kyc by (auto simp: full_check_def)
  next
    case 2
    then show ?thesis using assms(1) Inr sanctions by (auto simp: full_check_def Let_def)
  next
    case 3
    then show ?thesis using assms Inr sar_failed aml
      by (auto simp: full_check_def Let_def split: if_splits option.splits prod.splits)
  next
    case 4
    then show ?thesis using assms Inr pass mica_always_compliant [of db1 amount aid aty]
      by (auto simp: full_check_def Let_def split: if_splits prod.splits)
  qed
qed

lemma full_check_decision:
  assumes "full_check env db u amount aid aty nm = (db', out)"
  shows "(\<exists>r. out = Inr r \<and> res_approved r) \<longleftrightarrow>
    (\<exists>r. latest_record db u = Some r \<and> \<not> dt_less (cr_expires_at r) (env_now env) \<and> 3 \<le> cr_kyc_level r) \<and>
    \<not> sr_hit (screen (env_ratio env) (env_sanctions env) nm) \<and>
    ten_thousandths (clamp_score (raw_score (load_indicators (env_participants env) (lower (uuid_str u))) amount)) \<le> 6000"
proof -
  obtain db1 a where a: "aml_score_op (env_participants env) db u amount = (db1, a)" by fastforce
  note blocked = aml_score_op_flags(1) [OF a]
  note kyc = kyc_verify_approved [of db "env_now env" u KYC_REQUIRED_LEVEL, unfolded KYC_REQUIRED_LEVEL_def]
  show ?thesis
    using assms a
  proof (cases rule: full_check_cases)
    case no_record
    then show ?thesis by simp
  next
    case (kyc k)
    then show ?thesis
      using kyc_verify_approved [of db "env_now env" u KYC_REQUIRED_LEVEL]
      by (auto simp: blocked_result_def KYC_REQUIRED_LEVEL_def)
  next
    case (sanctions k)
    then show ?thesis by (simp add: blocked_result_def)
  next
    case sar_failed
    then show ?thesis using blocked by simp
  next
    case (aml k db2 ref why)
    then show ?thesis using blocked by (simp add: blocked_result_def)
  next
    case (pass k r)
    then show ?thesis using blocked kyc by (auto simp: KYC_REQUIRED_LEVEL_def)
  qed
qed

text \<open>
  C4: what an approved check means. A check is approved exactly when the participant's latest
  compliance record has not expired and has level 3 or more, the name is on no screened list,
  and the AML score is at most 0.60. Nothing else is looked at: neither the KYC status of the
  record nor its sanctions flag, and the MiCA rules never block.
\<close>

theorem full_check_approved_iff:
  assumes "full_check env db u amount aid aty nm = (db', out)"
  shows "(\<exists>r. out = Inr r \<and> res_approved r) \<longleftrightarrow>
    (\<exists>r. latest_record db u = Some r \<and> \<not> dt_less (cr_expires_at r) (env_now env) \<and> 3 \<le> cr_kyc_level r) \<and>
    \<not> sr_hit (screen (env_ratio env) (env_sanctions env) nm) \<and>
    ten_thousandths (clamp_score (raw_score (load_indicators (env_participants env) (lower (uuid_str u))) amount)) \<le> 6000"
  by (rule full_check_decision [OF assms])

definition sample_time :: datetime where
  "sample_time = \<lparr>dt_year = 2026, dt_month = 3, dt_day = 1, dt_hour = 12, dt_minute = 0, dt_second = 0, dt_micro = 0\<rparr>"

definition sample_env :: "participant list \<Rightarrow> compliance_env" where
  "sample_env parts = \<lparr>env_now = sample_time, env_ip = ''10.0.0.1'', env_duration_ms = 3, env_random = [1, 2, 3],
     env_counter = Some 7, env_ratio = (\<lambda>a b. 0), env_sanctions = Map.empty, env_participants = parts\<rparr>"

definition rejected_record :: compliance_record where
  "rejected_record = \<lparr>cr_id = 1, cr_participant_id = 7, cr_kyc_status = ''REJETE'', cr_kyc_level = 3,
     cr_aml_score = 0, cr_risk_category = ''FAIBLE'', cr_sanctions_hit = True, cr_pep_status = False,
     cr_checked_by = None, cr_approved_by = None, cr_check_date = None,
     cr_expires_at = sample_time\<lparr>dt_year := 2027\<rparr>, cr_notes = None, cr_created_at = sample_time\<rparr>"

definition rejected_db :: compliance_db where
  "rejected_db = empty_db\<lparr>cdb_records := [rejected_record]\<rparr>"

text \<open>The witness: a record with status REJETE and a sanctions flag passes the check.\<close>

theorem full_check_approved_iff_witness:
  "\<exists>r. snd (full_check (sample_env []) rejected_db 7 (Fin 100) ''RWA-X'' ''IMMOBILIER'' ''Ivan Drago'') = Inr r \<and> res_approved r"
proof -
  have rec: "latest_record rejected_db 7 = Some rejected_record"
    by (simp add: latest_record_def rejected_db_def empty_db_def rejected_record_def)
  have live: "\<not> dt_less (cr_expires_at rejected_record) (env_now (sample_env []))" "3 \<le> cr_kyc_level rejected_record"
    by (simp_all add: dt_less_def dt_key_def rejected_record_def sample_env_def sample_time_def)
  have clear: "\<not> sr_hit (screen (env_ratio (sample_env [])) (env_sanctions (sample_env [])) ''Ivan Drago'')"
    using screen_hit_iff by (simp add: screen_def sample_env_def Let_def lists_to_check_def)
  obtain x where x: "raw_score (load_indicators [] (lower (uuid_str 7))) (Fin 100) = Fin x" "0 \<le> x" "x \<le> 2 / 10"
    using default_raw_score [of "Fin 100"] by auto
  then have "ten_thousandths (clamp_score (raw_score (load_indicators [] (lower (uuid_str 7))) (Fin 100))) \<le> 6000"
    by (simp add: clamp_score_def ten_thousandths_def round_even_le)
  then show ?thesis
    using full_check_approved_iff [OF prod.collapse [symmetric], where env = "sample_env []" and db = rejected_db and u = 7
        and amount = "Fin 100" and aid = "''RWA-X''" and aty = "''IMMOBILIER''" and nm = "''Ivan Drago''"]
      rec live clear by (auto simp: sample_env_def)
qed



lemma critical_report_too_long: "sar_generate db now counter tail3 u tx ''AML_CRITICAL_THRESHOLD'' amount = None"
  by (simp add: sar_generate_def sar_fits_def Let_def)

text \<open>
  C28: no compliance check ever files a suspicious activity report. When the participant's record is in order, no
  list matches and the score is above 0.75, the check does not return a blocked result either: the reason code
  of the report is longer than its column, so the check raises, and neither a report nor an audit entry is kept.
\<close>

theorem critical_scores_never_reported:
  assumes "full_check env db u amount aid aty nm = (db', out)"
  shows "cdb_sars db' = cdb_sars db \<and>
    ((\<exists>r. latest_record db u = Some r \<and> \<not> dt_less (cr_expires_at r) (env_now env) \<and> 3 \<le> cr_kyc_level r) \<and>
     \<not> sr_hit (screen (env_ratio env) (env_sanctions env) nm) \<and>
     7500 < ten_thousandths (clamp_score (raw_score (load_indicators (env_participants env) (lower (uuid_str u))) amount)) \<longrightarrow>
     out = Inl SarNotStored \<and> cdb_audit db' = cdb_audit db)"
proof -
  obtain db1 a where a: "aml_score_op (env_participants env) db u amount = (db1, a)" by fastforce
  note tables = aml_score_op_tables [OF a]
  note sar = aml_score_op_flags(2) [OF a]
  show ?thesis
    using assms a
  proof (cases rule: full_check_cases)
    case (aml k db2 ref why)
    then show ?thesis using tables sar critical_report_too_long by (auto simp: log_block_def split: if_splits)
  next
    case (pass k r)
    then show ?thesis using tables sar aml_score_op_flags(1) [OF a]
      by (auto simp: log_pass_def mica_check_def Let_def)
  next
    case (kyc k)
    then show ?thesis using kyc_verify_approved [of db "env_now env" u KYC_REQUIRED_LEVEL]
      by (auto simp: log_block_def KYC_REQUIRED_LEVEL_def)
  qed (use tables in \<open>auto simp: log_block_def\<close>)
qed

theorem critical_scores_never_reported_witness:
  "snd (full_check (sample_env [risky_participant 7]) rejected_db 7 (Fin 100) ''RWA-X'' ''IMMOBILIER'' ''Ivan Drago'') = Inl SarNotStored"
proof -
  obtain db' out where run: "full_check (sample_env [risky_participant 7]) rejected_db 7 (Fin 100) ''RWA-X'' ''IMMOBILIER'' ''Ivan Drago'' = (db', out)"
    by fastforce
  have one: "ten_thousandths 1 = 10000" using round_even_int [of 10000] by (simp add: ten_thousandths_def)
  have rec: "latest_record rejected_db 7 = Some rejected_record"
    by (simp add: latest_record_def rejected_db_def empty_db_def rejected_record_def)
  have live: "\<not> dt_less (cr_expires_at rejected_record) sample_time" "cr_kyc_level rejected_record = 3"
    by (simp_all add: dt_less_def dt_key_def rejected_record_def sample_time_def)
  have clear: "\<not> sr_hit (screen (\<lambda>a b. 0) Map.empty ''Ivan Drago'')"
    by (simp add: screen_def Let_def lists_to_check_def)
  show ?thesis
    using critical_scores_never_reported [OF run] rec live clear one unfolding run
    by (simp add: sample_env_def risky_score del: load_indicators.simps)
qed

end
