(* ===== verification/Zkp.thy ===== *)
theory Zkp
  imports Schnorr Fixtures Compliance Interfaces
begin

text \<open>
  Credentials and proofs (core/features/zkp): the platform issues a signed eligibility claim over
  a user's public key, and later accepts Schnorr proofs made under that key. The platform's ECDSA
  key (cryptography package) enters as the functions \<open>sign\<close> and \<open>ver\<close>; the curve, the digest, the
  clock and the drawn UUIDs are arguments. \<open>None\<close> is an exception the code does not catch.
\<close>

subsection \<open>The platform key (platform_key.py)\<close>

definition dev_default_secret :: string where
  "dev_default_secret = ''dev-platform-zkp-secret-change-in-prod''"

text \<open>\<open>None\<close> is the RuntimeError of a production deployment that kept the development secret.\<close>

definition load_secret :: "string option \<Rightarrow> string \<Rightarrow> string option" where
  "load_secret env environment =
     (let secret = (case env of None \<Rightarrow> dev_default_secret | Some s \<Rightarrow> s) in
      if environment = ''production'' \<and> secret = dev_default_secret then None else Some secret)"

definition secp256k1_N :: int where
  "secp256k1_N = 0xFFFFFFFFFFFFFFFFFFFFFFFFFFFFFFFEBAAEDCE6AF48A03BBFD25E8CD0364141"

definition platform_scalar :: "(bytes \<Rightarrow> bytes) \<Rightarrow> string \<Rightarrow> int" where
  "platform_scalar H secret = from_bytes (H (utf8 secret)) mod (secp256k1_N - 1) + 1"

subsection \<open>Tables (models.py)\<close>

record zkp_credential =
  zc_id :: uuid
  zc_user_id :: uuid
  zc_public_key_x :: string
  zc_public_key_y :: string
  zc_age_ok :: bool
  zc_kyc_ok :: bool
  zc_not_sanctioned :: bool
  zc_kyc_level :: int
  zc_issuer_sig :: string
  zc_issued_at :: datetime
  zc_expires_at :: datetime
  zc_revoked :: bool
  zc_revoked_at :: "datetime option"
  zc_revoked_reason :: "string option"

record zkp_nullifier =
  zn_nullifier_hex :: string
  zn_purpose :: string
  zn_public_key_x :: string

record zkp_db =
  zdb_credentials :: "zkp_credential list"
  zdb_nullifiers :: "zkp_nullifier list"
  zdb_compliance :: compliance_db

subsection \<open>The issuer (issuer.py)\<close>

definition CREDENTIAL_TTL_DAYS :: nat where
  "CREDENTIAL_TTL_DAYS = 90"

definition canonical_json :: "(string \<times> json) list \<Rightarrow> bytes" where
  "canonical_json obj = utf8 (json_dumps (JObj obj))"

definition sign_claim :: "(bytes \<Rightarrow> bytes) \<Rightarrow> (string \<times> json) list \<Rightarrow> string" where
  "sign_claim sign claim = bytes_hex (sign (canonical_json claim))"

definition check_eligibility :: "compliance_db \<Rightarrow> datetime \<Rightarrow> uuid \<Rightarrow> bool \<times> bool \<times> bool \<times> int" where
  "check_eligibility db now u =
     (case latest_record db u of
        None \<Rightarrow> (False, False, False, 0)
      | Some r \<Rightarrow>
          (cr_kyc_level r \<ge> 2,
           cr_kyc_status r \<in> {''APPROUVE'', ''VALIDE''} \<and> \<not> cr_is_expired now r,
           \<not> cr_sanctions_hit r,
           cr_kyc_level r))"

definition claim_dict ::
    "string \<Rightarrow> string \<Rightarrow> bool \<Rightarrow> bool \<Rightarrow> bool \<Rightarrow> int \<Rightarrow> datetime \<Rightarrow> datetime \<Rightarrow> (string \<times> json) list" where
  "claim_dict x y age kyc sanc level issued expires =
     [(''Y_x'', JStr x), (''Y_y'', JStr y), (''age_ok'', JBool age), (''kyc_ok'', JBool kyc),
      (''not_sanctioned'', JBool sanc), (''kyc_level'', JInt level),
      (''issued_at'', JStr (isoformat issued)), (''expires_at'', JStr (isoformat expires))]"

definition build_claim_dict :: "zkp_credential \<Rightarrow> (string \<times> json) list" where
  "build_claim_dict c =
     claim_dict (zc_public_key_x c) (zc_public_key_y c) (zc_age_ok c) (zc_kyc_ok c) (zc_not_sanctioned c)
       (zc_kyc_level c) (zc_issued_at c) (zc_expires_at c)"

definition issue_new ::
    "(bytes \<Rightarrow> bytes) option \<Rightarrow> zkp_db \<Rightarrow> datetime \<Rightarrow> uuid \<Rightarrow> uuid \<Rightarrow> string \<Rightarrow> string \<Rightarrow>
     (zkp_db \<times> zkp_credential) option" where
  "issue_new signer db now new_id u x y =
     (if \<not> user_exists (zdb_compliance db) u then None
      else case check_eligibility (zdb_compliance db) now u of
        (age, kyc, sanc, level) \<Rightarrow>
          (case (add_days CREDENTIAL_TTL_DAYS now, signer) of
             (Some expires, Some sign) \<Rightarrow>
               let sig = sign_claim sign (claim_dict x y age kyc sanc level now expires);
                   c = \<lparr>zc_id = new_id, zc_user_id = u, zc_public_key_x = x, zc_public_key_y = y,
                        zc_age_ok = age, zc_kyc_ok = kyc, zc_not_sanctioned = sanc, zc_kyc_level = level,
                        zc_issuer_sig = sig, zc_issued_at = now, zc_expires_at = expires,
                        zc_revoked = False, zc_revoked_at = None, zc_revoked_reason = None\<rparr>
               in Some (db\<lparr>zdb_credentials := zdb_credentials db @ [c]\<rparr>, c)
           | _ \<Rightarrow> None))"

text \<open>
  \<open>signer = None\<close>: loading the platform key raises. The owner is a foreign key. The newest
  unexpired credential of the user for this key is returned as it is; otherwise a new one is issued.
\<close>

definition issue_credential ::
    "(bytes \<Rightarrow> bytes) option \<Rightarrow> zkp_db \<Rightarrow> datetime \<Rightarrow> uuid \<Rightarrow> uuid \<Rightarrow> string \<Rightarrow> string \<Rightarrow>
     (zkp_db \<times> zkp_credential) option" where
  "issue_credential signer db now new_id u x y =
     (case latest (\<lambda>c. dt_key (zc_issued_at c))
             (filter (\<lambda>c. zc_user_id c = u \<and> zc_public_key_x c = x \<and> \<not> zc_revoked c) (zdb_credentials db)) of
        Some c \<Rightarrow> if dt_less now (zc_expires_at c) then Some (db, c) else issue_new signer db now new_id u x y
      | None \<Rightarrow> issue_new signer db now new_id u x y)"

subsection \<open>The verifier (verifier.py)\<close>

record requirement =
  rq_age_ok :: bool
  rq_kyc_ok :: bool
  rq_not_sanctioned :: bool
  rq_kyc_level :: int

definition purpose_claims :: "string \<Rightarrow> requirement option" where
  "purpose_claims = map_of
     [(''asset_transfer'', \<lparr>rq_age_ok = True, rq_kyc_ok = True, rq_not_sanctioned = True, rq_kyc_level = 2\<rparr>),
      (''asset_create'', \<lparr>rq_age_ok = True, rq_kyc_ok = True, rq_not_sanctioned = True, rq_kyc_level = 3\<rparr>),
      (''kyc_gate'', \<lparr>rq_age_ok = False, rq_kyc_ok = True, rq_not_sanctioned = False, rq_kyc_level = 0\<rparr>),
      (''compliance_check'', \<lparr>rq_age_ok = False, rq_kyc_ok = False, rq_not_sanctioned = True, rq_kyc_level = 0\<rparr>)]"

datatype verdict =
    Accepted
  | InvalidSignature
  | CredentialExpired
  | InvalidExpiry
  | KeyMismatch
  | CredentialRevoked
  | UnknownPurpose
  | AgeRequired
  | KycRequired
  | SanctionsClearanceRequired
  | LevelTooLow
  | MalformedProof
  | KeyNotOnCurve
  | SchnorrInvalid
  | NullifierReplayed

text \<open>\<open>ver = None\<close>: loading the platform key raises, which is caught like every other failure.\<close>

definition verify_issuer_sig ::
    "(bytes \<Rightarrow> bytes \<Rightarrow> bool) option \<Rightarrow> (string \<times> json) list \<Rightarrow> string \<Rightarrow> bool" where
  "verify_issuer_sig ver claim sig_hex =
     (case (ver, fromhex sig_hex) of
        (Some v, Some sig) \<Rightarrow> v sig (canonical_json claim)
      | _ \<Rightarrow> False)"

text \<open>Python truth and integer value of a JSON value; a value that does not compare raises.\<close>

fun json_truthy :: "json \<Rightarrow> bool" where
  "json_truthy JNull = False"
| "json_truthy (JBool b) = b"
| "json_truthy (JInt i) = (i \<noteq> 0)"
| "json_truthy (JStr s) = (s \<noteq> [])"
| "json_truthy (JList js) = (js \<noteq> [])"
| "json_truthy (JObj kvs) = (kvs \<noteq> [])"

fun json_int :: "json \<Rightarrow> int option" where
  "json_int (JInt i) = Some i"
| "json_int (JBool b) = Some (if b then 1 else 0)"
| "json_int _ = None"

definition claim_flag :: "(string \<times> json) list \<Rightarrow> string \<Rightarrow> bool" where
  "claim_flag claim k = (case map_of claim k of None \<Rightarrow> False | Some j \<Rightarrow> json_truthy j)"

definition claim_level :: "(string \<times> json) list \<Rightarrow> int option" where
  "claim_level claim = (case map_of claim ''kyc_level'' of None \<Rightarrow> Some 0 | Some j \<Rightarrow> json_int j)"

definition check_purpose_claims :: "(string \<times> json) list \<Rightarrow> string \<Rightarrow> verdict option" where
  "check_purpose_claims claim purpose =
     (case purpose_claims purpose of
        None \<Rightarrow> Some UnknownPurpose
      | Some rq \<Rightarrow>
          if rq_age_ok rq \<and> \<not> claim_flag claim ''age_ok'' then Some AgeRequired
          else if rq_kyc_ok rq \<and> \<not> claim_flag claim ''kyc_ok'' then Some KycRequired
          else if rq_not_sanctioned rq \<and> \<not> claim_flag claim ''not_sanctioned'' then Some SanctionsClearanceRequired
          else (case claim_level claim of
                  None \<Rightarrow> None
                | Some l \<Rightarrow> if l < rq_kyc_level rq then Some LevelTooLow else Some Accepted))"

record proof_request =
  pr_public_key_x :: string
  pr_public_key_y :: string
  pr_Rx :: string
  pr_Ry :: string
  pr_s :: string
  pr_purpose :: string
  pr_context :: string
  pr_nullifier :: string
  pr_credential_claim :: "(string \<times> json) list"
  pr_credential_sig :: string

definition check_expiry :: "datetime \<Rightarrow> (string \<times> json) list \<Rightarrow> verdict option" where
  "check_expiry now claim =
     (case (case map_of claim ''expires_at'' of None \<Rightarrow> JStr [] | Some j \<Rightarrow> j) of
        JStr s \<Rightarrow>
          (case fromisoformat s of
             None \<Rightarrow> Some InvalidExpiry
           | Some t \<Rightarrow> if dt_less t now then Some CredentialExpired else Some Accepted)
      | _ \<Rightarrow> None)"

definition check_schnorr :: "(bytes \<Rightarrow> bytes) \<Rightarrow> curve \<Rightarrow> proof_request \<Rightarrow> verdict option" where
  "check_schnorr H ec r =
     (case (point_from_hex (pr_public_key_x r) (pr_public_key_y r), int16 (pr_Rx r), int16 (pr_Ry r), int16 (pr_s r)) of
        (Some Y, Some rx, Some ry, Some s) \<Rightarrow>
          if \<not> is_on_curve ec (Some Y) then Some KeyNotOnCurve
          else (case schnorr_verify H ec \<lparr>sp_Rx = rx, sp_Ry = ry, sp_s = s\<rparr> Y
                       (utf8 (pr_purpose r @ '':'' @ pr_context r)) of
                  None \<Rightarrow> None
                | Some ok \<Rightarrow> Some (if ok then Accepted else SchnorrInvalid))
      | _ \<Rightarrow> Some MalformedProof)"

text \<open>The checks before the nullifier, in the order of the code.\<close>

definition check_proof ::
    "(bytes \<Rightarrow> bytes) \<Rightarrow> curve \<Rightarrow> (bytes \<Rightarrow> bytes \<Rightarrow> bool) option \<Rightarrow> zkp_db \<Rightarrow> datetime \<Rightarrow> proof_request \<Rightarrow> verdict option" where
  "check_proof H ec ver db now r =
     (let claim = pr_credential_claim r in
      if \<not> verify_issuer_sig ver claim (pr_credential_sig r) then Some InvalidSignature
      else case check_expiry now claim of
             None \<Rightarrow> None
           | Some Accepted \<Rightarrow>
               if map_of claim ''Y_x'' \<noteq> Some (JStr (pr_public_key_x r)) \<or> map_of claim ''Y_y'' \<noteq> Some (JStr (pr_public_key_y r))
               then Some KeyMismatch
               else if \<exists>c \<in> set (zdb_credentials db). zc_public_key_x c = pr_public_key_x r \<and> zc_revoked c
               then Some CredentialRevoked
               else (case check_purpose_claims claim (pr_purpose r) of
                       None \<Rightarrow> None
                     | Some Accepted \<Rightarrow> check_schnorr H ec r
                     | Some v \<Rightarrow> Some v)
           | Some v \<Rightarrow> Some v)"

text \<open>The nullifier column holds 64 characters; a longer one makes the insert fail.\<close>

definition verify_proof ::
    "(bytes \<Rightarrow> bytes) \<Rightarrow> curve \<Rightarrow> (bytes \<Rightarrow> bytes \<Rightarrow> bool) option \<Rightarrow> zkp_db \<Rightarrow> datetime \<Rightarrow> proof_request \<Rightarrow>
     (zkp_db \<times> verdict) option" where
  "verify_proof H ec ver db now r =
     (case check_proof H ec ver db now r of
        None \<Rightarrow> None
      | Some Accepted \<Rightarrow>
          if \<exists>n \<in> set (zdb_nullifiers db). zn_nullifier_hex n = pr_nullifier r then Some (db, NullifierReplayed)
          else if 64 < length (pr_nullifier r) \<or> 128 < length (pr_purpose r) then None
          else Some (db\<lparr>zdb_nullifiers := zdb_nullifiers db @
                  [\<lparr>zn_nullifier_hex = pr_nullifier r, zn_purpose = pr_purpose r, zn_public_key_x = pr_public_key_x r\<rparr>]\<rparr>,
                Accepted)
      | Some v \<Rightarrow> Some (db, v))"

subsection \<open>Endpoints (router.py)\<close>

text \<open>The answer carries the claim, its signature and the root of the sanctions tree.\<close>

definition setup_key ::
    "(bytes \<Rightarrow> bytes) \<Rightarrow> (bytes \<Rightarrow> bytes) option \<Rightarrow> zkp_db \<Rightarrow> string option \<Rightarrow> datetime \<Rightarrow> uuid \<Rightarrow> string \<Rightarrow> string \<Rightarrow>
     merkle_tree option \<Rightarrow> document \<Rightarrow>
     app_error + zkp_db \<times> zkp_credential \<times> (string \<times> json) list \<times> string" where
  "setup_key H signer db sub now new_id x y cached doc =
     (case get_current_user (cdb_users (zdb_compliance db)) sub of
        Inl e \<Rightarrow> Inl e
      | Inr u \<Rightarrow> (case issue_credential signer db now new_id (user_id u) x y of
                    None \<Rightarrow> Inl (HTTPException 500)
                  | Some (db', c) \<Rightarrow>
                      Inr (db', c, build_claim_dict c, bytes_hex (root (snd (get_sanctions_tree H cached doc))))))"

definition verify_endpoint ::
    "(bytes \<Rightarrow> bytes) \<Rightarrow> curve \<Rightarrow> (bytes \<Rightarrow> bytes \<Rightarrow> bool) option \<Rightarrow> zkp_db \<Rightarrow> string option \<Rightarrow> datetime \<Rightarrow> proof_request \<Rightarrow>
     app_error + zkp_db" where
  "verify_endpoint H ec ver db sub now r =
     (case get_current_user (cdb_users (zdb_compliance db)) sub of
        Inl e \<Rightarrow> Inl e
      | Inr u \<Rightarrow>
          if 128 < length (pr_purpose r) \<or> 256 < length (pr_context r) then Inl (HTTPException 422)
          else (case verify_proof H ec ver db now r of
                  None \<Rightarrow> Inl UnhandledError
                | Some (db', Accepted) \<Rightarrow> Inr db'
                | Some _ \<Rightarrow> Inl (HTTPException 400)))"

record zkp_status_response =
  zs_credential :: "zkp_credential option"
  zs_sanctions_tree_root :: string

definition zkp_status ::
    "(bytes \<Rightarrow> bytes) \<Rightarrow> zkp_db \<Rightarrow> string option \<Rightarrow> merkle_tree option \<Rightarrow> document \<Rightarrow> app_error + zkp_status_response" where
  "zkp_status H db sub cached doc =
     (case get_current_user (cdb_users (zdb_compliance db)) sub of
        Inl e \<Rightarrow> Inl e
      | Inr u \<Rightarrow>
          Inr \<lparr>zs_credential = latest (\<lambda>c. dt_key (zc_issued_at c))
                 (filter (\<lambda>c. zc_user_id c = user_id u) (zdb_credentials db)),
               zs_sanctions_tree_root = bytes_hex (root (snd (get_sanctions_tree H cached doc)))\<rparr>)"

text \<open>\<open>cid = None\<close>: the path segment is not a UUID, and \<open>uuid.UUID\<close> raises.\<close>

definition revoke_credential ::
    "zkp_db \<Rightarrow> string option \<Rightarrow> datetime \<Rightarrow> uuid option \<Rightarrow> string \<Rightarrow> app_error + zkp_db" where
  "revoke_credential db sub now cid reason =
     (case get_current_user (cdb_users (zdb_compliance db)) sub of
        Inl e \<Rightarrow> Inl e
      | Inr u \<Rightarrow>
          (case cid of
             None \<Rightarrow> Inl UnhandledError
           | Some i \<Rightarrow>
               (case scalar_one_or_none (filter (\<lambda>c. zc_id c = i) (zdb_credentials db)) of
                  NoRow \<Rightarrow> Inl (HTTPException 404)
                | ManyRows \<Rightarrow> Inl UnhandledError
                | OneRow c \<Rightarrow>
                    if zc_user_id c \<noteq> user_id u \<and> user_role u \<notin> {''SUPER_ADMIN'', ''COMPLIANCE_OFFICER''}
                    then Inl (HTTPException 403)
                    else Inr (db\<lparr>zdb_credentials := update_where (\<lambda>c. zc_id c = i)
                           (\<lambda>c. c\<lparr>zc_revoked := True, zc_revoked_at := Some now, zc_revoked_reason := Some reason\<rparr>)
                           (zdb_credentials db)\<rparr>))))"

subsection \<open>The component as a machine\<close>

datatype zkp_call =
    IssueCall datetime uuid uuid string string
  | VerifyCall datetime proof_request
  | RevokeCall "string option" datetime "uuid option" string

record zkp_env =
  ze_H :: "bytes \<Rightarrow> bytes"
  ze_curve :: curve
  ze_sign :: "bytes \<Rightarrow> bytes"
  ze_ver :: "bytes \<Rightarrow> bytes \<Rightarrow> bool"

definition zkp_step :: "zkp_env \<Rightarrow> zkp_db \<Rightarrow> zkp_call \<Rightarrow> zkp_db" where
  "zkp_step e db call =
     (case call of
        IssueCall now new_id u x y \<Rightarrow>
          (case issue_credential (Some (ze_sign e)) db now new_id u x y of None \<Rightarrow> db | Some (db', _) \<Rightarrow> db')
      | VerifyCall now r \<Rightarrow>
          (case verify_proof (ze_H e) (ze_curve e) (Some (ze_ver e)) db now r of None \<Rightarrow> db | Some (db', _) \<Rightarrow> db')
      | RevokeCall sub now cid reason \<Rightarrow>
          (case revoke_credential db sub now cid reason of Inl _ \<Rightarrow> db | Inr db' \<Rightarrow> db'))"

definition credential_ok :: "zkp_env \<Rightarrow> zkp_credential \<Rightarrow> bool" where
  "credential_ok e c \<longleftrightarrow> zc_issuer_sig c = sign_claim (ze_sign e) (build_claim_dict c)"

definition zkp_inv :: "zkp_env \<Rightarrow> zkp_db \<Rightarrow> bool" where
  "zkp_inv e db \<longleftrightarrow>
     distinct (map zn_nullifier_hex (zdb_nullifiers db)) \<and> list_all (credential_ok e) (zdb_credentials db)"

definition revoked_keys :: "zkp_db \<Rightarrow> string set" where
  "revoked_keys db = zc_public_key_x ` {c \<in> set (zdb_credentials db). zc_revoked c}"

text \<open>Used nullifiers and revoked keys are never forgotten.\<close>

definition zkp_le :: "zkp_db \<Rightarrow> zkp_db \<Rightarrow> bool" where
  "zkp_le db db' \<longleftrightarrow>
     (\<exists>new. zdb_nullifiers db' = zdb_nullifiers db @ new) \<and> revoked_keys db \<subseteq> revoked_keys db' \<and>
     zdb_compliance db' = zdb_compliance db"

lemma issue_new_Some:
  assumes "issue_new signer db now new_id u x y = Some (db', c)"
  shows "db' = db\<lparr>zdb_credentials := zdb_credentials db @ [c]\<rparr>"
    and "\<exists>sign. signer = Some sign \<and> zc_issuer_sig c = sign_claim sign (build_claim_dict c)"
    and "\<not> zc_revoked c"
    and "(zc_age_ok c, zc_kyc_ok c, zc_not_sanctioned c, zc_kyc_level c) = check_eligibility (zdb_compliance db) now u"
    and "zc_public_key_x c = x" and "zc_public_key_y c = y" and "zc_user_id c = u"
    and "add_days CREDENTIAL_TTL_DAYS now = Some (zc_expires_at c)"
  using assms by (auto simp: issue_new_def build_claim_dict_def Let_def split: prod.splits option.splits if_splits)

lemma issue_credential_cases:
  assumes "issue_credential signer db now new_id u x y = Some (db', c)"
  obtains (existing) "db' = db" "c \<in> set (zdb_credentials db)" "zc_user_id c = u" "zc_public_key_x c = x"
      "\<not> zc_revoked c" "dt_less now (zc_expires_at c)"
  | (fresh) "issue_new signer db now new_id u x y = Some (db', c)"
proof (cases "latest (\<lambda>c. dt_key (zc_issued_at c))
    (filter (\<lambda>c. zc_user_id c = u \<and> zc_public_key_x c = x \<and> \<not> zc_revoked c) (zdb_credentials db))")
  case None
  then show ?thesis using assms fresh by (simp add: issue_credential_def)
next
  case (Some d)
  note mem = latest_mem [OF this]
  show ?thesis
  proof (cases "dt_less now (zc_expires_at d)")
    case True
    then show ?thesis using assms Some mem existing by (simp add: issue_credential_def)
  next
    case False
    then show ?thesis using assms Some fresh by (simp add: issue_credential_def)
  qed
qed

lemma verify_proof_Some:
  assumes "verify_proof H ec ver db now r = Some (db', v)"
  shows "v \<noteq> Accepted \<Longrightarrow> db' = db"
    and "v = Accepted \<Longrightarrow> check_proof H ec ver db now r = Some Accepted \<and>
      pr_nullifier r \<notin> zn_nullifier_hex ` set (zdb_nullifiers db) \<and> length (pr_nullifier r) \<le> 64 \<and>
      db' = db\<lparr>zdb_nullifiers := zdb_nullifiers db @
        [\<lparr>zn_nullifier_hex = pr_nullifier r, zn_purpose = pr_purpose r, zn_public_key_x = pr_public_key_x r\<rparr>]\<rparr>"
  using assms by (auto simp: verify_proof_def split: option.splits verdict.splits if_splits)

lemma revoke_credential_Inr:
  assumes "revoke_credential db sub now cid reason = Inr db'"
  shows "\<exists>i c. cid = Some i \<and> filter (\<lambda>c. zc_id c = i) (zdb_credentials db) = [c] \<and>
    db' = db\<lparr>zdb_credentials := update_where (\<lambda>c. zc_id c = i)
      (\<lambda>c. c\<lparr>zc_revoked := True, zc_revoked_at := Some now, zc_revoked_reason := Some reason\<rparr>) (zdb_credentials db)\<rparr>"
  using assms by (auto simp: revoke_credential_def split: sum.splits option.splits one.splits if_splits)

lemma issue_step:
  assumes "zkp_inv e db" and "issue_credential (Some (ze_sign e)) db now new_id u x y = Some (db', c)"
  shows "zkp_inv e db' \<and> zkp_le db db' \<and> credential_ok e c"
  using assms(2)
proof (cases rule: issue_credential_cases)
  case existing
  then show ?thesis using assms(1) by (auto simp: zkp_inv_def zkp_le_def list_all_iff)
next
  case fresh
  note f = issue_new_Some [OF fresh]
  have "credential_ok e c" using f(2) by (auto simp: credential_ok_def)
  then show ?thesis using f(1) assms(1) by (auto simp: zkp_inv_def zkp_le_def revoked_keys_def)
qed

lemma verify_step:
  assumes "zkp_inv e db" and "verify_proof H ec ver db now r = Some (db', v)"
  shows "zkp_inv e db' \<and> zkp_le db db'"
  using assms(1) verify_proof_Some [OF assms(2)]
  by (cases "v = Accepted") (auto simp: zkp_inv_def zkp_le_def revoked_keys_def)

lemma revoke_step:
  assumes "zkp_inv e db" and "revoke_credential db sub now cid reason = Inr db'"
  shows "zkp_inv e db' \<and> zkp_le db db'"
proof -
  obtain i where db': "db' = db\<lparr>zdb_credentials := update_where (\<lambda>c. zc_id c = i)
      (\<lambda>c. c\<lparr>zc_revoked := True, zc_revoked_at := Some now, zc_revoked_reason := Some reason\<rparr>) (zdb_credentials db)\<rparr>"
    using revoke_credential_Inr [OF assms(2)] by blast
  have "zkp_inv e db'"
    using assms(1)
    by (auto simp: zkp_inv_def db' list_all_iff set_update_where credential_ok_def build_claim_dict_def)
  moreover have "revoked_keys db \<subseteq> revoked_keys db'"
  proof
    fix k assume "k \<in> revoked_keys db"
    then obtain c where c: "c \<in> set (zdb_credentials db)" "zc_revoked c" "k = zc_public_key_x c"
      by (auto simp: revoked_keys_def)
    let ?c = "if zc_id c = i then c\<lparr>zc_revoked := True, zc_revoked_at := Some now, zc_revoked_reason := Some reason\<rparr> else c"
    have "?c \<in> set (zdb_credentials db')" using c(1) by (auto simp: db' set_update_where)
    moreover have "zc_revoked ?c" "zc_public_key_x ?c = k" using c by auto
    ultimately show "k \<in> revoked_keys db'" unfolding revoked_keys_def by blast
  qed
  ultimately show ?thesis by (simp add: zkp_le_def db')
qed

lemma zkp_step_ok: "zkp_inv e db \<Longrightarrow> zkp_inv e (zkp_step e db call) \<and> zkp_le db (zkp_step e db call)"
proof (cases call)
  case (IssueCall now new_id u x y)
  assume "zkp_inv e db"
  then show ?thesis using IssueCall issue_step [of e db now new_id u x y]
    by (auto simp: zkp_step_def zkp_le_def split: option.splits prod.splits)
next
  case (VerifyCall now r)
  assume "zkp_inv e db"
  then show ?thesis using VerifyCall verify_step [of e db]
    by (auto simp: zkp_step_def zkp_le_def split: option.splits prod.splits)
next
  case (RevokeCall sub now cid reason)
  assume "zkp_inv e db"
  then show ?thesis using RevokeCall revoke_step [of e db sub now cid reason]
    by (auto simp: zkp_step_def zkp_le_def split: sum.splits)
qed

lemma zkp_le_refl: "zkp_le db db"
  by (simp add: zkp_le_def)

lemma zkp_le_trans: "zkp_le a b \<Longrightarrow> zkp_le b c \<Longrightarrow> zkp_le a c"
  by (auto simp: zkp_le_def)

interpretation zkp: growing "zkp_step e" "zkp_inv e" zkp_le for e
  by unfold_locales (auto simp: zkp_step_ok zkp_le_refl intro: zkp_le_trans)

subsection \<open>What acceptance means\<close>

lemma revoked_iff: "(\<exists>c \<in> set (zdb_credentials db). zc_public_key_x c = k \<and> zc_revoked c) \<longleftrightarrow> k \<in> revoked_keys db"
  by (auto simp: revoked_keys_def)

lemma used_iff: "(\<exists>n \<in> set ns. zn_nullifier_hex n = h) \<longleftrightarrow> h \<in> zn_nullifier_hex ` set ns"
  by auto

lemma check_proof_Accepted:
  "check_proof H ec ver db now r = Some Accepted \<longleftrightarrow>
     verify_issuer_sig ver (pr_credential_claim r) (pr_credential_sig r) \<and>
     check_expiry now (pr_credential_claim r) = Some Accepted \<and>
     map_of (pr_credential_claim r) ''Y_x'' = Some (JStr (pr_public_key_x r)) \<and>
     map_of (pr_credential_claim r) ''Y_y'' = Some (JStr (pr_public_key_y r)) \<and>
     pr_public_key_x r \<notin> revoked_keys db \<and>
     check_purpose_claims (pr_credential_claim r) (pr_purpose r) = Some Accepted \<and>
     check_schnorr H ec r = Some Accepted"
  unfolding check_proof_def revoked_iff by (auto simp: Let_def split: option.splits verdict.splits)

text \<open>
  C1: a proof is accepted exactly when every check of the pipeline holds (issuer signature over
  the claim, expiry, key of the claim, no revoked credential under the key, the claims the
  purpose requires, the Schnorr equation for that purpose and context) and the nullifier is
  unused and fits its column; acceptance stores the nullifier, and no other verdict changes the
  database.
\<close>

theorem verify_proof_accepts_iff:
  "(\<exists>db'. verify_proof H ec ver db now r = Some (db', Accepted)) \<longleftrightarrow>
     verify_issuer_sig ver (pr_credential_claim r) (pr_credential_sig r) \<and>
     check_expiry now (pr_credential_claim r) = Some Accepted \<and>
     map_of (pr_credential_claim r) ''Y_x'' = Some (JStr (pr_public_key_x r)) \<and>
     map_of (pr_credential_claim r) ''Y_y'' = Some (JStr (pr_public_key_y r)) \<and>
     pr_public_key_x r \<notin> revoked_keys db \<and>
     check_purpose_claims (pr_credential_claim r) (pr_purpose r) = Some Accepted \<and>
     check_schnorr H ec r = Some Accepted \<and>
     pr_nullifier r \<notin> zn_nullifier_hex ` set (zdb_nullifiers db) \<and> length (pr_nullifier r) \<le> 64"
proof -
  have "length (pr_purpose r) \<le> 128" if "check_purpose_claims (pr_credential_claim r) (pr_purpose r) = Some Accepted"
    using that by (auto simp: check_purpose_claims_def purpose_claims_def split: option.splits if_splits)
  then show ?thesis
    using check_proof_Accepted [of H ec ver db now r]
    unfolding verify_proof_def used_iff by (auto split: option.splits verdict.splits)
qed

text \<open>
  C2: nullifiers are single-use and revocation is final. In any run of issuances, verifications
  and revocations, a nullifier accepted once is never accepted again, and no proof is accepted
  under a public key that has a revoked credential.
\<close>

theorem nullifier_single_use:
  assumes "zkp_inv e db0" and "db = foldl (zkp_step e) db0 before"
    and "verify_proof (ze_H e) (ze_curve e) (Some (ze_ver e)) db now r = Some (db1, Accepted)"
    and "db2 = foldl (zkp_step e) db1 between"
    and "pr_nullifier r' = pr_nullifier r \<or> pr_public_key_x r' \<in> revoked_keys db1"
  shows "verify_proof (ze_H e) (ze_curve e) (Some (ze_ver e)) db2 later r' \<noteq> Some (db', Accepted)"
proof
  assume acc: "verify_proof (ze_H e) (ze_curve e) (Some (ze_ver e)) db2 later r' = Some (db', Accepted)"
  have "zkp_inv e db" using zkp.inv_run [OF assms(1)] assms(2) by simp
  then have inv1: "zkp_inv e db1" using verify_step [OF _ assms(3)] by blast
  have le: "zkp_le db1 db2" using zkp.le_run [OF inv1] assms(4) by simp
  have "pr_nullifier r \<in> zn_nullifier_hex ` set (zdb_nullifiers db1)"
    using verify_proof_Some(2) [OF assms(3) refl] by simp
  then have "pr_nullifier r \<in> zn_nullifier_hex ` set (zdb_nullifiers db2)"
    using le by (auto simp: zkp_le_def)
  moreover have "pr_nullifier r' \<notin> zn_nullifier_hex ` set (zdb_nullifiers db2)"
    "pr_public_key_x r' \<notin> revoked_keys db2"
    using verify_proof_Some(2) [OF acc refl] by (auto simp: check_proof_Accepted)
  ultimately show False using assms(5) le by (auto simp: zkp_le_def)
qed

text \<open>
  C17: the nullifier is not bound to the proof. Whoever holds an accepted request can submit the
  same proof again with any other unused nullifier of at most 64 characters, and it is accepted
  again.
\<close>

theorem proof_replay_with_fresh_nullifier:
  assumes "verify_proof H ec ver db now r = Some (db1, Accepted)"
    and "n \<noteq> pr_nullifier r" and "n \<notin> zn_nullifier_hex ` set (zdb_nullifiers db)" and "length n \<le> 64"
  shows "\<exists>db2. verify_proof H ec ver db1 now (r\<lparr>pr_nullifier := n\<rparr>) = Some (db2, Accepted)"
proof -
  note acc = verify_proof_Some(2) [OF assms(1) refl]
  have "check_schnorr H ec (r\<lparr>pr_nullifier := n\<rparr>) = check_schnorr H ec r"
    by (simp add: check_schnorr_def cong: option.case_cong if_cong)
  moreover have "revoked_keys db1 = revoked_keys db" using acc by (simp add: revoked_keys_def)
  ultimately have "check_proof H ec ver db1 now (r\<lparr>pr_nullifier := n\<rparr>) = Some Accepted"
    using acc by (simp add: check_proof_Accepted)
  moreover have "length (pr_purpose r) \<le> 128"
    using assms(1) acc by (auto simp: verify_proof_def split: if_splits)
  ultimately show ?thesis using acc assms(2-4) by (auto simp: verify_proof_def)
qed

text \<open>
  Denied by default. A credential issued to a user without a compliance record satisfies the
  claims of no purpose, so no proof with it is accepted.
\<close>

theorem unscreened_user_denied:
  assumes "latest_record (zdb_compliance db) u = None"
    and "issue_new signer db now new_id u x y = Some (db', c)"
  shows "check_purpose_claims (build_claim_dict c) purpose \<noteq> Some Accepted"
proof -
  have "\<not> zc_kyc_ok c" "\<not> zc_not_sanctioned c"
    using issue_new_Some(4) [OF assms(2)] assms(1) by (auto simp: check_eligibility_def)
  then show ?thesis
    by (auto simp: check_purpose_claims_def purpose_claims_def build_claim_dict_def claim_dict_def claim_flag_def)
qed

subsection \<open>From issuance to acceptance\<close>

lemma next_day_valid: "valid_datetime t \<Longrightarrow> dt_year (next_day t) \<le> 9999 \<Longrightarrow> valid_datetime (next_day t)"
  by (auto simp: valid_datetime_def next_day_def days_in_month_def split: if_splits)

lemma next_day_year: "dt_year t \<le> dt_year (next_day t)"
  by (simp add: next_day_def)

lemma add_days_valid:
  assumes "valid_datetime t" and "add_days n t = Some u"
  shows "valid_datetime u"
proof -
  have "valid_datetime ((next_day ^^ n) t)" if "dt_year ((next_day ^^ n) t) \<le> 9999" for n
    using that
  proof (induction n)
    case (Suc n)
    then have "dt_year ((next_day ^^ n) t) \<le> 9999"
      using next_day_year [of "(next_day ^^ n) t"] by simp
    then show ?case using Suc by (simp add: next_day_valid)
  qed (simp add: assms(1))
  then show ?thesis using assms(2) by (auto simp: add_days_def Let_def split: if_splits)
qed

lemma add_days_defined: "dt_year t + n \<le> 9999 \<Longrightarrow> \<exists>u. add_days n t = Some u"
proof -
  assume "dt_year t + n \<le> 9999"
  moreover have "dt_year ((next_day ^^ n) t) \<le> dt_year t + n"
    by (induction n) (auto simp: next_day_def)
  ultimately show ?thesis by (simp add: add_days_def Let_def)
qed

lemma next_day_later: "dt_less t (next_day t)"
  by (simp add: dt_less_def dt_key_def next_day_def)

lemma add_days_not_before: "add_days n t = Some u \<Longrightarrow> \<not> dt_less u t"
proof -
  assume "add_days n t = Some u"
  then have u: "u = (next_day ^^ n) t" by (simp add: add_days_def Let_def split: if_splits)
  have "dt_key t \<le> dt_key ((next_day ^^ n) t)"
  proof (induction n)
    case (Suc n)
    also have "dt_key ((next_day ^^ n) t) < dt_key (next_day ((next_day ^^ n) t))"
      using next_day_later by (simp add: dt_less_def)
    finally show ?case by simp
  qed simp
  then show ?thesis by (simp add: u dt_less_def not_less)
qed

text \<open>
  C3: an eligible holder of a key gets through. Take a user whose latest compliance record is
  approved, unexpired, not sanctioned and of the level the purpose asks for, a fresh credential
  issued for the public key of \<open>x\<close>, and an honest Schnorr proof for the purpose and context. As
  long as the credential has not expired, the key is not revoked and the nullifier is unused,
  the proof is accepted. Relied on: the platform's signatures verify, and the curve laws.
\<close>

theorem eligible_holder_accepted:
  assumes laws: "curve_laws ec" "\<And>m. ver (sign m) m"
    and approved: "latest_record (zdb_compliance db) u = Some rec" "cr_kyc_status rec = ''APPROUVE''"
      "\<not> cr_is_expired now rec" "\<not> cr_sanctions_hit rec"
    and purpose: "purpose_claims purpose = Some rq" "max 2 (rq_kyc_level rq) \<le> cr_kyc_level rec"
    and keys: "1 \<le> x" "x < ec_N ec" "1 \<le> k" "k < ec_N ec"
    and key: "public_key_from_private ec x = Y" "point_to_hex Y = (hx, hy)"
    and issued: "valid_datetime now" "issue_new (Some sign) db now new_id u hx hy = Some (db1, c)"
    and proven: "schnorr_prove H ec k x Y (utf8 (purpose @ '':'' @ ctx)) = Some (p, nf)"
    and size: "length (utf8 (purpose @ '':'' @ ctx)) < 2 ^ 32" "length n \<le> 64"
    and fresh: "hx \<notin> revoked_keys db" "n \<notin> zn_nullifier_hex ` set (zdb_nullifiers db)"
      "\<not> dt_less (zc_expires_at c) later"
  shows "\<exists>db2. verify_proof H ec (Some ver) db1 later
    \<lparr>pr_public_key_x = hx, pr_public_key_y = hy, pr_Rx = py_hex (sp_Rx p), pr_Ry = py_hex (sp_Ry p),
     pr_s = py_hex (sp_s p), pr_purpose = purpose, pr_context = ctx, pr_nullifier = n,
     pr_credential_claim = build_claim_dict c, pr_credential_sig = zc_issuer_sig c\<rparr> = Some (db2, Accepted)"
    (is "\<exists>db2. verify_proof H ec (Some ver) db1 later ?r = Some (db2, Accepted)")
proof -
  note i = issue_new_Some [OF issued(2)]
  have flags: "zc_age_ok c" "zc_kyc_ok c" "zc_not_sanctioned c" "zc_kyc_level c = cr_kyc_level rec"
    using i(4) approved purpose by (auto simp: check_eligibility_def)
  have sig: "verify_issuer_sig (Some ver) (build_claim_dict c) (zc_issuer_sig c)"
    using i(2) laws(2) by (auto simp: verify_issuer_sig_def sign_claim_def)
  have "fromisoformat (isoformat (zc_expires_at c)) = Some (zc_expires_at c)"
    by (rule fromisoformat_isoformat [OF add_days_valid [OF issued(1) i(8)]])
  then have expiry: "check_expiry later (build_claim_dict c) = Some Accepted"
    using fresh(3) by (simp add: check_expiry_def build_claim_dict_def claim_dict_def)
  have "check_purpose_claims (build_claim_dict c) purpose = Some Accepted"
    using purpose flags
    by (simp add: check_purpose_claims_def build_claim_dict_def claim_dict_def claim_flag_def claim_level_def)
  moreover have "check_schnorr H ec ?r = Some Accepted"
  proof -
    obtain p' nf' where "schnorr_prove H ec k x Y (utf8 (purpose @ '':'' @ ctx)) = Some (p', nf')"
      "schnorr_verify H ec p' Y (utf8 (purpose @ '':'' @ ctx)) = Some True"
      using schnorr_completeness [OF laws(1) keys(3,4,1,2) size(1), of H] key(1) by auto
    then have v: "schnorr_verify H ec p Y (utf8 (purpose @ '':'' @ ctx)) = Some True" using proven by simp
    have Y: "point_from_hex hx hy = Some Y" using point_from_to_hex [of Y] key(2) by simp
    have "is_on_curve ec (Some Y)" using laws(1) keys key(1) by (auto simp: curve_laws_def public_key_from_private_def)
    then show ?thesis using v Y by (cases p) (simp add: check_schnorr_def)
  qed
  moreover have "hx \<notin> revoked_keys db1" using fresh(1) i(1,3) by (auto simp: revoked_keys_def)
  ultimately have "check_proof H ec (Some ver) db1 later ?r = Some Accepted"
    using sig expiry i(5,6) by (simp add: check_proof_Accepted) (simp add: build_claim_dict_def claim_dict_def)
  moreover have "length purpose \<le> 128" using purpose(1) by (auto simp: purpose_claims_def split: if_splits)
  moreover have "\<not> (\<exists>m \<in> set (zdb_nullifiers db1). zn_nullifier_hex m = n)" using i(1) fresh(2) by auto
  ultimately show ?thesis using size(2) by (auto simp: verify_proof_def)
qed

subsection \<open>Witnesses\<close>

text \<open>
  The curve with seven points, the message length as digest, key 5 and nonce 3: the challenge for
  the ten bytes \<open>kyc_gate:1\<close> is 3, the response 2.
\<close>

definition sample_zkp_env :: zkp_env where
  "sample_zkp_env = \<lparr>ze_H = length_digest, ze_curve = small_curve, ze_sign = id, ze_ver = (\<lambda>sig m. True)\<rparr>"

definition sample_request :: proof_request where
  "sample_request = \<lparr>pr_public_key_x = ''0x8'', pr_public_key_y = ''0x8'', pr_Rx = ''0xb'', pr_Ry = ''0x8'',
     pr_s = ''0x2'', pr_purpose = ''kyc_gate'', pr_context = ''1'', pr_nullifier = ''ab'',
     pr_credential_claim = [(''Y_x'', JStr ''0x8''), (''Y_y'', JStr ''0x8''), (''kyc_ok'', JBool True),
       (''expires_at'', JStr (isoformat (sample_time\<lparr>dt_year := 2027\<rparr>)))],
     pr_credential_sig = []\<rparr>"

definition sample_holder :: user where
  "sample_holder = \<lparr>user_id = 7, user_org_id = 1, keycloak_sub = Some ''holder'', user_email = ''holder@bank'', user_first_name = None,
     user_last_name = None, user_role = ''TRADER'', user_msp_id = None, user_is_active = True, user_phone = None,
     user_last_login = None\<rparr>"

definition sample_zkp_db :: zkp_db where
  "sample_zkp_db = \<lparr>zdb_credentials = [], zdb_nullifiers = [], zdb_compliance = empty_db\<lparr>cdb_users := [sample_holder]\<rparr>\<rparr>"

lemma sample_holder_exists: "user_exists (zdb_compliance sample_zkp_db) 7"
  by (simp add: user_exists_def sample_zkp_db_def sample_holder_def)

definition used_zkp_db :: zkp_db where
  "used_zkp_db = sample_zkp_db\<lparr>zdb_nullifiers :=
     [\<lparr>zn_nullifier_hex = ''ab'', zn_purpose = ''kyc_gate'', zn_public_key_x = ''0x8''\<rparr>]\<rparr>"

lemma sample_request_accepted:
  "verify_proof length_digest small_curve (Some (\<lambda>sig m. True)) sample_zkp_db sample_time sample_request =
     Some (used_zkp_db, Accepted)"
proof -
  have "check_schnorr length_digest small_curve sample_request = Some Accepted" by code_simp
  moreover have "check_expiry sample_time (pr_credential_claim sample_request) = Some Accepted"
  proof -
    have "valid_datetime (sample_time\<lparr>dt_year := 2027\<rparr>)"
      by (simp add: valid_datetime_def sample_time_def days_in_month_def)
    then have "fromisoformat (isoformat (sample_time\<lparr>dt_year := 2027\<rparr>)) = Some (sample_time\<lparr>dt_year := 2027\<rparr>)"
      by (rule fromisoformat_isoformat)
    then show ?thesis
      by (simp add: check_expiry_def sample_request_def dt_less_def dt_key_def) (simp add: sample_time_def)
  qed
  moreover have "check_purpose_claims (pr_credential_claim sample_request) (pr_purpose sample_request) = Some Accepted"
    by code_simp
  ultimately have "check_proof length_digest small_curve (Some (\<lambda>sig m. True)) sample_zkp_db sample_time sample_request =
      Some Accepted"
    by (simp add: check_proof_Accepted verify_issuer_sig_def revoked_keys_def) (simp add: sample_request_def sample_zkp_db_def)
  then show ?thesis by (simp add: verify_proof_def) (simp add: sample_request_def sample_zkp_db_def used_zkp_db_def)
qed

theorem nullifier_single_use_witness:
  "verify_proof length_digest small_curve (Some (\<lambda>sig m. True)) used_zkp_db sample_time sample_request \<noteq>
     Some (used_zkp_db, Accepted)"
  using nullifier_single_use [of sample_zkp_env sample_zkp_db sample_zkp_db "[]" sample_time sample_request used_zkp_db
      used_zkp_db "[]" sample_request sample_time used_zkp_db] sample_request_accepted
  by (simp add: sample_zkp_env_def) (simp add: zkp_inv_def sample_zkp_db_def)

theorem proof_replay_with_fresh_nullifier_witness:
  "\<exists>db2. verify_proof length_digest small_curve (Some (\<lambda>sig m. True)) used_zkp_db sample_time
     (sample_request\<lparr>pr_nullifier := ''cd''\<rparr>) = Some (db2, Accepted)"
  by (rule proof_replay_with_fresh_nullifier [OF sample_request_accepted])
    (simp_all add: sample_request_def sample_zkp_db_def)

lemma sample_ttl: "\<exists>t. add_days CREDENTIAL_TTL_DAYS sample_time = Some t"
  by (rule add_days_defined) (simp add: CREDENTIAL_TTL_DAYS_def sample_time_def)

theorem unscreened_user_denied_witness:
  "\<exists>db' c. issue_new (Some id) sample_zkp_db sample_time 1 7 ''0x8'' ''0x8'' = Some (db', c) \<and>
     check_purpose_claims (build_claim_dict c) ''kyc_gate'' \<noteq> Some Accepted"
proof -
  have none: "latest_record (zdb_compliance sample_zkp_db) 7 = None"
    by (simp add: latest_record_def sample_zkp_db_def empty_db_def)
  obtain db' c where i: "issue_new (Some id) sample_zkp_db sample_time 1 7 ''0x8'' ''0x8'' = Some (db', c)"
    using sample_ttl sample_holder_exists by (auto simp: issue_new_def none check_eligibility_def Let_def)
  from unscreened_user_denied [OF none i] i show ?thesis by blast
qed

definition approved_zkp_db :: zkp_db where
  "approved_zkp_db = sample_zkp_db\<lparr>zdb_compliance := (zdb_compliance sample_zkp_db)\<lparr>cdb_records :=
     [rejected_record\<lparr>cr_kyc_status := ''APPROUVE'', cr_sanctions_hit := False\<rparr>]\<rparr>\<rparr>"

lemma approved_holder_exists: "user_exists (zdb_compliance approved_zkp_db) 7"
  using sample_holder_exists by (simp add: user_exists_def approved_zkp_db_def)

theorem eligible_holder_accepted_witness:
  "\<exists>db1 c (p :: schnorr_proof) db2. issue_new (Some id) approved_zkp_db sample_time 1 7 ''0x8'' ''0x8'' = Some (db1, c) \<and>
     verify_proof length_digest small_curve (Some (\<lambda>sig m. sig = m)) db1 sample_time
       \<lparr>pr_public_key_x = ''0x8'', pr_public_key_y = ''0x8'', pr_Rx = py_hex (sp_Rx p), pr_Ry = py_hex (sp_Ry p),
        pr_s = py_hex (sp_s p), pr_purpose = ''asset_create'', pr_context = ''1'', pr_nullifier = ''ab'',
        pr_credential_claim = build_claim_dict c, pr_credential_sig = zc_issuer_sig c\<rparr> = Some (db2, Accepted)"
proof -
  let ?rec = "rejected_record\<lparr>cr_kyc_status := ''APPROUVE'', cr_sanctions_hit := False\<rparr>"
  have rec: "latest_record (zdb_compliance approved_zkp_db) 7 = Some ?rec"
    by (simp add: latest_record_def approved_zkp_db_def empty_db_def rejected_record_def)
  obtain db1 c where i: "issue_new (Some id) approved_zkp_db sample_time 1 7 ''0x8'' ''0x8'' = Some (db1, c)"
    using sample_ttl approved_holder_exists by (auto simp: issue_new_def rec check_eligibility_def Let_def)
  have Y: "public_key_from_private small_curve 5 = (8, 8)" "point_to_hex (8, 8) = (''0x8'', ''0x8'')" by code_simp+
  have "schnorr_prove length_digest small_curve 3 5 (8, 8) (utf8 (''asset_create'' @ '':'' @ ''1'')) \<noteq> None" by code_simp
  then obtain p nf where p: "schnorr_prove length_digest small_curve 3 5 (8, 8) (utf8 (''asset_create'' @ '':'' @ ''1'')) = Some (p, nf)"
    by auto
  have "\<exists>db2. verify_proof length_digest small_curve (Some (\<lambda>sig m. sig = m)) db1 sample_time
       \<lparr>pr_public_key_x = ''0x8'', pr_public_key_y = ''0x8'', pr_Rx = py_hex (sp_Rx p), pr_Ry = py_hex (sp_Ry p),
        pr_s = py_hex (sp_s p), pr_purpose = ''asset_create'', pr_context = ''1'', pr_nullifier = ''ab'',
        pr_credential_claim = build_claim_dict c, pr_credential_sig = zc_issuer_sig c\<rparr> = Some (db2, Accepted)"
  proof (rule eligible_holder_accepted [OF small_curve_laws _ rec _ _ _ _ _ _ _ _ _ Y _ i p])
    show "purpose_claims ''asset_create'' = Some \<lparr>rq_age_ok = True, rq_kyc_ok = True, rq_not_sanctioned = True, rq_kyc_level = 3\<rparr>"
      by (simp add: purpose_claims_def)
    show "\<not> dt_less (zc_expires_at c) sample_time"
      using add_days_not_before [OF issue_new_Some(8) [OF i]] .
    show "valid_datetime sample_time" by (simp add: valid_datetime_def sample_time_def days_in_month_def)
    show "length (utf8 (''asset_create'' @ '':'' @ ''1'')) < 2 ^ 32" by (simp add: utf8_def utf8_char_def)
  qed (simp_all add: rejected_record_def cr_is_expired_def dt_less_def dt_key_def sample_time_def small_curve_simps
      revoked_keys_def approved_zkp_db_def sample_zkp_db_def)
  then obtain db2 where v: "verify_proof length_digest small_curve (Some (\<lambda>sig m. sig = m)) db1 sample_time
       \<lparr>pr_public_key_x = ''0x8'', pr_public_key_y = ''0x8'', pr_Rx = py_hex (sp_Rx p), pr_Ry = py_hex (sp_Ry p),
        pr_s = py_hex (sp_s p), pr_purpose = ''asset_create'', pr_context = ''1'', pr_nullifier = ''ab'',
        pr_credential_claim = build_claim_dict c, pr_credential_sig = zc_issuer_sig c\<rparr> = Some (db2, Accepted)" ..
  show ?thesis by (intro exI conjI, rule i, rule v)
qed

end
