(* ===== verification/Account.thy ===== *)
theory Account
  imports Auth Zkp
begin

text \<open>
  The right to erasure (core/features/auth/router.py, \<open>delete_my_account\<close>), where sessions, the users
  table, the KYC documents and the anonymous credentials meet.
\<close>

subsection \<open>Erasure\<close>

definition anonymised_email :: "uuid \<Rightarrow> string" where
  "anonymised_email i = ''deleted-'' @ uuid_str i @ ''@anonymised.invalid''"

definition anonymise :: "user \<Rightarrow> user" where
  "anonymise u =
     u\<lparr>user_email := anonymised_email (user_id u), user_first_name := None, user_last_name := None,
       user_phone := None, keycloak_sub := None, user_is_active := False\<rparr>"

definition erase_rows :: "datetime \<Rightarrow> user \<Rightarrow> zkp_db \<Rightarrow> zkp_db" where
  "erase_rows now u db =
     (let cdb = zdb_compliance db in
      db\<lparr>zdb_compliance := cdb\<lparr>cdb_users := update_where (\<lambda>v. user_id v = user_id u) (\<lambda>_. anonymise u) (cdb_users cdb),
            cdb_documents := filter (\<lambda>d. kd_user_id d \<noteq> user_id u) (cdb_documents cdb)\<rparr>,
         zdb_credentials := update_where (\<lambda>c. zc_user_id c = user_id u \<and> \<not> zc_revoked c)
            (\<lambda>c. c\<lparr>zc_revoked := True, zc_revoked_at := Some now, zc_revoked_reason := Some ''gdpr_erasure''\<rparr>)
            (zdb_credentials db)\<rparr>)"

text \<open>
  The tables are committed before Redis is written: when Redis does not answer (\<open>up\<close> is false) the
  request fails with the rows already erased and without the marker. \<open>ts\<close> is the time \<open>now\<close> in
  seconds. The deletion in Keycloak is best effort and changes nothing here. The commit fails when
  another row already has the anonymised address.
\<close>

definition delete_my_account ::
  "'s redis \<Rightarrow> zkp_db \<Rightarrow> 's \<Rightarrow> datetime \<Rightarrow> rat \<Rightarrow> bool \<Rightarrow> string option \<Rightarrow> zkp_db \<times> 's \<times> app_error option" where
  "delete_my_account R db s now ts up sub =
     (case get_current_user (cdb_users (zdb_compliance db)) sub of
        Inl e \<Rightarrow> (db, s, Some e)
      | Inr u \<Rightarrow>
          if \<exists>v \<in> set (cdb_users (zdb_compliance db)). user_id v \<noteq> user_id u \<and> user_email v = anonymised_email (user_id u)
          then (db, s, Some UnhandledError)
          else if \<not> up then (erase_rows now u db, s, Some UnhandledError)
          else (erase_rows now u db, erase_store R s ts (or_empty (keycloak_sub u)), None))"

subsection \<open>What an erasure leaves\<close>

lemma erased_users:
  "cdb_users (zdb_compliance (erase_rows now u db)) =
     update_where (\<lambda>v. user_id v = user_id u) (\<lambda>_. anonymise u) (cdb_users (zdb_compliance db))"
  by (simp add: erase_rows_def Let_def)

lemma erased_keys: "zc_public_key_x ` {c \<in> set (zdb_credentials db). zc_user_id c = user_id u} \<subseteq> revoked_keys (erase_rows now u db)"
proof
  fix k assume "k \<in> zc_public_key_x ` {c \<in> set (zdb_credentials db). zc_user_id c = user_id u}"
  then obtain c where c: "c \<in> set (zdb_credentials db)" "zc_user_id c = user_id u" "k = zc_public_key_x c" by blast
  let ?d = "if zc_user_id c = user_id u \<and> \<not> zc_revoked c
    then c\<lparr>zc_revoked := True, zc_revoked_at := Some now, zc_revoked_reason := Some ''gdpr_erasure''\<rparr> else c"
  have "?d \<in> set (zdb_credentials (erase_rows now u db))"
    using c(1) unfolding erase_rows_def update_where_def Let_def by (simp del: if_image_distrib)
  moreover have "zc_revoked ?d" "zc_public_key_x ?d = k" using c by auto
  ultimately show "k \<in> revoked_keys (erase_rows now u db)" unfolding revoked_keys_def by blast
qed

lemma erased_inv: "zkp_inv e db \<Longrightarrow> zkp_inv e (erase_rows now u db)"
  by (auto simp: zkp_inv_def erase_rows_def Let_def update_where_def list_all_iff credential_ok_def build_claim_dict_def)

lemma revoked_key_refused:
  "pr_public_key_x r \<in> revoked_keys db \<Longrightarrow> verify_proof H ec ver db now r \<noteq> Some (db', Accepted)"
  using verify_proof_Some(2) [of H ec ver db now r db' Accepted] by (auto simp: check_proof_Accepted)


lemma erase_marker:
  assumes "redis_server R zs" "ts \<le> t" "t < ts + 2592000" "c_sub p = Some k" "or_zero (c_iat p) \<le> \<lfloor>ts\<rfloor>"
  shows "revoked R (erase_store R s ts k) t p = Some True"
proof -
  have "r_get R (erase_store R s ts k) t (invalidated_key k) = Some (dec_int \<lfloor>ts\<rfloor>)"
    using redis_server.get_setex [OF assms(1), of 2592000 ts t s "invalidated_key k"] assms(2,3)
    by (simp add: erase_store_def)
  then show ?thesis using assms(4,5) by (simp add: revoked_def or_empty_def int10_dec_int Let_def)
qed

lemma anonymise_sub: "keycloak_sub (anonymise u) = None"
  by (simp add: anonymise_def)



definition sample_credential :: zkp_credential where
  "sample_credential =
     (let c = \<lparr>zc_id = 1, zc_user_id = 7, zc_public_key_x = ''0x8'', zc_public_key_y = ''0x8'', zc_age_ok = True, zc_kyc_ok = True,
        zc_not_sanctioned = True, zc_kyc_level = 3, zc_issuer_sig = [], zc_issued_at = sample_date, zc_expires_at = sample_date,
        zc_revoked = False, zc_revoked_at = None, zc_revoked_reason = None\<rparr>
      in c\<lparr>zc_issuer_sig := sign_claim (ze_sign sample_zkp_env) (build_claim_dict c)\<rparr>)"

definition erasable_db :: zkp_db where
  "erasable_db = \<lparr>zdb_credentials = [sample_credential], zdb_nullifiers = [],
     zdb_compliance = empty_db\<lparr>cdb_users := [sample_account\<lparr>keycloak_sub := Some ''u-1''\<rparr>]\<rparr>\<rparr>"


end
