(* ===== verification/Tribunal.thy ===== *)
theory Tribunal
  imports PyFloat Sha256 Interfaces Access
begin

text \<open>
  The commit-reveal tribunal (core/features/tribunal): its two tables, the three operations of
  \<open>TribunalService\<close> and the endpoints that call them. Time is the argument \<open>now\<close>, the UUID the
  database draws for a new vote is the argument \<open>new_id\<close>, and \<open>H\<close> is the digest function
  (SHA-256 in the code). An operation that raises changes nothing: the session is rolled back.
\<close>

subsection \<open>Tables\<close>

record tribunal_session =
  ts_id :: uuid
  ts_asset_id :: uuid
  ts_reason :: string
  ts_status :: string
  ts_final_decision :: "string option"
  ts_expires_at :: int

record tribunal_vote =
  tv_id :: uuid
  tv_session_id :: uuid
  tv_auditor_id :: uuid
  tv_commit_hash :: string
  tv_revealed_vote :: "string option"
  tv_revealed_salt :: "string option"
  tv_reputation_staked :: rat
  tv_slashed :: bool
  tv_rewarded :: bool

record tribunal_db =
  tdb_sessions :: "tribunal_session list"
  tdb_votes :: "tribunal_vote list"

text \<open>
  The first seven are \<open>TribunalError\<close>; the others are what the database layer raises: more or
  less than the one row expected, a duplicate key, a value longer than its column.
\<close>

datatype tribunal_error =
    NoSession
  | WrongStatus string string
  | SessionExpired
  | AlreadyCommitted
  | AlreadyRevealed
  | RevealNotAllowed string
  | MultipleResultsFound
  | NoResultFound
  | IntegrityError
  | DataError

text \<open>\<open>TribunalSession.__init__\<close>: the status defaults to COMMIT.\<close>

definition new_session :: "uuid \<Rightarrow> uuid \<Rightarrow> string \<Rightarrow> string option \<Rightarrow> int \<Rightarrow> tribunal_session" where
  "new_session i asset why st expires =
     \<lparr>ts_id = i, ts_asset_id = asset, ts_reason = why,
      ts_status = (case st of None \<Rightarrow> ''COMMIT'' | Some s \<Rightarrow> s),
      ts_final_decision = None, ts_expires_at = expires\<rparr>"

subsection \<open>Service\<close>

definition compute_commit_hash :: "(bytes \<Rightarrow> bytes) \<Rightarrow> string \<Rightarrow> string \<Rightarrow> string" where
  "compute_commit_hash H vote salt = bytes_hex (H (utf8 (vote @ '':'' @ salt)))"

definition get_active_session ::
    "tribunal_db \<Rightarrow> int \<Rightarrow> uuid \<Rightarrow> string \<Rightarrow> tribunal_error + tribunal_session" where
  "get_active_session db now sid expected =
     (case scalar_one_or_none (filter (\<lambda>s. ts_id s = sid) (tdb_sessions db)) of
        NoRow \<Rightarrow> Inl NoSession
      | ManyRows \<Rightarrow> Inl MultipleResultsFound
      | OneRow sess \<Rightarrow>
          if ts_status sess \<noteq> expected then Inl (WrongStatus (ts_status sess) expected)
          else if ts_expires_at sess < now then Inl SessionExpired
          else Inr sess)"

definition commit_vote ::
    "tribunal_db \<Rightarrow> int \<Rightarrow> uuid \<Rightarrow> uuid \<Rightarrow> uuid \<Rightarrow> string \<Rightarrow> tribunal_error + tribunal_db \<times> tribunal_vote" where
  "commit_vote db now new_id sid auditor h =
     (case get_active_session db now sid ''COMMIT'' of
        Inl e \<Rightarrow> Inl e
      | Inr _ \<Rightarrow>
          (case scalar_one_or_none
                  (filter (\<lambda>v. tv_session_id v = sid \<and> tv_auditor_id v = auditor) (tdb_votes db)) of
             ManyRows \<Rightarrow> Inl MultipleResultsFound
           | OneRow _ \<Rightarrow> Inl AlreadyCommitted
           | NoRow \<Rightarrow>
               let vote = \<lparr>tv_id = new_id, tv_session_id = sid, tv_auditor_id = auditor,
                           tv_commit_hash = h, tv_revealed_vote = None, tv_revealed_salt = None,
                           tv_reputation_staked = 100, tv_slashed = False, tv_rewarded = False\<rparr>
               in if new_id \<in> tv_id ` set (tdb_votes db) then Inl IntegrityError
                  else if 64 < length h then Inl DataError
                  else Inr (db\<lparr>tdb_votes := tdb_votes db @ [vote]\<rparr>, vote)))"

definition reveal_vote ::
    "(bytes \<Rightarrow> bytes) \<Rightarrow> tribunal_db \<Rightarrow> uuid \<Rightarrow> string \<Rightarrow> string \<Rightarrow> tribunal_error + tribunal_db \<times> bool" where
  "reveal_vote H db vid vote salt =
     (case scalar_one_or_none (filter (\<lambda>v. tv_id v = vid) (tdb_votes db)) of
        ManyRows \<Rightarrow> Inl MultipleResultsFound
      | NoRow \<Rightarrow> Inr (db, False)
      | OneRow rec \<Rightarrow>
          if tv_revealed_vote rec \<noteq> None then Inl AlreadyRevealed
          else (case scalar_one_or_none (filter (\<lambda>s. ts_id s = tv_session_id rec) (tdb_sessions db)) of
             ManyRows \<Rightarrow> Inl MultipleResultsFound
           | NoRow \<Rightarrow> Inl NoSession
           | OneRow sess \<Rightarrow>
               if ts_status sess \<notin> {''COMMIT'', ''REVEAL''} then Inl (RevealNotAllowed (ts_status sess))
               else if tv_commit_hash rec \<noteq> compute_commit_hash H vote salt then Inr (db, False)
               else if 20 < length vote \<or> 64 < length salt then Inl DataError
               else Inr (db\<lparr>tdb_votes := update_where (\<lambda>v. tv_id v = vid)
                              (\<lambda>v. v\<lparr>tv_revealed_vote := Some vote, tv_revealed_salt := Some salt\<rparr>)
                              (tdb_votes db)\<rparr>, True)))"

text \<open>
  \<open>tally_and_slash\<close>: the counted rows, the counters, the threshold \<open>total * 2 / 3\<close> (a float),
  the option with the highest count (FRAUD first on a tie) and the settlement of each row.
\<close>

definition counted :: "uuid \<Rightarrow> tribunal_vote \<Rightarrow> bool" where
  "counted sid v \<longleftrightarrow> tv_session_id v = sid \<and> tv_revealed_vote v \<noteq> None"

definition count_for :: "string \<Rightarrow> tribunal_vote list \<Rightarrow> nat" where
  "count_for opt vs = length (filter (\<lambda>v. tv_revealed_vote v = Some opt) vs)"

definition winner :: "tribunal_vote list \<Rightarrow> string \<times> nat" where
  "winner vs =
     (if count_for ''LEGITIMATE'' vs > count_for ''FRAUD'' vs
      then (''LEGITIMATE'', count_for ''LEGITIMATE'' vs) else (''FRAUD'', count_for ''FRAUD'' vs))"

definition decide :: "tribunal_vote list \<Rightarrow> string option" where
  "decide vs =
     (let threshold = fdiv (of_int (int (length vs) * 2)) 3; (opt, n) = winner vs
      in if of_int (int n) \<ge> threshold then Some opt else None)"

definition settle :: "string \<Rightarrow> tribunal_vote \<Rightarrow> tribunal_vote" where
  "settle decision v =
     (if tv_revealed_vote v = Some decision
      then v\<lparr>tv_rewarded := True, tv_slashed := False,
             tv_reputation_staked := fadd (tv_reputation_staked v) 10\<rparr>
      else v\<lparr>tv_slashed := True, tv_rewarded := False,
             tv_reputation_staked := fsub (tv_reputation_staked v) 50\<rparr>)"

definition tally_and_slash :: "tribunal_db \<Rightarrow> uuid \<Rightarrow> tribunal_error + tribunal_db \<times> string option" where
  "tally_and_slash db sid =
     (let votes = filter (counted sid) (tdb_votes db) in
      if votes = [] then Inr (db, None)
      else case decide votes of
             None \<Rightarrow> Inr (db, None)
           | Some decision \<Rightarrow>
               (case scalar_one_or_none (filter (\<lambda>s. ts_id s = sid) (tdb_sessions db)) of
                  NoRow \<Rightarrow> Inl NoResultFound
                | ManyRows \<Rightarrow> Inl MultipleResultsFound
                | OneRow _ \<Rightarrow>
                    Inr (\<lparr>tdb_sessions = update_where (\<lambda>s. ts_id s = sid)
                            (\<lambda>s. s\<lparr>ts_status := ''RESOLVED'', ts_final_decision := Some decision\<rparr>)
                            (tdb_sessions db),
                          tdb_votes = update_where (counted sid) (settle decision) (tdb_votes db)\<rparr>,
                         Some decision)))"

subsection \<open>Endpoints\<close>

text \<open>
  The request bodies and their validation: pydantic rejects a body outside these bounds with
  status 422 before the handler runs. \<open>TribunalError\<close> becomes 409, an error of the database
  layer reaches the catch-all handler.
\<close>

record commit_vote_request =
  cvr_session_id :: uuid
  cvr_commit_hash :: string

record reveal_vote_request =
  rvr_vote_id :: uuid
  rvr_vote :: string
  rvr_salt :: string

definition valid_commit_request :: "commit_vote_request \<Rightarrow> bool" where
  "valid_commit_request r \<longleftrightarrow> length (cvr_commit_hash r) = 64"

definition valid_reveal_request :: "reveal_vote_request \<Rightarrow> bool" where
  "valid_reveal_request r \<longleftrightarrow>
     rvr_vote r \<in> {''FRAUD'', ''LEGITIMATE''} \<and> 8 \<le> length (rvr_salt r) \<and> length (rvr_salt r) \<le> 128"

fun tribunal_http :: "tribunal_error \<Rightarrow> app_error" where
  "tribunal_http MultipleResultsFound = UnhandledError"
| "tribunal_http NoResultFound = UnhandledError"
| "tribunal_http IntegrityError = UnhandledError"
| "tribunal_http DataError = UnhandledError"
| "tribunal_http e = HTTPException 409"

definition commit_vote_endpoint ::
    "user list \<Rightarrow> string option \<Rightarrow> tribunal_db \<Rightarrow> int \<Rightarrow> uuid \<Rightarrow> commit_vote_request \<Rightarrow>
     app_error + tribunal_db \<times> uuid \<times> uuid" where
  "commit_vote_endpoint users sub db now new_id body =
     (case require_role [''AUDITEUR''] users sub of
        Inl e \<Rightarrow> Inl e
      | Inr u \<Rightarrow>
          if \<not> valid_commit_request body then Inl (HTTPException 422)
          else case commit_vote db now new_id (cvr_session_id body) (user_id u) (cvr_commit_hash body) of
                 Inl e \<Rightarrow> Inl (tribunal_http e)
               | Inr (db', v) \<Rightarrow> Inr (db', tv_id v, tv_session_id v))"

definition reveal_vote_endpoint ::
    "(bytes \<Rightarrow> bytes) \<Rightarrow> user list \<Rightarrow> string option \<Rightarrow> tribunal_db \<Rightarrow> reveal_vote_request \<Rightarrow>
     app_error + tribunal_db" where
  "reveal_vote_endpoint H users sub db body =
     (case require_role [''AUDITEUR''] users sub of
        Inl e \<Rightarrow> Inl e
      | Inr u \<Rightarrow>
          if \<not> valid_reveal_request body then Inl (HTTPException 422)
          else case reveal_vote H db (rvr_vote_id body) (rvr_vote body) (rvr_salt body) of
                 Inl e \<Rightarrow> Inl (tribunal_http e)
               | Inr (db', ok) \<Rightarrow> if ok then Inr db' else Inl (HTTPException 400))"

definition tally_session_endpoint ::
    "user list \<Rightarrow> string option \<Rightarrow> tribunal_db \<Rightarrow> uuid \<Rightarrow> app_error + tribunal_db \<times> string option" where
  "tally_session_endpoint users sub db sid =
     (case require_role [''COMPLIANCE_OFFICER'', ''REGULATEUR''] users sub of
        Inl e \<Rightarrow> Inl e
      | Inr u \<Rightarrow>
          (case tally_and_slash db sid of
             Inl e \<Rightarrow> Inl (tribunal_http e)
           | Inr r \<Rightarrow> Inr r))"

subsection \<open>The tribunal as a machine\<close>

datatype tribunal_call =
    Commit int uuid uuid uuid string
  | Reveal uuid string string
  | Tally uuid

definition tribunal_step :: "(bytes \<Rightarrow> bytes) \<Rightarrow> tribunal_db \<Rightarrow> tribunal_call \<Rightarrow> tribunal_db" where
  "tribunal_step H db c =
     (case c of
        Commit now new_id sid auditor h \<Rightarrow>
          (case commit_vote db now new_id sid auditor h of Inl _ \<Rightarrow> db | Inr (db', _) \<Rightarrow> db')
      | Reveal vid vote salt \<Rightarrow>
          (case reveal_vote H db vid vote salt of Inl _ \<Rightarrow> db | Inr (db', _) \<Rightarrow> db')
      | Tally sid \<Rightarrow>
          (case tally_and_slash db sid of Inl _ \<Rightarrow> db | Inr (db', _) \<Rightarrow> db'))"

definition vote_ok :: "(bytes \<Rightarrow> bytes) \<Rightarrow> tribunal_vote \<Rightarrow> bool" where
  "vote_ok H v \<longleftrightarrow>
     (case (tv_revealed_vote v, tv_revealed_salt v) of
        (None, None) \<Rightarrow> \<not> tv_slashed v \<and> \<not> tv_rewarded v \<and> tv_reputation_staked v = 100
      | (Some x, Some salt) \<Rightarrow>
          tv_commit_hash v = compute_commit_hash H x salt \<and> \<not> (tv_slashed v \<and> tv_rewarded v)
      | _ \<Rightarrow> False)"

text \<open>A session is open without a decision, or resolved with the decision its votes give.\<close>

definition session_ok :: "tribunal_vote list \<Rightarrow> tribunal_session \<Rightarrow> bool" where
  "session_ok vs s \<longleftrightarrow>
     (if ts_status s = ''RESOLVED''
      then (case ts_final_decision s of
              None \<Rightarrow> False
            | Some d \<Rightarrow> decide (filter (counted (ts_id s)) vs) = Some d)
      else ts_final_decision s = None)"

definition tribunal_inv :: "(bytes \<Rightarrow> bytes) \<Rightarrow> tribunal_db \<Rightarrow> bool" where
  "tribunal_inv H db \<longleftrightarrow>
     distinct (map ts_id (tdb_sessions db)) \<and>
     distinct (map tv_id (tdb_votes db)) \<and>
     distinct (map (\<lambda>v. (tv_session_id v, tv_auditor_id v)) (tdb_votes db)) \<and>
     list_all (vote_ok H) (tdb_votes db) \<and>
     list_all (session_ok (tdb_votes db)) (tdb_sessions db)"

text \<open>
  The order in which the tables evolve: no vote is removed or re-attributed, a revealed vote
  keeps its content, a resolved session keeps its decision, and a session only moves to RESOLVED.
\<close>

definition vote_le :: "tribunal_vote \<Rightarrow> tribunal_vote \<Rightarrow> bool" where
  "vote_le v w \<longleftrightarrow>
     tv_id w = tv_id v \<and> tv_session_id w = tv_session_id v \<and> tv_auditor_id w = tv_auditor_id v \<and>
     tv_commit_hash w = tv_commit_hash v \<and>
     (tv_revealed_vote v \<noteq> None \<longrightarrow>
        tv_revealed_vote w = tv_revealed_vote v \<and> tv_revealed_salt w = tv_revealed_salt v)"

definition session_le :: "tribunal_session \<Rightarrow> tribunal_session \<Rightarrow> bool" where
  "session_le s t \<longleftrightarrow>
     ts_id t = ts_id s \<and> ts_asset_id t = ts_asset_id s \<and> ts_expires_at t = ts_expires_at s \<and>
     (ts_status s = ''RESOLVED'' \<longrightarrow> t = s) \<and> ts_status t \<in> {ts_status s, ''RESOLVED''}"

definition tribunal_le :: "tribunal_db \<Rightarrow> tribunal_db \<Rightarrow> bool" where
  "tribunal_le db db' \<longleftrightarrow>
     (\<exists>new. \<exists>old. tdb_votes db' = old @ new \<and> list_all2 vote_le (tdb_votes db) old) \<and>
     list_all2 session_le (tdb_sessions db) (tdb_sessions db')"

subsection \<open>The ballots decide\<close>

lemma count_for_map: "count_for opt vs = count_list (map tv_revealed_vote vs) (Some opt)"
  by (induction vs) (auto simp: count_for_def)

lemma decide_cong:
  "map tv_revealed_vote vs = map tv_revealed_vote ws \<Longrightarrow> decide vs = decide ws"
  using map_eq_imp_length_eq [of tv_revealed_vote vs tv_revealed_vote ws]
  by (simp add: decide_def winner_def count_for_map)

lemma filter_update_where_outside:
  "(\<And>x. x \<in> set xs \<Longrightarrow> q x \<Longrightarrow> \<not> P x \<and> \<not> P (f x)) \<Longrightarrow> filter P (update_where q f xs) = filter P xs"
  by (induction xs) (auto simp: update_where_def)

lemma settle_simps [simp]:
  "tv_id (settle d v) = tv_id v" "tv_session_id (settle d v) = tv_session_id v"
  "tv_auditor_id (settle d v) = tv_auditor_id v" "tv_commit_hash (settle d v) = tv_commit_hash v"
  "tv_revealed_vote (settle d v) = tv_revealed_vote v" "tv_revealed_salt (settle d v) = tv_revealed_salt v"
  "counted sid (settle d v) = counted sid v"
  by (simp_all add: settle_def counted_def)

lemma decide_settled:
  "decide (filter (counted sid) (update_where (counted s) (settle d) vs)) = decide (filter (counted sid) vs)"
  by (rule decide_cong) (simp add: filter_update_where map_update_where)

lemma list_all2_update_where:
  assumes "\<And>x. R x x" and "\<And>x. x \<in> set xs \<Longrightarrow> q x \<Longrightarrow> R x (f x)"
  shows "list_all2 R xs (update_where q f xs)"
  using assms by (induction xs) (auto simp: update_where_def)

lemma session_ok_iff:
  "session_ok vs s \<longleftrightarrow>
     (if ts_status s = ''RESOLVED''
      then \<exists>d. ts_final_decision s = Some d \<and> decide (filter (counted (ts_id s)) vs) = Some d
      else ts_final_decision s = None)"
  by (auto simp: session_ok_def split: option.splits)

subsection \<open>What a call that succeeds has checked\<close>

lemma commit_vote_Inr:
  assumes "commit_vote db now new_id sid auditor h = Inr (db', v)"
  shows "\<exists>sess \<in> set (tdb_sessions db). ts_id sess = sid \<and> ts_status sess = ''COMMIT'' \<and> now \<le> ts_expires_at sess"
    and "(sid, auditor) \<notin> (\<lambda>v. (tv_session_id v, tv_auditor_id v)) ` set (tdb_votes db)"
    and "new_id \<notin> tv_id ` set (tdb_votes db)"
    and "v = \<lparr>tv_id = new_id, tv_session_id = sid, tv_auditor_id = auditor, tv_commit_hash = h,
      tv_revealed_vote = None, tv_revealed_salt = None, tv_reputation_staked = 100,
      tv_slashed = False, tv_rewarded = False\<rparr>"
    and "db' = db\<lparr>tdb_votes := tdb_votes db @ [v]\<rparr>"
proof -
  obtain sess where sess: "get_active_session db now sid ''COMMIT'' = Inr sess"
    using assms by (auto simp: commit_vote_def split: sum.splits)
  then have "filter (\<lambda>s. ts_id s = sid) (tdb_sessions db) = [sess]"
    and st: "ts_status sess = ''COMMIT''" "now \<le> ts_expires_at sess"
    by (auto simp: get_active_session_def split: one.splits if_splits)
  then have "sess \<in> set (filter (\<lambda>s. ts_id s = sid) (tdb_sessions db))" by simp
  with st show "\<exists>sess \<in> set (tdb_sessions db). ts_id sess = sid \<and> ts_status sess = ''COMMIT'' \<and> now \<le> ts_expires_at sess"
    by auto
  show "(sid, auditor) \<notin> (\<lambda>v. (tv_session_id v, tv_auditor_id v)) ` set (tdb_votes db)"
    "new_id \<notin> tv_id ` set (tdb_votes db)"
    "v = \<lparr>tv_id = new_id, tv_session_id = sid, tv_auditor_id = auditor, tv_commit_hash = h,
      tv_revealed_vote = None, tv_revealed_salt = None, tv_reputation_staked = 100,
      tv_slashed = False, tv_rewarded = False\<rparr>"
    "db' = db\<lparr>tdb_votes := tdb_votes db @ [v]\<rparr>"
    using assms sess
    by (auto simp: commit_vote_def filter_empty_conv Let_def split: one.splits if_splits)
qed

lemma reveal_vote_Inr:
  assumes "reveal_vote H db vid vote salt = Inr (db', ok)"
  shows "\<not> ok \<longrightarrow> db' = db"
    and "ok \<longrightarrow> (\<exists>rec sess. filter (\<lambda>v. tv_id v = vid) (tdb_votes db) = [rec] \<and> tv_revealed_vote rec = None \<and>
      filter (\<lambda>s. ts_id s = tv_session_id rec) (tdb_sessions db) = [sess] \<and>
      ts_status sess \<in> {''COMMIT'', ''REVEAL''} \<and> tv_commit_hash rec = compute_commit_hash H vote salt) \<and>
      db' = db\<lparr>tdb_votes := update_where (\<lambda>v. tv_id v = vid)
        (\<lambda>v. v\<lparr>tv_revealed_vote := Some vote, tv_revealed_salt := Some salt\<rparr>) (tdb_votes db)\<rparr>"
  using assms by (auto simp: reveal_vote_def split: one.splits if_splits)

lemma tally_and_slash_Inr:
  assumes "tally_and_slash db sid = Inr (db', d)"
  shows "d = None \<Longrightarrow> db' = db"
    and "d = Some x \<Longrightarrow> filter (counted sid) (tdb_votes db) \<noteq> [] \<and>
      decide (filter (counted sid) (tdb_votes db)) = Some x \<and>
      (\<exists>sess. filter (\<lambda>s. ts_id s = sid) (tdb_sessions db) = [sess]) \<and>
      db' = \<lparr>tdb_sessions = update_where (\<lambda>s. ts_id s = sid)
               (\<lambda>s. s\<lparr>ts_status := ''RESOLVED'', ts_final_decision := Some x\<rparr>) (tdb_sessions db),
             tdb_votes = update_where (counted sid) (settle x) (tdb_votes db)\<rparr>"
  using assms by (auto simp: tally_and_slash_def Let_def split: one.splits if_splits option.splits)

subsection \<open>Preservation\<close>

lemma commit_vote_inv:
  assumes inv: "tribunal_inv H db" and ok: "commit_vote db now new_id sid auditor h = Inr (db', v)"
  shows "tribunal_inv H db'"
proof -
  note c = commit_vote_Inr [OF ok]
  have "vote_ok H v" using c(4) by (simp add: vote_ok_def)
  moreover have "filter (counted s) (tdb_votes db') = filter (counted s) (tdb_votes db)" for s
    using c(4,5) by (simp add: counted_def)
  then have "session_ok (tdb_votes db') = session_ok (tdb_votes db)"
    by (simp add: session_ok_iff fun_eq_iff)
  ultimately show ?thesis using inv c by (auto simp: tribunal_inv_def)
qed

lemma tribunal_leI:
  assumes "tdb_votes db' = old @ new" and "list_all2 vote_le (tdb_votes db) old"
    and "list_all2 session_le (tdb_sessions db) (tdb_sessions db')"
  shows "tribunal_le db db'"
  using assms by (auto simp: tribunal_le_def)

lemma vote_le_refl [simp]: "vote_le v v"
  by (simp add: vote_le_def)

lemma session_le_refl [simp]: "session_le s s"
  by (simp add: session_le_def)

lemma commit_vote_le:
  assumes "commit_vote db now new_id sid auditor h = Inr (db', v)"
  shows "tribunal_le db db'"
proof -
  have "tdb_votes db' = tdb_votes db @ [v]" "tdb_sessions db' = tdb_sessions db"
    using commit_vote_Inr(5) [OF assms] by simp_all
  then show ?thesis by (intro tribunal_leI) (auto intro: list.rel_refl)
qed

lemma unique_row:
  assumes "filter P xs = [x]" and "y \<in> set xs" and "P y"
  shows "y = x"
proof -
  have "y \<in> set (filter P xs)" using assms(2,3) by simp
  with assms(1) show ?thesis by simp
qed

lemma filter_mem: "filter P xs = [x] \<Longrightarrow> x \<in> set xs \<and> P x"
proof -
  assume "filter P xs = [x]"
  then have "x \<in> set (filter P xs)" by simp
  then show ?thesis by simp
qed

lemma reveal_vote_inv:
  assumes inv: "tribunal_inv H db" and ok: "reveal_vote H db vid vote salt = Inr (db', True)"
  shows "tribunal_inv H db'"
proof -
  let ?f = "\<lambda>v. v\<lparr>tv_revealed_vote := Some vote, tv_revealed_salt := Some salt\<rparr>"
  obtain rec sess where rec: "filter (\<lambda>v. tv_id v = vid) (tdb_votes db) = [rec]" "tv_revealed_vote rec = None"
    and sess: "filter (\<lambda>s. ts_id s = tv_session_id rec) (tdb_sessions db) = [sess]"
      "ts_status sess \<in> {''COMMIT'', ''REVEAL''}"
    and hash: "tv_commit_hash rec = compute_commit_hash H vote salt"
    and db': "db' = db\<lparr>tdb_votes := update_where (\<lambda>v. tv_id v = vid) ?f (tdb_votes db)\<rparr>"
    using reveal_vote_Inr(2) [OF ok] by blast
  have only: "v = rec" if "v \<in> set (tdb_votes db)" "tv_id v = vid" for v
    by (rule unique_row [OF rec(1) that])
  have "vote_ok H v" if v: "v \<in> set (tdb_votes db')" for v
  proof -
    from v obtain w where w: "w \<in> set (tdb_votes db)" "v = (if tv_id w = vid then ?f w else w)"
      by (auto simp: db' set_update_where)
    then have "vote_ok H w" using inv by (auto simp: tribunal_inv_def list_all_iff)
    then show ?thesis using w only [OF w(1)] hash rec(2) by (auto simp: vote_ok_def split: option.splits)
  qed
  moreover have "session_ok (tdb_votes db') s" if s: "s \<in> set (tdb_sessions db)" for s
  proof -
    have old: "session_ok (tdb_votes db) s" using inv s by (auto simp: tribunal_inv_def list_all_iff)
    have "filter (counted (ts_id s)) (tdb_votes db') = filter (counted (ts_id s)) (tdb_votes db)"
      if "ts_status s = ''RESOLVED''"
    proof -
      have "ts_id s \<noteq> tv_session_id rec" using unique_row [OF sess(1) s] sess(2) that by auto
      then show ?thesis using only
        by (auto simp: db' counted_def intro!: filter_update_where_outside)
    qed
    with old show ?thesis by (auto simp: session_ok_iff split: if_splits)
  qed
  ultimately show ?thesis
    using inv by (simp add: tribunal_inv_def list_all_iff db' map_update_where)
qed

lemma reveal_vote_le:
  assumes "reveal_vote H db vid vote salt = Inr (db', True)"
  shows "tribunal_le db db'"
proof -
  let ?f = "\<lambda>v. v\<lparr>tv_revealed_vote := Some vote, tv_revealed_salt := Some salt\<rparr>"
  obtain rec where rec: "filter (\<lambda>v. tv_id v = vid) (tdb_votes db) = [rec]" "tv_revealed_vote rec = None"
    and db': "db' = db\<lparr>tdb_votes := update_where (\<lambda>v. tv_id v = vid) ?f (tdb_votes db)\<rparr>"
    using reveal_vote_Inr(2) [OF assms] by blast
  have "list_all2 vote_le (tdb_votes db) (tdb_votes db')"
    using rec unique_row [OF rec(1)]
    by (auto simp: db' vote_le_def intro!: list_all2_update_where)
  then show ?thesis by (intro tribunal_leI [of _ _ "[]"]) (auto simp: db' intro: list.rel_refl)
qed

lemma tally_vote_ok: "vote_ok H v \<Longrightarrow> counted sid v \<Longrightarrow> vote_ok H (settle d v)"
  by (auto simp: vote_ok_def settle_def counted_def split: option.splits)

lemma tally_inv:
  assumes inv: "tribunal_inv H db" and ok: "tally_and_slash db sid = Inr (db', Some x)"
  shows "tribunal_inv H db'"
proof -
  note t = tally_and_slash_Inr(2) [OF ok refl]
  then have votes: "tdb_votes db' = update_where (counted sid) (settle x) (tdb_votes db)"
    and sessions: "tdb_sessions db' = update_where (\<lambda>s. ts_id s = sid)
      (\<lambda>s. s\<lparr>ts_status := ''RESOLVED'', ts_final_decision := Some x\<rparr>) (tdb_sessions db)"
    by simp_all
  have "decide (filter (counted s) (tdb_votes db')) = decide (filter (counted s) (tdb_votes db))" for s
    by (simp add: votes decide_settled)
  moreover have "decide (filter (counted sid) (tdb_votes db)) = Some x" using t by simp
  ultimately have "list_all (session_ok (tdb_votes db')) (tdb_sessions db')"
    using inv by (auto simp: tribunal_inv_def list_all_iff sessions set_update_where session_ok_iff)
  moreover have "list_all (vote_ok H) (tdb_votes db')"
    using inv by (auto simp: tribunal_inv_def list_all_iff votes set_update_where tally_vote_ok)
  ultimately show ?thesis
    using inv by (simp add: tribunal_inv_def votes sessions map_update_where)
qed

lemma tally_le:
  assumes inv: "tribunal_inv H db" and ok: "tally_and_slash db sid = Inr (db', Some x)"
  shows "tribunal_le db db'"
proof -
  note t = tally_and_slash_Inr(2) [OF ok refl]
  have "list_all2 vote_le (tdb_votes db) (tdb_votes db')"
    using t by (auto simp: vote_le_def intro!: list_all2_update_where)
  moreover have "list_all2 session_le (tdb_sessions db) (tdb_sessions db')"
  proof -
    have "session_le s (s\<lparr>ts_status := ''RESOLVED'', ts_final_decision := Some x\<rparr>)"
      if "s \<in> set (tdb_sessions db)" "ts_id s = sid" for s
    proof -
      have "session_ok (tdb_votes db) s" using inv that by (auto simp: tribunal_inv_def list_all_iff)
      then show ?thesis using t that by (auto simp: session_le_def session_ok_iff split: if_splits)
    qed
    then show ?thesis using t by (auto intro!: list_all2_update_where)
  qed
  ultimately show ?thesis by (intro tribunal_leI [of _ _ "[]"]) auto
qed

lemma tribunal_le_refl: "tribunal_le db db"
  by (intro tribunal_leI [of _ _ "[]"]) (auto intro: list.rel_refl)

lemma tribunal_le_trans:
  assumes "tribunal_le a b" and "tribunal_le b c"
  shows "tribunal_le a c"
proof -
  obtain n1 o1 where b: "tdb_votes b = o1 @ n1" "list_all2 vote_le (tdb_votes a) o1"
    using assms(1) by (auto simp: tribunal_le_def)
  obtain n2 o2 where c: "tdb_votes c = o2 @ n2" "list_all2 vote_le (tdb_votes b) o2"
    using assms(2) by (auto simp: tribunal_le_def)
  obtain p q where pq: "o2 = p @ q" "list_all2 vote_le o1 p"
    using c(2) by (auto simp: b(1) list_all2_append1)
  have "list_all2 vote_le (tdb_votes a) p"
    by (rule list_all2_trans [OF _ b(2) pq(2)]) (auto simp: vote_le_def)
  moreover have "list_all2 session_le (tdb_sessions a) (tdb_sessions c)"
    by (rule list_all2_trans [of session_le session_le _ _ "tdb_sessions b"])
      (use assms in \<open>auto simp: tribunal_le_def session_le_def\<close>)
  ultimately show ?thesis using c(1) pq(1) by (auto simp: tribunal_le_def)
qed

lemma tribunal_step_cases:
  assumes inv: "tribunal_inv H db"
  obtains "tribunal_step H db c = db"
  | now new_id sid auditor h v where "commit_vote db now new_id sid auditor h = Inr (tribunal_step H db c, v)"
  | vid vote salt where "reveal_vote H db vid vote salt = Inr (tribunal_step H db c, True)"
  | sid x where "tally_and_slash db sid = Inr (tribunal_step H db c, Some x)"
proof (cases c)
  case (Commit now new_id sid auditor h)
  then show ?thesis
    using that(1,2) by (cases "commit_vote db now new_id sid auditor h") (auto simp: tribunal_step_def)
next
  case (Reveal vid vote salt)
  show ?thesis
  proof (cases "reveal_vote H db vid vote salt")
    case (Inr r)
    obtain db' ok where r: "r = (db', ok)" by (cases r)
    show ?thesis
      using that(1,3) reveal_vote_Inr(1) Inr r Reveal by (cases ok) (auto simp: tribunal_step_def)
  qed (use that(1) Reveal in \<open>simp add: tribunal_step_def\<close>)
next
  case (Tally sid)
  show ?thesis
  proof (cases "tally_and_slash db sid")
    case (Inr r)
    obtain db' d where r: "r = (db', d)" by (cases r)
    show ?thesis
      using that(1,4) tally_and_slash_Inr(1) Inr r Tally by (cases d) (auto simp: tribunal_step_def)
  qed (use that(1) Tally in \<open>simp add: tribunal_step_def\<close>)
qed

lemma tribunal_step_inv: "tribunal_inv H db \<Longrightarrow> tribunal_inv H (tribunal_step H db c)"
  by (rule tribunal_step_cases [of H db c])
    (auto intro: commit_vote_inv reveal_vote_inv tally_inv)

lemma tribunal_step_le: "tribunal_inv H db \<Longrightarrow> tribunal_le db (tribunal_step H db c)"
  by (rule tribunal_step_cases [of H db c])
    (auto intro: tribunal_le_refl commit_vote_le reveal_vote_le tally_le)

interpretation tri: growing "tribunal_step H" "tribunal_inv H" tribunal_le for H
  by unfold_locales
    (auto intro: tribunal_step_inv tribunal_step_le tribunal_le_refl tribunal_le_trans)

subsection \<open>Runs\<close>

text \<open>
  C5: whatever sequence of commits, reveals and tallies is served, with any arguments and
  clocks: an auditor has at most one vote per session, every revealed vote matches the hash
  committed for it, no vote is both slashed and rewarded, a resolved session carries the
  decision its votes give, and the tables only move forward (no vote is removed or
  re-attributed, a revealed vote and a resolved session never change their content).
\<close>

theorem tribunal_run_safe:
  assumes "tribunal_inv H db"
  shows "tribunal_inv H (foldl (tribunal_step H) db calls) \<and>
    tribunal_le db (foldl (tribunal_step H) db calls)"
  using tri.inv_run [OF assms] tri.le_run [OF assms] by blast

definition sample_tribunal :: tribunal_db where
  "sample_tribunal = \<lparr>tdb_sessions = [new_session 1 7 ''wash trade'' None 1000], tdb_votes = []\<rparr>"

theorem tribunal_run_safe_witness:
  "tribunal_inv sha256 (foldl (tribunal_step sha256) sample_tribunal
     [Commit 10 1 1 5 ''h'', Commit 11 2 1 5 ''h'', Reveal 1 ''FRAUD'' ''saltsalt'', Tally 1]) \<and>
   tribunal_le sample_tribunal (foldl (tribunal_step sha256) sample_tribunal
     [Commit 10 1 1 5 ''h'', Commit 11 2 1 5 ''h'', Reveal 1 ''FRAUD'' ''saltsalt'', Tally 1])"
  by (rule tribunal_run_safe)
    (simp add: tribunal_inv_def sample_tribunal_def new_session_def session_ok_def)

subsection \<open>The supermajority rule\<close>

lemma count_for_bound: "count_for ''FRAUD'' vs + count_for ''LEGITIMATE'' vs \<le> length vs"
  by (induction vs) (auto simp: count_for_def)

lemma threshold_iff:
  assumes "n < 2 ^ 31"
  shows "fdiv (rat_of_nat n * 2) 3 \<le> rat_of_nat w \<longleftrightarrow> 2 * n \<le> 3 * w"
  using fdiv_le_int_iff [of 3 "int n * 2" "int w"] assms by auto

text \<open>
  C14: the float threshold is the exact two-thirds rule. For fewer than 2^31 revealed votes the
  tribunal decides for an option exactly when it is FRAUD or LEGITIMATE and at least two thirds
  of the revealed votes are for it; in particular at most one option can be decided.
\<close>

theorem decide_supermajority:
  assumes "vs \<noteq> []" and "length vs < 2 ^ 31"
  shows "decide vs = Some d \<longleftrightarrow>
    d \<in> {''FRAUD'', ''LEGITIMATE''} \<and> 2 * length vs \<le> 3 * count_for d vs"
proof -
  have pos: "0 < length vs" using assms(1) by simp
  have "decide vs = (let (opt, n) = winner vs in if 2 * length vs \<le> 3 * n then Some opt else None)"
    by (simp add: decide_def threshold_iff [OF assms(2)] Let_def split_beta)
  moreover have "\<not> (2 * length vs \<le> 3 * count_for ''FRAUD'' vs \<and> 2 * length vs \<le> 3 * count_for ''LEGITIMATE'' vs)"
    using pos count_for_bound [of vs] by linarith
  ultimately show ?thesis by (auto simp: winner_def Let_def split: if_splits)
qed

definition ballot :: "string \<Rightarrow> tribunal_vote" where
  "ballot opt = \<lparr>tv_id = 1, tv_session_id = 1, tv_auditor_id = 1, tv_commit_hash = '''',
     tv_revealed_vote = Some opt, tv_revealed_salt = Some '''', tv_reputation_staked = 100,
     tv_slashed = False, tv_rewarded = False\<rparr>"

theorem decide_supermajority_witness:
  "decide [ballot ''FRAUD'', ballot ''LEGITIMATE'', ballot ''FRAUD''] = Some ''FRAUD''"
  using decide_supermajority [of "[ballot ''FRAUD'', ballot ''LEGITIMATE'', ballot ''FRAUD'']" "''FRAUD''"]
  by (simp add: ballot_def count_for_def)

subsection \<open>Settlement\<close>

definition whole_stake :: "tribunal_vote \<Rightarrow> bool" where
  "whole_stake v \<longleftrightarrow> tv_reputation_staked v \<in> \<int> \<and> \<bar>tv_reputation_staked v\<bar> < 2 ^ 52"

lemma whole_stake_exact:
  assumes "whole_stake v" and "\<bar>k\<bar> \<le> 100"
  shows "rnd (tv_reputation_staked v + of_int k) = tv_reputation_staked v + of_int k"
proof -
  obtain m where m: "tv_reputation_staked v = of_int m" "\<bar>of_int m\<bar> < (2 ^ 52 :: rat)"
    using assms(1) by (auto simp: whole_stake_def elim: Ints_cases)
  then have "of_int \<bar>m\<bar> < (of_int (2 ^ 52) :: rat)" by simp
  then have "\<bar>m\<bar> < 2 ^ 52" by (simp only: of_int_less_iff)
  then have "\<bar>m + k\<bar> < 2 ^ 53" using assms(2) by simp
  then have "rnd (of_int (m + k)) = of_int (m + k)" by (rule rnd_of_int)
  then show ?thesis by (simp add: m)
qed

lemma settle_stake:
  assumes "whole_stake v"
  shows "tv_reputation_staked (settle d v) =
    tv_reputation_staked v + (if tv_revealed_vote v = Some d then 10 else - 50)"
  using whole_stake_exact [OF assms, of 10] whole_stake_exact [OF assms, of "- 50"]
  by (simp add: settle_def fadd_def fsub_def)

lemma sum_settled:
  assumes "list_all whole_stake vs"
  shows "(\<Sum>v \<leftarrow> update_where P (settle d) vs. tv_reputation_staked v) =
    (\<Sum>v \<leftarrow> vs. tv_reputation_staked v) + 10 * of_nat (count_for d (filter P vs))
    - 50 * of_nat (length (filter P vs) - count_for d (filter P vs))"
  using assms
proof (induction vs)
  case (Cons v vs)
  have "count_for d (filter P vs) \<le> length (filter P vs)" unfolding count_for_def by (rule length_filter_le)
  with Cons show ?case
    by (auto simp: update_where_def count_for_def settle_stake of_nat_diff algebra_simps Suc_diff_le)
qed (simp add: update_where_def count_for_def)

text \<open>
  C15: a tally that decides pays 10 to each revealed vote for the decision, takes 50 from each
  other revealed vote of the session, touches nothing else, and resolves the session with that
  decision. The total reputation staked moves by exactly these amounts (no float rounding) as
  long as the stakes are whole numbers below 2^52.
\<close>

theorem tally_and_slash_settles:
  assumes "tally_and_slash db sid = Inr (db', Some d)" and "list_all whole_stake (tdb_votes db)"
  shows "tdb_votes db' = map (\<lambda>v. if counted sid v then settle d v else v) (tdb_votes db) \<and>
    (\<Sum>v \<leftarrow> tdb_votes db'. tv_reputation_staked v) =
      (\<Sum>v \<leftarrow> tdb_votes db. tv_reputation_staked v)
      + 10 * of_nat (count_for d (filter (counted sid) (tdb_votes db)))
      - 50 * of_nat (length (filter (counted sid) (tdb_votes db)) - count_for d (filter (counted sid) (tdb_votes db))) \<and>
    filter (\<lambda>s. ts_id s = sid \<and> ts_status s = ''RESOLVED'' \<and> ts_final_decision s = Some d) (tdb_sessions db') \<noteq> []"
proof -
  note t = tally_and_slash_Inr(2) [OF assms(1) refl]
  then obtain sess where "sess \<in> set (tdb_sessions db)" "ts_id sess = sid" by (auto dest: filter_mem)
  then have "sess\<lparr>ts_status := ''RESOLVED'', ts_final_decision := Some d\<rparr> \<in> set (tdb_sessions db')"
    using t by (auto simp: set_update_where intro!: image_eqI [of _ _ sess])
  then have "filter (\<lambda>s. ts_id s = sid \<and> ts_status s = ''RESOLVED'' \<and> ts_final_decision s = Some d)
      (tdb_sessions db') \<noteq> []"
    using \<open>ts_id sess = sid\<close> by (fastforce simp: filter_empty_conv)
  then show ?thesis using t sum_settled [OF assms(2), of "counted sid" d]
    by (simp add: update_where_def)
qed

definition tallied_db :: tribunal_db where
  "tallied_db = \<lparr>tdb_sessions = [new_session 1 7 ''wash trade'' None 1000],
     tdb_votes = [ballot ''FRAUD'', ballot ''LEGITIMATE'', ballot ''FRAUD'']\<rparr>"

definition settled_db :: tribunal_db where
  "settled_db = (case tally_and_slash tallied_db 1 of Inr (db, _) \<Rightarrow> db | Inl _ \<Rightarrow> tallied_db)"

theorem tally_and_slash_settles_witness:
  "(\<Sum>v \<leftarrow> tdb_votes settled_db. tv_reputation_staked v) = 270"
proof -
  have t: "tally_and_slash tallied_db 1 = Inr (settled_db, Some ''FRAUD'')" by code_simp
  have w: "list_all whole_stake (tdb_votes tallied_db)"
    by (simp add: tallied_db_def ballot_def whole_stake_def)
  have "(\<Sum>v \<leftarrow> tdb_votes tallied_db. tv_reputation_staked v) = 300"
    "count_for ''FRAUD'' (filter (counted 1) (tdb_votes tallied_db)) = 2"
    "length (filter (counted 1) (tdb_votes tallied_db)) = 3"
    by (simp_all add: tallied_db_def ballot_def count_for_def counted_def)
  then show ?thesis using conjunct1 [OF conjunct2 [OF tally_and_slash_settles [OF t w]]] by simp
qed

subsection \<open>Binding\<close>

lemma append_colon_inj:
  "a @ x # b = c @ x # d \<Longrightarrow> x \<notin> set a \<Longrightarrow> x \<notin> set c \<Longrightarrow> a = c \<and> b = d"
  by (induction a arbitrary: c) (auto simp: Cons_eq_append_conv)

lemma commit_hash_binding:
  assumes "compute_commit_hash H x s = compute_commit_hash H y t"
    and "inj_on H {utf8 (x @ '':'' @ s), utf8 (y @ '':'' @ t)}"
    and "CHR '':'' \<notin> set x" and "CHR '':'' \<notin> set y"
  shows "y = x \<and> t = s"
proof -
  have "utf8 (x @ '':'' @ s) = utf8 (y @ '':'' @ t)"
    using assms(1,2) by (auto simp: compute_commit_hash_def dest: inj_onD)
  then have "x @ '':'' @ s = y @ '':'' @ t" by (rule utf8_inj)
  then show ?thesis using append_colon_inj [of x "CHR '':''" s y t] assms(3,4) by simp
qed

text \<open>
  Commitments bind. Take a vote whose commit hash is the hash of a vote and a salt, after
  any run of the tribunal. If it has been revealed, and the digest does not collide on the two
  messages involved, what was revealed is the committed vote and salt (votes contain no colon).
\<close>

theorem reveal_matches_commitment:
  assumes "tribunal_inv H db"
    and "v \<in> set (tdb_votes (foldl (tribunal_step H) db calls))"
    and "tv_commit_hash v = compute_commit_hash H x s"
    and "tv_revealed_vote v = Some y" and "tv_revealed_salt v = Some t"
    and "inj_on H {utf8 (x @ '':'' @ s), utf8 (y @ '':'' @ t)}"
    and "CHR '':'' \<notin> set x" and "CHR '':'' \<notin> set y"
  shows "y = x \<and> t = s"
proof -
  have "vote_ok H v"
    using tri.inv_run [OF assms(1), of calls] assms(2) by (auto simp: tribunal_inv_def list_all_iff)
  then have "compute_commit_hash H x s = compute_commit_hash H y t"
    using assms(3-5) by (simp add: vote_ok_def)
  then show ?thesis by (rule commit_hash_binding [OF _ assms(6-8)])
qed

definition revealed_db :: tribunal_db where
  "revealed_db = foldl (tribunal_step id) sample_tribunal
     [Commit 10 1 1 5 (compute_commit_hash id ''FRAUD'' ''saltsalt''), Reveal 1 ''FRAUD'' ''saltsalt'']"

theorem reveal_matches_commitment_witness:
  "map tv_revealed_vote (tdb_votes revealed_db) = [Some ''FRAUD''] \<and> ''FRAUD'' = ''FRAUD'' \<and> ''saltsalt'' = ''saltsalt''"
proof -
  let ?calls = "[Commit 10 1 1 5 (compute_commit_hash id ''FRAUD'' ''saltsalt''), Reveal 1 ''FRAUD'' ''saltsalt'']"
  let ?v = "\<lparr>tv_id = 1, tv_session_id = 1, tv_auditor_id = 5,
    tv_commit_hash = compute_commit_hash id ''FRAUD'' ''saltsalt'', tv_revealed_vote = Some ''FRAUD'',
    tv_revealed_salt = Some ''saltsalt'', tv_reputation_staked = 100, tv_slashed = False, tv_rewarded = False\<rparr>"
  have inv: "tribunal_inv id sample_tribunal"
    by (simp add: tribunal_inv_def sample_tribunal_def new_session_def session_ok_def)
  have "tdb_votes revealed_db = [?v]" by code_simp
  moreover have "''FRAUD'' = ''FRAUD'' \<and> ''saltsalt'' = ''saltsalt''"
    by (rule reveal_matches_commitment [OF inv, of ?v ?calls])
      (use calculation in \<open>simp_all add: revealed_db_def\<close>)
  ultimately show ?thesis by simp
qed

subsection \<open>Phases and repeated tallies\<close>

text \<open>
  No operation of the service moves a session to REVEAL. From tables whose sessions are all
  in COMMIT every reachable session is in COMMIT or RESOLVED, so reveals happen during the
  commit phase.
\<close>

theorem reveal_phase_unreachable:
  assumes "tribunal_inv H db" and "\<forall>s \<in> set (tdb_sessions db). ts_status s = ''COMMIT''"
    and "t \<in> set (tdb_sessions (foldl (tribunal_step H) db calls))"
  shows "ts_status t \<in> {''COMMIT'', ''RESOLVED''}"
proof -
  have "list_all2 session_le (tdb_sessions db) (tdb_sessions (foldl (tribunal_step H) db calls))"
    using tri.le_run [OF assms(1), of calls] by (simp add: tribunal_le_def)
  then obtain s where "s \<in> set (tdb_sessions db)" "session_le s t"
    using assms(3) by (metis in_set_conv_nth list_all2_conv_all_nth)
  then show ?thesis using assms(2) by (auto simp: session_le_def)
qed

theorem reveal_phase_unreachable_witness:
  "ts_status (hd (tdb_sessions (foldl (tribunal_step sha256) sample_tribunal [Tally 1]))) \<in> {''COMMIT'', ''RESOLVED''}"
proof -
  have "tribunal_inv sha256 sample_tribunal"
    by (simp add: tribunal_inv_def sample_tribunal_def new_session_def session_ok_def)
  moreover have "tdb_sessions (foldl (tribunal_step sha256) sample_tribunal [Tally 1]) = tdb_sessions sample_tribunal"
    by (simp add: tribunal_step_def tally_and_slash_def sample_tribunal_def)
  ultimately show ?thesis
    using reveal_phase_unreachable [of sha256 sample_tribunal "hd (tdb_sessions sample_tribunal)" "[Tally 1]"]
    by (simp add: sample_tribunal_def new_session_def)
qed

text \<open>
  The vote of one auditor can be public before another commits. After a successful reveal
  in a session that is still in COMMIT and has not expired, an auditor without a vote in the
  session can still commit one.
\<close>

theorem commit_after_reveal:
  assumes "reveal_vote H db vid x salt = Inr (db', True)"
    and "filter (\<lambda>s. ts_id s = sid) (tdb_sessions db) = [sess]"
    and "ts_status sess = ''COMMIT''" and "now \<le> ts_expires_at sess"
    and "\<forall>v \<in> set (tdb_votes db). tv_session_id v = sid \<longrightarrow> tv_auditor_id v \<noteq> auditor"
    and "new_id \<notin> tv_id ` set (tdb_votes db)" and "length h \<le> 64"
  shows "\<exists>db'' v. commit_vote db' now new_id sid auditor h = Inr (db'', v)"
proof -
  have votes: "tdb_votes db' = update_where (\<lambda>v. tv_id v = vid)
        (\<lambda>v. v\<lparr>tv_revealed_vote := Some x, tv_revealed_salt := Some salt\<rparr>) (tdb_votes db)"
    and sessions: "tdb_sessions db' = tdb_sessions db"
    using reveal_vote_Inr(2) [OF assms(1)] by auto
  have "get_active_session db' now sid ''COMMIT'' = Inr sess"
    using assms(2-4) by (simp add: get_active_session_def sessions)
  moreover have "filter (\<lambda>v. tv_session_id v = sid \<and> tv_auditor_id v = auditor) (tdb_votes db') = []"
    using assms(5) by (auto simp: filter_empty_conv votes set_update_where)
  moreover have "new_id \<notin> tv_id ` set (tdb_votes db')"
    using assms(6) by (auto simp: votes set_update_where)
  ultimately show ?thesis using assms(7) by (simp add: commit_vote_def Let_def)
qed

definition committed_db :: tribunal_db where
  "committed_db = tribunal_step id sample_tribunal (Commit 10 1 1 5 (compute_commit_hash id ''FRAUD'' ''saltsalt''))"

theorem commit_after_reveal_witness:
  "\<exists>db'' v. commit_vote revealed_db 20 2 1 6 ''copy'' = Inr (db'', v)"
proof (rule commit_after_reveal [where H = id and db = committed_db and vid = 1 and x = "''FRAUD''" and salt = "''saltsalt''"])
  show "reveal_vote id committed_db 1 ''FRAUD'' ''saltsalt'' = Inr (revealed_db, True)" by code_simp
  show "filter (\<lambda>s. ts_id s = 1) (tdb_sessions committed_db) = [new_session 1 7 ''wash trade'' None 1000]"
    by code_simp
  show "\<forall>v \<in> set (tdb_votes committed_db). tv_session_id v = 1 \<longrightarrow> tv_auditor_id v \<noteq> 6" by code_simp
  show "2 \<notin> tv_id ` set (tdb_votes committed_db)" by code_simp
qed (simp_all add: new_session_def)

text \<open>
  A session can be tallied again. The tally does not look at the session's status, so each
  further tally of a resolved session takes the same decision and settles every vote once more.
\<close>

theorem tally_again_settles_again:
  assumes "tally_and_slash db sid = Inr (db1, Some d)"
  shows "\<exists>db2. tally_and_slash db1 sid = Inr (db2, Some d) \<and>
    tdb_votes db2 = map (\<lambda>v. if counted sid v then settle d (settle d v) else v) (tdb_votes db)"
proof -
  note t = tally_and_slash_Inr(2) [OF assms refl]
  have votes: "tdb_votes db1 = update_where (counted sid) (settle d) (tdb_votes db)" using t by simp
  have "filter (counted sid) (tdb_votes db1) \<noteq> []"
    using t by (simp add: votes filter_update_where) (simp add: update_where_def)
  moreover have "decide (filter (counted sid) (tdb_votes db1)) = Some d"
    using t by (simp add: votes decide_settled)
  moreover obtain sess where "filter (\<lambda>s. ts_id s = sid) (tdb_sessions db1) = [sess]"
  proof -
    obtain s0 where s0: "filter (\<lambda>s. ts_id s = sid) (tdb_sessions db) = [s0]" using t by blast
    have "filter (\<lambda>s. ts_id s = sid) (tdb_sessions db1) =
        update_where (\<lambda>s. ts_id s = sid) (\<lambda>s. s\<lparr>ts_status := ''RESOLVED'', ts_final_decision := Some d\<rparr>) [s0]"
      using t s0 by (simp add: filter_update_where)
    then show ?thesis using that by (simp add: update_where_def)
  qed
  moreover have "update_where (counted sid) (settle d) (tdb_votes db1) =
      map (\<lambda>v. if counted sid v then settle d (settle d v) else v) (tdb_votes db)"
    by (simp add: votes update_where_def)
  ultimately show ?thesis by (simp add: tally_and_slash_def Let_def)
qed

theorem tally_again_settles_again_witness:
  "\<exists>db2. tally_and_slash settled_db 1 = Inr (db2, Some ''FRAUD'') \<and>
     map tv_reputation_staked (tdb_votes db2) = [120, 0, 120]"
proof -
  have "tally_and_slash tallied_db 1 = Inr (settled_db, Some ''FRAUD'')" by code_simp
  from tally_again_settles_again [OF this] obtain db2
    where "tally_and_slash settled_db 1 = Inr (db2, Some ''FRAUD'')"
      "tdb_votes db2 = map (\<lambda>v. if counted 1 v then settle ''FRAUD'' (settle ''FRAUD'' v) else v) (tdb_votes tallied_db)"
    by blast
  moreover have "map tv_reputation_staked
      (map (\<lambda>v. if counted 1 v then settle ''FRAUD'' (settle ''FRAUD'' v) else v) (tdb_votes tallied_db)) = [120, 0, 120]"
    by code_simp
  ultimately show ?thesis by auto
qed

text \<open>
  A salt that the request schema admits but the column does not hold. A reveal whose salt
  is longer than 64 characters passes validation and matches its commitment, and the request
  fails with status 500; the vote stays unrevealed.
\<close>

theorem long_salt_cannot_be_revealed:
  assumes "require_role [''AUDITEUR''] users sub = Inr u" and "valid_reveal_request body"
    and "64 < length (rvr_salt body)"
    and "filter (\<lambda>v. tv_id v = rvr_vote_id body) (tdb_votes db) = [rec]" and "tv_revealed_vote rec = None"
    and "filter (\<lambda>s. ts_id s = tv_session_id rec) (tdb_sessions db) = [sess]"
    and "ts_status sess \<in> {''COMMIT'', ''REVEAL''}"
    and "tv_commit_hash rec = compute_commit_hash H (rvr_vote body) (rvr_salt body)"
  shows "reveal_vote_endpoint H users sub db body = Inl UnhandledError \<and> http_status UnhandledError = 500"
  using assms by (simp add: reveal_vote_endpoint_def reveal_vote_def)

definition sample_auditor :: user where
  "sample_auditor = \<lparr>user_id = 5, user_org_id = 1, keycloak_sub = Some ''kc-5'', user_email = ''a@b.c'',
     user_first_name = None, user_last_name = None, user_role = ''AUDITEUR'', user_msp_id = None, user_is_active = True,
     user_phone = None, user_last_login = None\<rparr>"

definition long_salt_db :: tribunal_db where
  "long_salt_db = tribunal_step id sample_tribunal
     (Commit 10 1 1 5 (compute_commit_hash (\<lambda>m. []) ''FRAUD'' (replicate 65 CHR ''x'')))"

theorem long_salt_cannot_be_revealed_witness:
  "reveal_vote_endpoint (\<lambda>m. []) [sample_auditor] (Some ''kc-5'') long_salt_db
     \<lparr>rvr_vote_id = 1, rvr_vote = ''FRAUD'', rvr_salt = replicate 65 CHR ''x''\<rparr> = Inl UnhandledError \<and>
   http_status UnhandledError = 500"
proof (rule long_salt_cannot_be_revealed)
  show "require_role [''AUDITEUR''] [sample_auditor] (Some ''kc-5'') = Inr sample_auditor" by code_simp
  show "filter (\<lambda>v. tv_id v = rvr_vote_id \<lparr>rvr_vote_id = 1, rvr_vote = ''FRAUD'', rvr_salt = replicate 65 CHR ''x''\<rparr>)
      (tdb_votes long_salt_db) = [(tdb_votes long_salt_db) ! 0]" by code_simp
  show "tv_revealed_vote ((tdb_votes long_salt_db) ! 0) = None" by code_simp
  show "filter (\<lambda>s. ts_id s = tv_session_id (tdb_votes long_salt_db ! 0)) (tdb_sessions long_salt_db) =
    [new_session 1 7 ''wash trade'' None 1000]" by code_simp
  show "tv_commit_hash (tdb_votes long_salt_db ! 0) =
    compute_commit_hash (\<lambda>m. []) (rvr_vote \<lparr>rvr_vote_id = 1, rvr_vote = ''FRAUD'', rvr_salt = replicate 65 CHR ''x''\<rparr>)
      (rvr_salt \<lparr>rvr_vote_id = 1, rvr_vote = ''FRAUD'', rvr_salt = replicate 65 CHR ''x''\<rparr>)" by code_simp
qed (simp_all add: valid_reveal_request_def new_session_def)

end
