(* ===== verification/Resilience.thy ===== *)
theory Resilience
  imports PyFloat Interfaces
begin

text \<open>
  The two guards around outbound calls: \<open>CircuitBreaker\<close> (core/core/circuit_breaker.py) and the
  \<open>fabric_retry\<close> decorator (core/fabric_client/retry.py). Both keep state that concurrent
  coroutines share and change only between awaits, so each stretch of code between two awaits
  is one definition here; a call is their composition, and an interleaving of calls is any
  sequence of them. Clock readings are arguments; their differences are float subtractions.
\<close>

subsection \<open>The circuit breaker\<close>

datatype cb_state = CLOSED | HALF_OPEN | OPEN

record breaker_config =
  cb_threshold :: int
  cb_cooldown_s :: rat

record breaker =
  cb_state :: cb_state
  cb_failure_count :: int
  cb_opened_at :: rat

definition new_breaker :: breaker where
  "new_breaker = \<lparr>cb_state = CLOSED, cb_failure_count = 0, cb_opened_at = 0\<rparr>"

text \<open>The first critical section of \<open>call\<close>; \<open>None\<close> is \<open>CircuitBreakerOpenError\<close>.\<close>

definition cb_enter :: "breaker_config \<Rightarrow> breaker \<Rightarrow> rat \<Rightarrow> breaker option" where
  "cb_enter cfg b now =
     (if cb_state b = OPEN then
        if fsub now (cb_opened_at b) < cb_cooldown_s cfg then None
        else Some (b\<lparr>cb_state := HALF_OPEN\<rparr>)
      else Some b)"

text \<open>The last critical section of \<open>call\<close>, after the function returned.\<close>

definition cb_success :: "breaker \<Rightarrow> breaker" where
  "cb_success b = b\<lparr>cb_failure_count := 0, cb_state := (if cb_state b \<noteq> CLOSED then CLOSED else cb_state b)\<rparr>"

definition cb_record_failure :: "breaker_config \<Rightarrow> breaker \<Rightarrow> rat \<Rightarrow> breaker" where
  "cb_record_failure cfg b now =
     (let n = cb_failure_count b + 1 in
      if cb_state b = HALF_OPEN \<or> cb_threshold cfg \<le> n
      then b\<lparr>cb_failure_count := n, cb_state := OPEN, cb_opened_at := now\<rparr>
      else b\<lparr>cb_failure_count := n\<rparr>)"

text \<open>
  How the awaited function ends: with a result, with an \<open>Exception\<close> (the timeout of
  \<open>wait_for\<close> included), or cancelled, which is not an \<open>Exception\<close> and skips the handler.
\<close>

datatype 'a outcome = Returned 'a | Raised string | Cancelled

datatype 'a cb_result = CbOpenError | CbResult 'a | CbRaised string | CbCancelled

definition cb_call :: "breaker_config \<Rightarrow> breaker \<Rightarrow> rat \<Rightarrow> 'a outcome \<Rightarrow> rat \<Rightarrow> breaker \<times> 'a cb_result" where
  "cb_call cfg b now out finished =
     (case cb_enter cfg b now of
        None \<Rightarrow> (b, CbOpenError)
      | Some b' \<Rightarrow>
          (case out of
             Returned x \<Rightarrow> (cb_success b', CbResult x)
           | Raised e \<Rightarrow> (cb_record_failure cfg b' finished, CbRaised e)
           | Cancelled \<Rightarrow> (b', CbCancelled)))"

definition neo4j_breaker_config :: breaker_config where
  "neo4j_breaker_config = \<lparr>cb_threshold = 5, cb_cooldown_s = 30\<rparr>"

definition vault_breaker_config :: breaker_config where
  "vault_breaker_config = \<lparr>cb_threshold = 3, cb_cooldown_s = 60\<rparr>"

definition groq_breaker_config :: breaker_config where
  "groq_breaker_config = \<lparr>cb_threshold = 4, cb_cooldown_s = 20\<rparr>"

text \<open>Concurrent calls: an event is one critical section of some call.\<close>

datatype cb_event = Enter rat | Success | Failure rat

definition cb_step :: "breaker_config \<Rightarrow> breaker \<Rightarrow> cb_event \<Rightarrow> breaker" where
  "cb_step cfg b ev =
     (case ev of
        Enter now \<Rightarrow> (case cb_enter cfg b now of None \<Rightarrow> b | Some b' \<Rightarrow> b')
      | Success \<Rightarrow> cb_success b
      | Failure now \<Rightarrow> cb_record_failure cfg b now)"

definition cb_inv :: "breaker_config \<Rightarrow> breaker \<Rightarrow> bool" where
  "cb_inv cfg b \<longleftrightarrow> 1 \<le> cb_threshold cfg \<and> 0 \<le> cb_failure_count b \<and>
     (if cb_state b = CLOSED then cb_failure_count b < cb_threshold cfg
      else cb_threshold cfg \<le> cb_failure_count b)"

subsection \<open>The retry decorator\<close>

record retry_config =
  max_attempts :: nat
  base_delay :: rat
  retry_factor :: rat
  retry_jitter :: rat
  retry_cb_threshold :: int
  retry_cb_timeout :: rat

record retry_state =
  failure_count :: int
  first_failure_time :: rat
  circuit_open :: bool
  circuit_open_time :: rat

definition new_retry_state :: retry_state where
  "new_retry_state =
     \<lparr>failure_count = 0, first_failure_time = 0, circuit_open = False, circuit_open_time = 0\<rparr>"

text \<open>
  The exceptions the wrapper tells apart: \<open>TimeoutError\<close> and \<open>RpcError\<close>/\<open>ConnectionError\<close> are
  retried, anything else leaves the wrapper.
\<close>

datatype 'a attempt = Ok 'a | TimeoutError | RpcError string | OtherError string

datatype 'a retry_result =
    RetryReturned 'a
  | CircuitBreakerOpenError
  | EndorsementError string
  | AttemptsExhausted
  | Propagated string

text \<open>Entry of the wrapper; \<open>None\<close>: the circuit is open and the call is refused.\<close>

definition retry_enter :: "retry_config \<Rightarrow> retry_state \<Rightarrow> rat \<Rightarrow> retry_state option" where
  "retry_enter cfg s now =
     (if circuit_open s then
        if fsub now (circuit_open_time s) \<ge> retry_cb_timeout cfg
        then Some (s\<lparr>circuit_open := False, failure_count := 0\<rparr>) else None
      else Some s)"

definition retry_success :: "retry_state \<Rightarrow> retry_state" where
  "retry_success s = s\<lparr>failure_count := 0, circuit_open := False\<rparr>"

text \<open>The bookkeeping of one retryable failure.\<close>

definition retry_count :: "retry_config \<Rightarrow> retry_state \<Rightarrow> rat \<Rightarrow> retry_state" where
  "retry_count cfg s t =
     (if failure_count s = 0 \<or> (fsub t (first_failure_time s) > retry_cb_timeout cfg \<and> \<not> circuit_open s)
      then s\<lparr>failure_count := 1, first_failure_time := t\<rparr>
      else s\<lparr>failure_count := failure_count s + 1\<rparr>)"

definition retry_failure :: "retry_config \<Rightarrow> retry_state \<Rightarrow> rat \<Rightarrow> retry_state \<times> bool" where
  "retry_failure cfg s t =
     (let s' = retry_count cfg s t in
      if failure_count s' \<ge> retry_cb_threshold cfg
      then (s'\<lparr>circuit_open := True, circuit_open_time := t\<rparr>, True) else (s', False))"

fun attempt_message :: "'a attempt \<Rightarrow> string" where
  "attempt_message (RpcError m) = m"
| "attempt_message _ = []"

text \<open>
  The loop over the attempts still to make. \<open>outs\<close> gives the outcome of each attempt and the
  time it failed, \<open>rs\<close> the values drawn by \<open>random.uniform(0, jitter)\<close>. The result carries the
  final state, the delays slept and the number of times the function was called.
\<close>

fun retry_loop ::
    "retry_config \<Rightarrow> nat \<Rightarrow> nat \<Rightarrow> rat \<Rightarrow> (nat \<Rightarrow> 'a attempt \<times> rat) \<Rightarrow> (nat \<Rightarrow> rat) \<Rightarrow> retry_state \<Rightarrow>
     retry_state \<times> 'a retry_result \<times> rat list \<times> nat" where
  "retry_loop cfg i 0 delay outs rs s = (s, AttemptsExhausted, [], 0)"
| "retry_loop cfg i (Suc n) delay outs rs s =
     (case outs i of
        (Ok x, _) \<Rightarrow> (retry_success s, RetryReturned x, [], 1)
      | (OtherError e, _) \<Rightarrow> (s, Propagated e, [], 1)
      | (a, t) \<Rightarrow>
          (case retry_failure cfg s t of
             (s', True) \<Rightarrow> (s', CircuitBreakerOpenError, [], 1)
           | (s', False) \<Rightarrow>
               if n = 0 then (s', EndorsementError (attempt_message a), [], 1)
               else (case retry_loop cfg (Suc i) n (fmul delay (retry_factor cfg)) outs rs s' of
                       (s'', r, ds, k) \<Rightarrow> (s'', r, fadd delay (rs i) # ds, Suc k))))"

definition fabric_retry ::
    "retry_config \<Rightarrow> retry_state \<Rightarrow> rat \<Rightarrow> (nat \<Rightarrow> 'a attempt \<times> rat) \<Rightarrow> (nat \<Rightarrow> rat) \<Rightarrow>
     retry_state \<times> 'a retry_result \<times> rat list \<times> nat" where
  "fabric_retry cfg s now outs rs =
     (case retry_enter cfg s now of
        None \<Rightarrow> (s, CircuitBreakerOpenError, [], 0)
      | Some s' \<Rightarrow> retry_loop cfg 0 (max_attempts cfg) (base_delay cfg) outs rs s')"

text \<open>Concurrent wrappers: an event is one stretch between awaits.\<close>

datatype retry_event = RetryEnter rat | RetrySuccess | RetryFailure rat

definition retry_step :: "retry_config \<Rightarrow> retry_state \<Rightarrow> retry_event \<Rightarrow> retry_state" where
  "retry_step cfg s ev =
     (case ev of
        RetryEnter now \<Rightarrow> (case retry_enter cfg s now of None \<Rightarrow> s | Some s' \<Rightarrow> s')
      | RetrySuccess \<Rightarrow> retry_success s
      | RetryFailure t \<Rightarrow> fst (retry_failure cfg s t))"

definition retry_inv :: "retry_config \<Rightarrow> retry_state \<Rightarrow> bool" where
  "retry_inv cfg s \<longleftrightarrow> 1 \<le> retry_cb_threshold cfg \<and> 0 \<le> failure_count s \<and>
     (if circuit_open s then retry_cb_threshold cfg \<le> failure_count s
      else failure_count s < retry_cb_threshold cfg)"

subsection \<open>The breaker counts consecutive failures\<close>

text \<open>
  The specification of the failure counter, and of the state it implies: the failures recorded
  since the last success, and the time of the last one.
\<close>

fun count_spec :: "int \<Rightarrow> cb_event \<Rightarrow> int" where
  "count_spec n (Enter _) = n"
| "count_spec n Success = 0"
| "count_spec n (Failure _) = n + 1"

fun last_failure :: "cb_event list \<Rightarrow> rat option" where
  "last_failure [] = None"
| "last_failure (Failure t # evs) = (case last_failure evs of None \<Rightarrow> Some t | Some u \<Rightarrow> Some u)"
| "last_failure (_ # evs) = last_failure evs"

definition is_failure :: "cb_event \<Rightarrow> bool" where
  "is_failure ev \<longleftrightarrow> (case ev of Failure _ \<Rightarrow> True | _ \<Rightarrow> False)"

definition failures_since_success :: "cb_event list \<Rightarrow> nat" where
  "failures_since_success evs = length (filter is_failure (takeWhile (\<lambda>ev. ev \<noteq> Success) (rev evs)))"

lemma cb_step_inv: "cb_inv cfg b \<Longrightarrow> cb_inv cfg (cb_step cfg b ev)"
  by (cases ev; cases "cb_state b")
    (auto simp: cb_inv_def cb_step_def cb_enter_def cb_success_def cb_record_failure_def Let_def)

lemma cb_step_count: "cb_failure_count (cb_step cfg b ev) = count_spec (cb_failure_count b) ev"
  by (cases ev) (auto simp: cb_step_def cb_enter_def cb_success_def cb_record_failure_def Let_def)

interpretation cb: refinement "cb_step cfg" "cb_inv cfg" cb_failure_count count_spec for cfg
  by unfold_locales (auto intro: cb_step_inv simp: cb_step_count)

lemma count_spec_failures: "foldl count_spec 0 evs = int (failures_since_success evs)"
proof (induction evs rule: rev_induct)
  case (snoc ev evs)
  then show ?case by (cases ev) (auto simp: failures_since_success_def is_failure_def)
qed (simp add: failures_since_success_def)

lemma last_failure_snoc:
  "last_failure (evs @ [ev]) = (case ev of Failure t \<Rightarrow> Some t | _ \<Rightarrow> last_failure evs)"
  by (induction evs rule: last_failure.induct) (auto split: cb_event.splits option.splits)

lemma cb_step_opened_at:
  assumes "cb_inv cfg b" and "cb_state b \<noteq> CLOSED \<Longrightarrow> lf = Some (cb_opened_at b)"
    and "cb_state (cb_step cfg b ev) \<noteq> CLOSED"
  shows "(case ev of Failure t \<Rightarrow> Some t | _ \<Rightarrow> lf) = Some (cb_opened_at (cb_step cfg b ev))"
  using assms
  by (cases ev; cases "cb_state b")
    (auto simp: cb_step_def cb_enter_def cb_success_def cb_record_failure_def cb_inv_def Let_def split: if_splits)

lemma cb_opened_at_run:
  assumes "1 \<le> cb_threshold cfg"
  shows "cb_state (foldl (cb_step cfg) new_breaker evs) \<noteq> CLOSED \<Longrightarrow>
    last_failure evs = Some (cb_opened_at (foldl (cb_step cfg) new_breaker evs))"
proof (induction evs rule: rev_induct)
  case Nil
  then show ?case by (simp add: new_breaker_def)
next
  case (snoc ev evs)
  let ?b = "foldl (cb_step cfg) new_breaker evs"
  have "cb_inv cfg ?b" using assms by (intro cb.inv_run) (simp add: cb_inv_def new_breaker_def)
  then show ?case using cb_step_opened_at [OF _ snoc.IH, of cfg ev] snoc.prems
    by (simp add: last_failure_snoc)
qed



text \<open>
  A half-open breaker admits every call, not one probe: the call that moves the breaker to
  HALF_OPEN leaves it in a state in which each further call enters until an outcome is recorded.
\<close>

theorem half_open_admits_every_call:
  assumes "cb_state b = OPEN" and "cb_cooldown_s cfg \<le> fsub now (cb_opened_at b)"
  shows "\<exists>b'. cb_enter cfg b now = Some b' \<and> cb_state b' = HALF_OPEN \<and>
    (\<forall>later. cb_enter cfg (foldl (cb_step cfg) b' (map Enter later)) (last (now # later)) = Some b')"
proof -
  let ?b = "b\<lparr>cb_state := HALF_OPEN\<rparr>"
  have "foldl (cb_step cfg) ?b (map Enter later) = ?b" for later
    by (induction later) (simp_all add: cb_step_def cb_enter_def)
  then show ?thesis using assms by (intro exI [of _ ?b]) (simp add: cb_enter_def)
qed

theorem half_open_admits_every_call_witness:
  "\<exists>b'. cb_enter vault_breaker_config \<lparr>cb_state = OPEN, cb_failure_count = 3, cb_opened_at = 10\<rparr> 80 = Some b' \<and>
    cb_state b' = HALF_OPEN \<and>
    (\<forall>later. cb_enter vault_breaker_config (foldl (cb_step vault_breaker_config) b' (map Enter later)) (last (80 # later)) = Some b')"
proof (rule half_open_admits_every_call)
  show "cb_cooldown_s vault_breaker_config
      \<le> fsub 80 (cb_opened_at \<lparr>cb_state = OPEN, cb_failure_count = 3, cb_opened_at = 10\<rparr>)"
    using rnd_of_int [of 70] by (simp add: vault_breaker_config_def fsub_def)
qed simp

subsection \<open>Retries\<close>

lemma retry_step_inv: "retry_inv cfg s \<Longrightarrow> retry_inv cfg (retry_step cfg s ev)"
  by (cases ev)
    (auto simp: retry_inv_def retry_step_def retry_enter_def retry_success_def retry_failure_def
      retry_count_def Let_def split: if_splits)

interpretation retry: machine "retry_step cfg" "retry_inv cfg" for cfg
  by unfold_locales (rule retry_step_inv)

definition retryable :: "'a attempt \<Rightarrow> bool" where
  "retryable a \<longleftrightarrow> (case a of TimeoutError \<Rightarrow> True | RpcError _ \<Rightarrow> True | _ \<Rightarrow> False)"

text \<open>The delay before the jitter is added: multiplied by the factor after each wait.\<close>

fun backoff :: "rat \<Rightarrow> rat \<Rightarrow> nat \<Rightarrow> rat" where
  "backoff f d 0 = d"
| "backoff f d (Suc j) = backoff f (fmul d f) j"

lemma retry_failure_no_trip:
  assumes "0 \<le> failure_count s" and "failure_count s + 1 < retry_cb_threshold cfg"
  shows "\<exists>s'. retry_failure cfg s t = (s', False) \<and> 0 \<le> failure_count s' \<and>
    failure_count s' \<le> failure_count s + 1 \<and> circuit_open s' = circuit_open s"
  using assms by (auto simp: retry_failure_def retry_count_def Let_def)

lemma retry_loop_failed_attempt:
  assumes "retryable (fst (outs i))" and "retry_failure cfg s (snd (outs i)) = (s', False)" and "0 < n"
  shows "retry_loop cfg i (Suc n) delay outs rs s =
    (case retry_loop cfg (Suc i) n (fmul delay (retry_factor cfg)) outs rs s' of
       (s'', r, ds, k) \<Rightarrow> (s'', r, fadd delay (rs i) # ds, Suc k))"
  using assms by (cases "outs i"; cases "fst (outs i)") (auto simp: retryable_def)

lemma retry_loop_success:
  assumes "m < n" and "0 \<le> failure_count s"
    and "failure_count s + int m < retry_cb_threshold cfg"
    and "\<And>j. j < m \<Longrightarrow> retryable (fst (outs (i + j)))" and "fst (outs (i + m)) = Ok x"
  shows "\<exists>s'. retry_loop cfg i n delay outs rs s =
      (s', RetryReturned x, map (\<lambda>j. fadd (backoff (retry_factor cfg) delay j) (rs (i + j))) [0..<m], Suc m) \<and>
    failure_count s' = 0 \<and> \<not> circuit_open s'"
  using assms
proof (induction m arbitrary: n i delay s)
  case 0
  then obtain n' where "n = Suc n'" by (cases n) auto
  with 0 show ?case by (cases "outs i") (auto simp: retry_success_def)
next
  case (Suc m)
  then obtain n' where n: "n = Suc n'" "m < n'" by (cases n) auto
  have "retryable (fst (outs i))" using Suc.prems(4) [of 0] by simp
  moreover obtain s' where s': "retry_failure cfg s (snd (outs i)) = (s', False)" "0 \<le> failure_count s'"
      "failure_count s' \<le> failure_count s + 1"
    using retry_failure_no_trip [of s cfg "snd (outs i)"] Suc.prems(2,3) by auto
  ultimately have loop: "retry_loop cfg i n delay outs rs s =
      (case retry_loop cfg (Suc i) n' (fmul delay (retry_factor cfg)) outs rs s' of
         (s'', r, ds, k) \<Rightarrow> (s'', r, fadd delay (rs i) # ds, Suc k))"
    using n retry_loop_failed_attempt [of outs i cfg s s' n'] by simp
  have "\<exists>s''. retry_loop cfg (Suc i) n' (fmul delay (retry_factor cfg)) outs rs s' =
      (s'', RetryReturned x,
       map (\<lambda>j. fadd (backoff (retry_factor cfg) (fmul delay (retry_factor cfg)) j) (rs (Suc i + j))) [0..<m], Suc m) \<and>
    failure_count s'' = 0 \<and> \<not> circuit_open s''"
    by (rule Suc.IH) (use Suc.prems Suc.prems(4) [of "Suc _"] n(2) s' in auto)
  then show ?case using loop by (auto simp: map_upt_Suc simp del: upt_Suc)
qed

text \<open>
  A call wrapped by \<open>fabric_retry\<close> returns the first success. If the circuit is closed, the
  first \<open>m\<close> attempts fail with retryable errors, the next one succeeds within the allowed
  attempts, and the failures do not reach the threshold, then the function is called exactly
  \<open>m + 1\<close> times, the result is returned, the failure counter is reset, and the delays slept are
  the exponential backoff plus the jitter drawn for each.
\<close>

theorem fabric_retry_returns_first_success:
  assumes "\<not> circuit_open s" and "0 \<le> failure_count s" and "m < max_attempts cfg"
    and "failure_count s + int m < retry_cb_threshold cfg"
    and "\<forall>j < m. retryable (fst (outs j))" and "fst (outs m) = Ok x"
  shows "\<exists>s'. fabric_retry cfg s now outs rs =
      (s', RetryReturned x, map (\<lambda>j. fadd (backoff (retry_factor cfg) (base_delay cfg) j) (rs j)) [0..<m], Suc m) \<and>
    failure_count s' = 0 \<and> \<not> circuit_open s'"
  using assms retry_loop_success [of m "max_attempts cfg" s cfg outs 0 x "base_delay cfg" rs]
  by (simp add: fabric_retry_def retry_enter_def)

definition sample_retry :: retry_config where
  "sample_retry = \<lparr>max_attempts = 3, base_delay = 1, retry_factor = 2, retry_jitter = 0,
     retry_cb_threshold = 5, retry_cb_timeout = 30\<rparr>"

theorem fabric_retry_returns_first_success_witness:
  "\<exists>s'. fabric_retry sample_retry new_retry_state 0 (\<lambda>i. (if i < 2 then TimeoutError else Ok i, 0)) (\<lambda>i. 0) =
      (s', RetryReturned 2, map (\<lambda>j. fadd (backoff (retry_factor sample_retry) (base_delay sample_retry) j) 0) [0..<2], Suc 2) \<and>
    failure_count s' = 0 \<and> \<not> circuit_open s'"
  by (rule fabric_retry_returns_first_success)
    (simp_all add: sample_retry_def new_retry_state_def retryable_def)

lemma retry_loop_calls:
  "retry_loop cfg i n delay outs rs s = (s', r, ds, k) \<Longrightarrow> k \<le> n \<and> length ds \<le> k"
  by (induction n arbitrary: i delay s s' r ds k)
    (fastforce split: prod.splits attempt.splits bool.splits if_splits)+

text \<open>
  The function is never called more than the configured number of attempts, and not at all
  while the circuit is open; the circuit opens only when the threshold is reached, for any
  interleaving of concurrent calls sharing the state.
\<close>

theorem fabric_retry_bounded:
  assumes "retry_inv cfg s0" and "s = foldl (retry_step cfg) s0 evs"
    and "fabric_retry cfg s now outs rs = (s', r, ds, k)"
  shows "k \<le> max_attempts cfg \<and>
    (circuit_open s \<longrightarrow> retry_cb_threshold cfg \<le> failure_count s) \<and>
    (circuit_open s \<and> fsub now (circuit_open_time s) < retry_cb_timeout cfg \<longrightarrow>
       k = 0 \<and> r = CircuitBreakerOpenError \<and> s' = s)"
proof -
  have "retry_inv cfg s" using retry.inv_run [OF assms(1)] assms(2) by simp
  moreover have "k \<le> max_attempts cfg"
    using assms(3) by (auto simp: fabric_retry_def dest: retry_loop_calls split: option.splits)
  ultimately show ?thesis
    using assms(3) by (auto simp: retry_inv_def fabric_retry_def retry_enter_def split: if_splits)
qed

theorem fabric_retry_bounded_witness:
  "\<exists>s'. fabric_retry sample_retry new_retry_state 0 (\<lambda>i. (if i < 1 then TimeoutError else Ok i, 0)) (\<lambda>i. 0) =
      (s', RetryReturned 1, [fadd 1 0], 2) \<and> 2 \<le> max_attempts sample_retry"
proof -
  obtain s' where s': "fabric_retry sample_retry new_retry_state 0 (\<lambda>i. (if i < 1 then TimeoutError else Ok i, 0)) (\<lambda>i. 0) =
      (s', RetryReturned 1, [fadd 1 0], 2)"
    by (simp add: fabric_retry_def retry_enter_def new_retry_state_def sample_retry_def numeral_3_eq_3
      retry_failure_def retry_count_def Let_def)
  have "2 \<le> max_attempts sample_retry"
    using fabric_retry_bounded [OF _ _ s', of new_retry_state "[]"]
    by (simp add: retry_inv_def new_retry_state_def sample_retry_def)
  with s' show ?thesis by blast
qed

end
