(* ===== verification/Chaincode.thy ===== *)
theory Chaincode
  imports Access PyText PyFloat Interfaces "HOL-Library.Sublist"
begin

text \<open>
  The smart contract the platform submits to (chaincode/contract.go, access.go, compliance.go and
  models.go): the asset and its provenance trail on the world state, the four transactions with
  every guard in the order of the code, and the two reads the API uses. It is the ledger the asset
  service talks to through the Fabric client.

  A \<open>float64\<close> is an \<^typ>\<open>xfloat\<close>. The world state holds the structs themselves: \<open>json.Marshal\<close>
  fails exactly on a NaN or an infinity, and what it writes \<open>json.Unmarshal\<close> reads back. The errors
  of the peer's own stub (a lost state database) are outside the model. Of several \<open>SetEvent\<close> calls
  in one transaction the shim keeps the last.
\<close>

subsection \<open>Data (models.go)\<close>

record provenance_record =
  pr_TxID :: string
  pr_Timestamp :: datetime
  pr_ActorMSP :: string
  pr_ActorDN :: string
  pr_Action :: string
  pr_FromOwner :: string
  pr_ToOwner :: string
  pr_Amount :: xfloat
  pr_Justification :: string

record financial_asset =
  fa_AssetID :: string
  fa_ISIN :: string
  fa_AssetType :: string
  fa_AssetName :: string
  fa_IssuerMSP :: string
  fa_IssuerLEI :: string
  fa_CurrentOwner :: string
  fa_NominalValue :: xfloat
  fa_CurrentValue :: xfloat
  fa_Currency :: string
  fa_Status :: string
  fa_IssuanceDate :: string
  fa_MaturityDate :: string
  fa_CouponRate :: xfloat
  fa_RatingMoodys :: string
  fa_FrozenBy :: string
  fa_FrozenAt :: string
  fa_FrozenReason :: string
  fa_RegulatoryRef :: string
  fa_TotalTransfers :: int
  fa_Provenance :: "provenance_record list"

abbreviation StatusActif :: string where "StatusActif \<equiv> ''ACTIF''"
abbreviation StatusGele :: string where "StatusGele \<equiv> ''GELE''"

type_synonym world_state = "string \<rightharpoonup> financial_asset"

datatype go_error =
    Wrapped string go_error
  | NoMSP
  | NoDN
  | NoTimestamp
  | UnknownFunction string
  | AccessDenied string string
  | InvalidAssetID string
  | InvalidISIN
  | InvalidLEI
  | UnsupportedCurrency string
  | InvalidRegulatoryRef string
  | NotPositive xfloat
  | AssetExists string
  | AssetUnknown string
  | NotAvailable string string string
  | AlreadyFrozen string
  | NotFrozen string string
  | NotSerializable
  | BadArguments

definition wrap :: "string \<Rightarrow> go_error + 'a \<Rightarrow> go_error + 'a" where
  "wrap what r = (case r of Inl e \<Rightarrow> Inl (Wrapped what e) | Inr x \<Rightarrow> Inr x)"

subsection \<open>The caller (access.go)\<close>

text \<open>What the transaction context answers; \<open>None\<close>: the call returned an error.\<close>

record tx_context =
  ctx_msp :: "string option"
  ctx_dn :: "string option"
  ctx_timestamp :: "datetime option"
  ctx_txid :: string

definition authorisedMSPs :: "string \<rightharpoonup> string list" where
  "authorisedMSPs = map_of
     [(''TokenizeAsset'', [''BANK01MSP'']),
      (''TransferAsset'', [''BANK01MSP'']),
      (''FreezeAsset'', [''REG01MSP'']),
      (''UnfreezeAsset'', [''REG01MSP'']),
      (''QueryAssets'', [''BANK01MSP'', ''REG01MSP'']),
      (''GetAsset'', [''BANK01MSP'', ''REG01MSP'']),
      (''GetAssetHistory'', [''BANK01MSP'', ''REG01MSP'']),
      (''GetProvenanceTrail'', [''BANK01MSP'', ''REG01MSP''])]"

definition getClientMSP :: "tx_context \<Rightarrow> go_error + string" where
  "getClientMSP ctx = (case ctx_msp ctx of None \<Rightarrow> Inl NoMSP | Some i \<Rightarrow> if i = [] then Inl NoMSP else Inr i)"

definition getClientDN :: "tx_context \<Rightarrow> go_error + string" where
  "getClientDN ctx = (case ctx_dn ctx of None \<Rightarrow> Inl NoDN | Some dn \<Rightarrow> if dn = [] then Inl NoDN else Inr dn)"

definition getTxTimestamp :: "tx_context \<Rightarrow> go_error + datetime" where
  "getTxTimestamp ctx = (case ctx_timestamp ctx of None \<Rightarrow> Inl NoTimestamp | Some t \<Rightarrow> Inr t)"

text \<open>\<open>strings.EqualFold\<close> against an ASCII name.\<close>

definition EqualFold :: "string \<Rightarrow> string \<Rightarrow> bool" where
  "EqualFold a b \<longleftrightarrow> lower a = lower b"

definition verifyRole :: "tx_context \<Rightarrow> string \<Rightarrow> go_error + unit" where
  "verifyRole ctx fn =
     (case getClientMSP ctx of
        Inl e \<Rightarrow> Inl (Wrapped ''verifyRole'' e)
      | Inr msp \<Rightarrow>
          (case authorisedMSPs fn of
             None \<Rightarrow> Inl (UnknownFunction fn)
           | Some allowed \<Rightarrow>
               if list_ex (EqualFold msp) allowed then Inr () else Inl (AccessDenied msp fn)))"

subsection \<open>Field rules (compliance.go)\<close>

definition is_upper_digit :: "char \<Rightarrow> bool" where
  "is_upper_digit c \<longleftrightarrow> is_upper c \<or> is_digit c"

definition assetIDPattern :: "rx_item list" where
  "assetIDPattern = rx_lit ''RWA-'' @
     [(is_upper, 2, Some 12), rx_char CHR ''-'', (is_upper, 2, Some 6), rx_char CHR ''-'',
      (is_digit, 4, Some 4), rx_char CHR ''-'', (is_digit, 3, Some 3)]"

definition regulatoryRefPattern :: "rx_item list" where
  "regulatoryRefPattern =
     [(is_upper, 2, Some 6), rx_char CHR ''-'', (is_upper_digit, 2, Some 8), rx_char CHR ''-'',
      (is_digit, 4, Some 4), rx_char CHR ''-'', (is_upper_digit, 3, Some 8)]"

definition supportedCurrencies :: "string list" where
  "supportedCurrencies = [''EUR'', ''USD'', ''GBP'', ''CHF'', ''JPY'', ''MAD'', ''AED'', ''SGD'']"

definition RequireActiveAsset :: "financial_asset \<Rightarrow> go_error + unit" where
  "RequireActiveAsset a =
     (if fa_Status a \<noteq> StatusActif
      then Inl (NotAvailable (fa_AssetID a) (fa_Status a) (fa_RegulatoryRef a)) else Inr ())"

definition RequireFrozenAsset :: "financial_asset \<Rightarrow> go_error + unit" where
  "RequireFrozenAsset a =
     (if fa_Status a \<noteq> StatusGele then Inl (NotFrozen (fa_AssetID a) (fa_Status a)) else Inr ())"

definition ValidateAssetID :: "string \<Rightarrow> go_error + unit" where
  "ValidateAssetID s = (if rx_match assetIDPattern s then Inr () else Inl (InvalidAssetID s))"

definition ValidateCurrency :: "string \<Rightarrow> go_error + unit" where
  "ValidateCurrency s = (if s \<in> set supportedCurrencies then Inr () else Inl (UnsupportedCurrency s))"

text \<open>\<open>for i, ch := range s\<close>: the runes with their byte offsets.\<close>

fun runes_from :: "nat \<Rightarrow> string \<Rightarrow> (nat \<times> char) list" where
  "runes_from n [] = []"
| "runes_from n (c # s) = (n, c) # runes_from (n + length (utf8_char c)) s"

definition ValidateISIN :: "string \<Rightarrow> go_error + unit" where
  "ValidateISIN s =
     (if length (utf8 s) = 12 \<and>
         list_all (\<lambda>(i, c). if i < 2 then is_upper c else is_upper_digit c) (runes_from 0 s)
      then Inr () else Inl InvalidISIN)"

definition ValidateLEI :: "string \<Rightarrow> go_error + unit" where
  "ValidateLEI s = (if length (utf8 s) = 20 \<and> list_all is_upper_digit s then Inr () else Inl InvalidLEI)"

definition ValidateRegulatoryRef :: "string \<Rightarrow> go_error + unit" where
  "ValidateRegulatoryRef s =
     (if rx_match regulatoryRefPattern s then Inr () else Inl (InvalidRegulatoryRef s))"

text \<open>The event the threshold check sets, if any.\<close>

definition CheckMiCAThreshold :: "xfloat \<Rightarrow> string option" where
  "CheckMiCAThreshold amount = (if xgt amount 1000000 then Some ''MiCAThresholdExceeded'' else None)"

subsection \<open>Transactions (contract.go)\<close>

text \<open>\<open>x <= 0\<close> on a \<open>float64\<close>: false for NaN.\<close>

fun xnonpos :: "xfloat \<Rightarrow> bool" where
  "xnonpos (Fin x) = (x \<le> 0)"
| "xnonpos NInf = True"
| "xnonpos _ = False"

definition marshals :: "financial_asset \<Rightarrow> bool" where
  "marshals a \<longleftrightarrow> is_finite (fa_NominalValue a) \<and> is_finite (fa_CurrentValue a) \<and> is_finite (fa_CouponRate a) \<and>
     list_all (\<lambda>r. is_finite (pr_Amount r)) (fa_Provenance a)"

definition getAsset :: "world_state \<Rightarrow> string \<Rightarrow> go_error + financial_asset" where
  "getAsset ws assetID = (case ws assetID of None \<Rightarrow> Inl (AssetUnknown assetID) | Some a \<Rightarrow> Inr a)"

definition assetExists :: "world_state \<Rightarrow> string \<Rightarrow> bool" where
  "assetExists ws assetID \<longleftrightarrow> ws assetID \<noteq> None"

text \<open>Marshal, \<open>PutState\<close> and \<open>SetEvent\<close>: the new world state and the event of the transaction.\<close>

definition commit_asset ::
    "world_state \<Rightarrow> string \<Rightarrow> string \<Rightarrow> string \<Rightarrow> financial_asset \<Rightarrow> go_error + world_state \<times> string" where
  "commit_asset ws fn event assetID a =
     (if marshals a then Inr (ws(assetID \<mapsto> a), event) else Inl (Wrapped fn NotSerializable))"

text \<open>The identity and time every transaction stamps on its provenance record.\<close>

definition actor :: "tx_context \<Rightarrow> go_error + string \<times> string \<times> datetime" where
  "actor ctx =
     (case getClientMSP ctx of
        Inl e \<Rightarrow> Inl e
      | Inr msp \<Rightarrow>
          (case getClientDN ctx of
             Inl e \<Rightarrow> Inl e
           | Inr dn \<Rightarrow>
               (case getTxTimestamp ctx of Inl e \<Rightarrow> Inl e | Inr t \<Rightarrow> Inr (msp, dn, t))))"

definition TokenizeAsset ::
    "tx_context \<Rightarrow> world_state \<Rightarrow> string \<Rightarrow> string \<Rightarrow> string \<Rightarrow> string \<Rightarrow> string \<Rightarrow> xfloat \<Rightarrow> string \<Rightarrow>
     string \<Rightarrow> string \<Rightarrow> go_error + world_state \<times> string" where
  "TokenizeAsset ctx ws assetID isin assetType assetName issuerLEI nominalValue currency issuanceDate justification =
     (case verifyRole ctx ''TokenizeAsset'' of Inl e \<Rightarrow> Inl e | Inr _ \<Rightarrow>
      case wrap ''TokenizeAsset'' (ValidateAssetID assetID) of Inl e \<Rightarrow> Inl e | Inr _ \<Rightarrow>
      case wrap ''TokenizeAsset'' (ValidateISIN isin) of Inl e \<Rightarrow> Inl e | Inr _ \<Rightarrow>
      case wrap ''TokenizeAsset'' (ValidateLEI issuerLEI) of Inl e \<Rightarrow> Inl e | Inr _ \<Rightarrow>
      case wrap ''TokenizeAsset'' (ValidateCurrency currency) of Inl e \<Rightarrow> Inl e | Inr _ \<Rightarrow>
      if xnonpos nominalValue then Inl (NotPositive nominalValue)
      else if assetExists ws assetID then Inl (AssetExists assetID)
      else case wrap ''TokenizeAsset'' (actor ctx) of Inl e \<Rightarrow> Inl e | Inr (msp, dn, t) \<Rightarrow>
        commit_asset ws ''TokenizeAsset'' ''AssetCreated'' assetID
          \<lparr>fa_AssetID = assetID, fa_ISIN = isin, fa_AssetType = assetType, fa_AssetName = assetName,
           fa_IssuerMSP = msp, fa_IssuerLEI = issuerLEI, fa_CurrentOwner = dn, fa_NominalValue = nominalValue,
           fa_CurrentValue = nominalValue, fa_Currency = currency, fa_Status = StatusActif,
           fa_IssuanceDate = issuanceDate, fa_MaturityDate = [], fa_CouponRate = Fin 0, fa_RatingMoodys = [],
           fa_FrozenBy = [], fa_FrozenAt = [], fa_FrozenReason = [], fa_RegulatoryRef = [], fa_TotalTransfers = 0,
           fa_Provenance =
             [\<lparr>pr_TxID = ctx_txid ctx, pr_Timestamp = t, pr_ActorMSP = msp, pr_ActorDN = dn, pr_Action = ''TOKENISE'',
               pr_FromOwner = [], pr_ToOwner = dn, pr_Amount = nominalValue, pr_Justification = justification\<rparr>]\<rparr>)"

definition TransferAsset ::
    "tx_context \<Rightarrow> world_state \<Rightarrow> string \<Rightarrow> string \<Rightarrow> string \<Rightarrow> xfloat \<Rightarrow> go_error + world_state \<times> string" where
  "TransferAsset ctx ws assetID toOwner justification price =
     (case verifyRole ctx ''TransferAsset'' of Inl e \<Rightarrow> Inl e | Inr _ \<Rightarrow>
      if xnonpos price then Inl (NotPositive price)
      else case wrap ''TransferAsset'' (getAsset ws assetID) of Inl e \<Rightarrow> Inl e | Inr a \<Rightarrow>
        case wrap ''TransferAsset'' (RequireActiveAsset a) of Inl e \<Rightarrow> Inl e | Inr _ \<Rightarrow>
        let mica_event = CheckMiCAThreshold price in
        case wrap ''TransferAsset'' (actor ctx) of Inl e \<Rightarrow> Inl e | Inr (msp, dn, t) \<Rightarrow>
          commit_asset ws ''TransferAsset'' ''AssetTransferred'' assetID
            (a\<lparr>fa_Provenance := fa_Provenance a @
                 [\<lparr>pr_TxID = ctx_txid ctx, pr_Timestamp = t, pr_ActorMSP = msp, pr_ActorDN = dn,
                   pr_Action = ''TRANSFERE'', pr_FromOwner = fa_CurrentOwner a, pr_ToOwner = toOwner,
                   pr_Amount = price, pr_Justification = justification\<rparr>],
               fa_CurrentOwner := toOwner, fa_CurrentValue := price,
               fa_TotalTransfers := fa_TotalTransfers a + 1\<rparr>))"

definition rfc3339 :: "datetime \<Rightarrow> string" where
  "rfc3339 t = take 19 (isoformat t) @ ''Z''"

definition FreezeAsset ::
    "tx_context \<Rightarrow> world_state \<Rightarrow> string \<Rightarrow> string \<Rightarrow> string \<Rightarrow> go_error + world_state \<times> string" where
  "FreezeAsset ctx ws assetID reason regulatoryRef =
     (case verifyRole ctx ''FreezeAsset'' of Inl e \<Rightarrow> Inl e | Inr _ \<Rightarrow>
      case wrap ''FreezeAsset'' (ValidateRegulatoryRef regulatoryRef) of Inl e \<Rightarrow> Inl e | Inr _ \<Rightarrow>
      case wrap ''FreezeAsset'' (getAsset ws assetID) of Inl e \<Rightarrow> Inl e | Inr a \<Rightarrow>
      if fa_Status a = StatusGele then Inl (AlreadyFrozen assetID)
      else case wrap ''FreezeAsset'' (actor ctx) of Inl e \<Rightarrow> Inl e | Inr (msp, dn, t) \<Rightarrow>
        commit_asset ws ''FreezeAsset'' ''AssetFrozen'' assetID
          (a\<lparr>fa_Status := StatusGele, fa_FrozenBy := dn, fa_FrozenAt := rfc3339 t, fa_FrozenReason := reason,
             fa_RegulatoryRef := regulatoryRef,
             fa_Provenance := fa_Provenance a @
               [\<lparr>pr_TxID = ctx_txid ctx, pr_Timestamp = t, pr_ActorMSP = msp, pr_ActorDN = dn, pr_Action = ''GELE'',
                 pr_FromOwner = [], pr_ToOwner = [], pr_Amount = Fin 0, pr_Justification = reason\<rparr>]\<rparr>))"

definition UnfreezeAsset ::
    "tx_context \<Rightarrow> world_state \<Rightarrow> string \<Rightarrow> string \<Rightarrow> go_error + world_state \<times> string" where
  "UnfreezeAsset ctx ws assetID justification =
     (case verifyRole ctx ''UnfreezeAsset'' of Inl e \<Rightarrow> Inl e | Inr _ \<Rightarrow>
      case wrap ''UnfreezeAsset'' (getAsset ws assetID) of Inl e \<Rightarrow> Inl e | Inr a \<Rightarrow>
      case wrap ''UnfreezeAsset'' (RequireFrozenAsset a) of Inl e \<Rightarrow> Inl e | Inr _ \<Rightarrow>
      case wrap ''UnfreezeAsset'' (actor ctx) of Inl e \<Rightarrow> Inl e | Inr (msp, dn, t) \<Rightarrow>
        commit_asset ws ''UnfreezeAsset'' ''AssetUnfrozen'' assetID
          (a\<lparr>fa_Status := StatusActif, fa_FrozenBy := [], fa_FrozenAt := [], fa_FrozenReason := [],
             fa_RegulatoryRef := [],
             fa_Provenance := fa_Provenance a @
               [\<lparr>pr_TxID = ctx_txid ctx, pr_Timestamp = t, pr_ActorMSP = msp, pr_ActorDN = dn, pr_Action = ''DEGELE'',
                 pr_FromOwner = [], pr_ToOwner = [], pr_Amount = Fin 0, pr_Justification = justification\<rparr>]\<rparr>))"

definition GetProvenanceTrail :: "world_state \<Rightarrow> string \<Rightarrow> go_error + provenance_record list" where
  "GetProvenanceTrail ws assetID =
     (case wrap ''GetProvenanceTrail'' (getAsset ws assetID) of Inl e \<Rightarrow> Inl e | Inr a \<Rightarrow> Inr (fa_Provenance a))"

subsection \<open>Runs of the contract\<close>

text \<open>A transaction with its arguments bound to the parameters of the method.\<close>

datatype tx =
    Tokenize string string string string string xfloat string string string
  | Transfer string string string xfloat
  | Freeze string string string
  | Unfreeze string string

fun execute :: "tx_context \<Rightarrow> world_state \<Rightarrow> tx \<Rightarrow> go_error + world_state \<times> string" where
  "execute ctx ws (Tokenize i isin ty nm lei v cur d j) = TokenizeAsset ctx ws i isin ty nm lei v cur d j"
| "execute ctx ws (Transfer i owner j p) = TransferAsset ctx ws i owner j p"
| "execute ctx ws (Freeze i r ref) = FreezeAsset ctx ws i r ref"
| "execute ctx ws (Unfreeze i j) = UnfreezeAsset ctx ws i j"

text \<open>
  The string arguments of an invocation in the order of the method's parameters
  (contract.go, the four signatures); a \<open>float64\<close> parameter is parsed by \<open>parse_float\<close>, and a wrong
  number of arguments or an unparsable number is refused before the method runs.
\<close>

definition bind_args :: "(string \<Rightarrow> xfloat option) \<Rightarrow> string \<Rightarrow> string list \<Rightarrow> tx option" where
  "bind_args parse_float fn args =
     (if fn = ''TokenizeAsset'' then
        (case args of
           [i, isin, ty, nm, lei, v, cur, d, j] \<Rightarrow> map_option (\<lambda>x. Tokenize i isin ty nm lei x cur d j) (parse_float v)
         | _ \<Rightarrow> None)
      else if fn = ''TransferAsset'' then
        (case args of [i, owner, j, p] \<Rightarrow> map_option (Transfer i owner j) (parse_float p) | _ \<Rightarrow> None)
      else if fn = ''FreezeAsset'' then (case args of [i, r, ref] \<Rightarrow> Some (Freeze i r ref) | _ \<Rightarrow> None)
      else if fn = ''UnfreezeAsset'' then (case args of [i, j] \<Rightarrow> Some (Unfreeze i j) | _ \<Rightarrow> None)
      else None)"

definition cc_step :: "world_state \<Rightarrow> tx_context \<times> tx \<Rightarrow> world_state" where
  "cc_step ws ct = (case execute (fst ct) ws (snd ct) of Inl _ \<Rightarrow> ws | Inr (ws', _) \<Rightarrow> ws')"

subsection \<open>The provenance trail as the specification\<close>

text \<open>
  What an asset is, read off its trail alone: owner, value, status and number of transfers.
\<close>

type_synonym asset_view = "string \<times> xfloat \<times> string \<times> int"

fun replay_step :: "asset_view \<Rightarrow> provenance_record \<Rightarrow> asset_view" where
  "replay_step (owner, value, status, n) r =
     (if pr_Action r = ''TOKENISE'' then (pr_ToOwner r, pr_Amount r, StatusActif, 0)
      else if pr_Action r = ''TRANSFERE'' then (pr_ToOwner r, pr_Amount r, status, n + 1)
      else if pr_Action r = ''GELE'' then (owner, value, StatusGele, n)
      else (owner, value, StatusActif, n))"

definition replay :: "provenance_record list \<Rightarrow> asset_view" where
  "replay rs = foldl replay_step ([], Fin 0, [], 0) rs"

definition view :: "financial_asset \<Rightarrow> asset_view" where
  "view a = (fa_CurrentOwner a, fa_CurrentValue a, fa_Status a, fa_TotalTransfers a)"

text \<open>The actions a trail may hold in each status, and who may take them.\<close>

definition may_act :: "string \<Rightarrow> provenance_record \<Rightarrow> bool" where
  "may_act status r \<longleftrightarrow>
     (pr_Action r = ''TRANSFERE'' \<and> status = StatusActif \<and> EqualFold (pr_ActorMSP r) ''BANK01MSP'') \<or>
     (pr_Action r = ''GELE'' \<and> status = StatusActif \<and> EqualFold (pr_ActorMSP r) ''REG01MSP'') \<or>
     (pr_Action r = ''DEGELE'' \<and> status = StatusGele \<and> EqualFold (pr_ActorMSP r) ''REG01MSP'')"

definition status_after :: "provenance_record list \<Rightarrow> string" where
  "status_after rs = fst (snd (snd (replay rs)))"

definition legal_trail :: "provenance_record list \<Rightarrow> bool" where
  "legal_trail rs \<longleftrightarrow>
     rs \<noteq> [] \<and> pr_Action (hd rs) = ''TOKENISE'' \<and> EqualFold (pr_ActorMSP (hd rs)) ''BANK01MSP'' \<and>
     (\<forall>k \<in> {1 ..< length rs}. may_act (status_after (take k rs)) (rs ! k))"

definition asset_inv :: "string \<Rightarrow> financial_asset \<Rightarrow> bool" where
  "asset_inv i a \<longleftrightarrow>
     fa_AssetID a = i \<and> rx_match assetIDPattern i \<and> marshals a \<and>
     fa_Status a \<in> {StatusActif, StatusGele} \<and>
     (fa_Status a = StatusActif \<longrightarrow> fa_FrozenBy a = [] \<and> fa_RegulatoryRef a = []) \<and>
     (fa_Status a = StatusGele \<longrightarrow> fa_FrozenBy a \<noteq> [] \<and> rx_match regulatoryRefPattern (fa_RegulatoryRef a)) \<and>
     legal_trail (fa_Provenance a) \<and> view a = replay (fa_Provenance a)"

definition ledger_inv :: "world_state \<Rightarrow> bool" where
  "ledger_inv ws \<longleftrightarrow> (\<forall>i a. ws i = Some a \<longrightarrow> asset_inv i a)"

text \<open>An asset only moves forward: its identity is fixed and its trail only grows.\<close>

definition asset_le :: "financial_asset \<Rightarrow> financial_asset \<Rightarrow> bool" where
  "asset_le a b \<longleftrightarrow>
     fa_AssetID a = fa_AssetID b \<and> fa_ISIN a = fa_ISIN b \<and> fa_AssetType a = fa_AssetType b \<and>
     fa_IssuerMSP a = fa_IssuerMSP b \<and> fa_IssuerLEI a = fa_IssuerLEI b \<and> fa_NominalValue a = fa_NominalValue b \<and>
     fa_Currency a = fa_Currency b \<and> prefix (fa_Provenance a) (fa_Provenance b)"

definition ledger_le :: "world_state \<Rightarrow> world_state \<Rightarrow> bool" where
  "ledger_le ws ws' \<longleftrightarrow> (\<forall>i a. ws i = Some a \<longrightarrow> (\<exists>b. ws' i = Some b \<and> asset_le a b))"

subsection \<open>What each transaction did when it committed\<close>

lemma wrap_Inr [simp]: "wrap w r = Inr x \<longleftrightarrow> r = Inr x"
  by (auto simp: wrap_def split: sum.splits)

lemma verifyRole_Inr:
  "verifyRole ctx fn = Inr u \<longleftrightarrow>
     (\<exists>msp allowed. getClientMSP ctx = Inr msp \<and> authorisedMSPs fn = Some allowed \<and> list_ex (EqualFold msp) allowed)"
  by (auto simp: verifyRole_def split: sum.splits option.splits)

lemma actor_Inr:
  "actor ctx = Inr (msp, dn, t) \<longleftrightarrow> getClientMSP ctx = Inr msp \<and> getClientDN ctx = Inr dn \<and> getTxTimestamp ctx = Inr t"
  by (auto simp: actor_def split: sum.splits)

lemma client_nonempty [simp]: "getClientDN ctx = Inr dn \<Longrightarrow> dn \<noteq> []" "getClientMSP ctx = Inr msp \<Longrightarrow> msp \<noteq> []"
  by (auto simp: getClientDN_def getClientMSP_def split: option.splits if_splits)

lemma commit_asset_Inr:
  "commit_asset ws fn ev i a = Inr (ws', ev') \<longleftrightarrow> marshals a \<and> ws' = ws(i \<mapsto> a) \<and> ev' = ev"
  by (auto simp: commit_asset_def)

text \<open>Every committed transaction on an existing asset appends one legal record by an authorised caller.\<close>

definition appends :: "financial_asset \<Rightarrow> financial_asset \<Rightarrow> bool" where
  "appends a b \<longleftrightarrow> (\<exists>r. fa_Provenance b = fa_Provenance a @ [r] \<and> may_act (fa_Status a) r \<and>
     view b = replay_step (view a) r)"

lemma TransferAsset_Inr:
  assumes "TransferAsset ctx ws i owner j p = Inr (ws', ev)"
  obtains a b where "ws i = Some a" "ws' = ws(i \<mapsto> b)" "marshals b" "appends a b" "fa_Status a = StatusActif"
    "fa_FrozenBy b = fa_FrozenBy a" "fa_RegulatoryRef b = fa_RegulatoryRef a" "asset_le a b" "fa_Status b = fa_Status a"
    "fa_CurrentOwner b = owner" "fa_CurrentValue b = p" "ev = ''AssetTransferred''"
  using assms
  by (force simp: TransferAsset_def verifyRole_Inr actor_Inr commit_asset_Inr getAsset_def RequireActiveAsset_def
      authorisedMSPs_def appends_def may_act_def view_def asset_le_def
      split: sum.splits option.splits if_splits)

lemma FreezeAsset_Inr:
  assumes "FreezeAsset ctx ws i r ref = Inr (ws', ev)" and "\<And>a. ws i = Some a \<Longrightarrow> fa_Status a \<in> {StatusActif, StatusGele}"
  obtains a b where "ws i = Some a" "ws' = ws(i \<mapsto> b)" "marshals b" "appends a b" "fa_Status a = StatusActif"
    "fa_FrozenBy b \<noteq> []" "rx_match regulatoryRefPattern ref" "fa_RegulatoryRef b = ref" "asset_le a b" "fa_Status b = StatusGele"
    "ev = ''AssetFrozen''"
  using assms
  by (force simp: FreezeAsset_def verifyRole_Inr actor_Inr commit_asset_Inr getAsset_def ValidateRegulatoryRef_def
      authorisedMSPs_def appends_def may_act_def view_def asset_le_def
      split: sum.splits option.splits if_splits)

lemma UnfreezeAsset_Inr:
  assumes "UnfreezeAsset ctx ws i j = Inr (ws', ev)"
  obtains a b where "ws i = Some a" "ws' = ws(i \<mapsto> b)" "marshals b" "appends a b" "fa_Status a = StatusGele"
    "fa_FrozenBy b = []" "fa_RegulatoryRef b = []" "asset_le a b" "fa_Status b = StatusActif" "ev = ''AssetUnfrozen''"
  using assms
  by (force simp: UnfreezeAsset_def verifyRole_Inr actor_Inr commit_asset_Inr getAsset_def RequireFrozenAsset_def
      authorisedMSPs_def appends_def may_act_def view_def asset_le_def
      split: sum.splits option.splits if_splits)

lemma TokenizeAsset_Inr:
  assumes "TokenizeAsset ctx ws i isin ty nm lei v cur d j = Inr (ws', ev)"
  obtains b r where "ws i = None" "ws' = ws(i \<mapsto> b)" "rx_match assetIDPattern i" "fa_AssetID b = i"
    "marshals b" "fa_Provenance b = [r]" "pr_Action r = ''TOKENISE''" "EqualFold (pr_ActorMSP r) ''BANK01MSP''"
    "view b = replay [r]" "fa_FrozenBy b = []" "fa_RegulatoryRef b = []" "fa_Status b = StatusActif"
    "fa_NominalValue b = v" "fa_CurrentValue b = v" "ev = ''AssetCreated''"
  using assms
  by (force simp: TokenizeAsset_def verifyRole_Inr actor_Inr commit_asset_Inr ValidateAssetID_def assetExists_def
      authorisedMSPs_def view_def replay_def
      split: sum.splits if_splits)

subsection \<open>The invariant\<close>

lemma legal_trail_single: "pr_Action r = ''TOKENISE'' \<Longrightarrow> EqualFold (pr_ActorMSP r) ''BANK01MSP'' \<Longrightarrow> legal_trail [r]"
  by (simp add: legal_trail_def)

lemma legal_trail_snoc:
  "legal_trail rs \<Longrightarrow> may_act (status_after rs) r \<Longrightarrow> legal_trail (rs @ [r])"
  by (auto simp: legal_trail_def nth_append less_Suc_eq)

lemma replay_snoc: "replay (rs @ [r]) = replay_step (replay rs) r"
  by (simp add: replay_def)

lemma asset_inv_appends:
  assumes "asset_inv i a" and "appends a b" and "marshals b" and "asset_le a b"
    and "fa_Status b = StatusActif \<and> fa_FrozenBy b = [] \<and> fa_RegulatoryRef b = [] \<or>
         fa_Status b = StatusGele \<and> fa_FrozenBy b \<noteq> [] \<and> rx_match regulatoryRefPattern (fa_RegulatoryRef b)"
  shows "asset_inv i b"
proof -
  obtain r where r: "fa_Provenance b = fa_Provenance a @ [r]" "may_act (fa_Status a) r"
    "view b = replay_step (view a) r"
    using assms(2) by (auto simp: appends_def)
  have a: "view a = replay (fa_Provenance a)" "legal_trail (fa_Provenance a)" "fa_AssetID a = i"
    "rx_match assetIDPattern i"
    using assms(1) by (auto simp: asset_inv_def)
  have "fa_Status a = status_after (fa_Provenance a)"
    unfolding status_after_def a(1) [symmetric] by (simp add: view_def)
  then have "legal_trail (fa_Provenance b)" "view b = replay (fa_Provenance b)"
    using a r by (simp_all add: legal_trail_snoc replay_snoc)
  then show ?thesis using a assms(3-5) by (auto simp: asset_inv_def asset_le_def)
qed

lemma ledger_inv_put: "ledger_inv ws \<Longrightarrow> asset_inv i b \<Longrightarrow> ledger_inv (ws(i \<mapsto> b))"
  by (simp add: ledger_inv_def)

lemma ledger_le_put: "ws i = Some a \<Longrightarrow> asset_le a b \<Longrightarrow> ledger_le ws (ws(i \<mapsto> b))"
  "ws i = None \<Longrightarrow> ledger_le ws (ws(i \<mapsto> b))"
  by (auto simp: ledger_le_def asset_le_def)

lemma execute_sound:
  assumes "ledger_inv ws" and "execute ctx ws t = Inr (ws', ev)"
  shows "ledger_inv ws' \<and> ledger_le ws ws'"
proof -
  have inv: "asset_inv i a" if "ws i = Some a" for i a using assms(1) that by (simp add: ledger_inv_def)
  then have status: "fa_Status a \<in> {StatusActif, StatusGele}" if "ws i = Some a" for i a
    using that by (fastforce simp: asset_inv_def)
  show ?thesis
  proof (cases t)
    case (Tokenize i isin ty nm lei v cur d j)
    then have "TokenizeAsset ctx ws i isin ty nm lei v cur d j = Inr (ws', ev)" using assms(2) by simp
    then show ?thesis
      by (rule TokenizeAsset_Inr)
        (auto intro!: ledger_inv_put [OF assms(1)] ledger_le_put(2) simp: asset_inv_def legal_trail_single)
  next
    case (Transfer i owner j p)
    then have "TransferAsset ctx ws i owner j p = Inr (ws', ev)" using assms(2) by simp
    then show ?thesis
    proof (rule TransferAsset_Inr)
      fix a b
      assume *: "ws i = Some a" "ws' = ws(i \<mapsto> b)" "marshals b" "appends a b" "fa_Status a = StatusActif"
        "fa_FrozenBy b = fa_FrozenBy a" "fa_RegulatoryRef b = fa_RegulatoryRef a" "asset_le a b" "fa_Status b = fa_Status a"
      then have "asset_inv i b" using inv [of i a] by (intro asset_inv_appends [of i a b]) (auto simp: asset_inv_def)
      with * show ?thesis by (auto intro: ledger_inv_put [OF assms(1)] ledger_le_put(1))
    qed
  next
    case (Freeze i r ref)
    then have "FreezeAsset ctx ws i r ref = Inr (ws', ev)" using assms(2) by simp
    then show ?thesis
      by (rule FreezeAsset_Inr [OF _ status])
        (auto intro!: ledger_inv_put [OF assms(1)] ledger_le_put(1) intro: asset_inv_appends [OF inv])
  next
    case (Unfreeze i j)
    then have "UnfreezeAsset ctx ws i j = Inr (ws', ev)" using assms(2) by simp
    then show ?thesis
      by (rule UnfreezeAsset_Inr)
        (auto intro!: ledger_inv_put [OF assms(1)] ledger_le_put(1) intro: asset_inv_appends [OF inv])
  qed
qed

lemma cc_step_sound: "ledger_inv ws \<Longrightarrow> ledger_inv (cc_step ws ct) \<and> ledger_le ws (cc_step ws ct)"
  using execute_sound [of ws "fst ct" "snd ct"]
  by (auto simp: cc_step_def ledger_le_def asset_le_def split: sum.splits prod.splits)

lemma asset_le_trans: "asset_le a b \<Longrightarrow> asset_le b c \<Longrightarrow> asset_le a c"
  by (auto simp: asset_le_def)

interpretation contract: growing cc_step ledger_inv ledger_le
proof
  show "ledger_le s s" for s by (simp add: ledger_le_def asset_le_def)
  show "ledger_le s u" if "ledger_le s t" "ledger_le t u" for s t u
    using that unfolding ledger_le_def by (metis asset_le_trans)
qed (simp_all add: cc_step_sound)

text \<open>
  C7: after any sequence of transactions by any callers, every asset on the ledger is the replay of its own
  provenance trail: owner, value, status and transfer count follow from the records; the trail starts with the
  tokenisation by the bank, holds transfers only while the asset was active and freezes and unfreezes only by the
  regulator; a frozen asset carries a valid regulatory reference, an active one none; and what was on the ledger
  before is still there with its trail extended.
\<close>

theorem ledger_replays_provenance:
  assumes "ws' = foldl cc_step (\<lambda>_. None) (txs @ later)" and "ws' i = Some a"
  shows "view a = replay (fa_Provenance a) \<and> legal_trail (fa_Provenance a) \<and> fa_AssetID a = i \<and>
    (fa_Status a = StatusActif \<and> fa_RegulatoryRef a = [] \<or>
     fa_Status a = StatusGele \<and> rx_match regulatoryRefPattern (fa_RegulatoryRef a)) \<and>
    (\<forall>b. foldl cc_step (\<lambda>_. None) txs i = Some b \<longrightarrow> asset_le b a)"
proof -
  let ?ws = "foldl cc_step (\<lambda>_. None) txs"
  have start: "ledger_inv (\<lambda>_. None)" by (simp add: ledger_inv_def)
  then have mid: "ledger_inv ?ws" by (rule contract.inv_run)
  have "ledger_inv ws'" using contract.inv_run [OF mid] assms(1) by simp
  then have "asset_inv i a" using assms(2) by (simp add: ledger_inv_def)
  moreover have "ledger_le ?ws ws'" using contract.le_run [OF mid] assms(1) by simp
  ultimately show ?thesis using assms(2) unfolding asset_inv_def ledger_le_def by force
qed

text \<open>A bond issued and sold by the bank, frozen by the regulator; the sale after the freeze is refused.\<close>

definition sample_ctx :: "string \<Rightarrow> tx_context" where
  "sample_ctx msp = \<lparr>ctx_msp = Some msp, ctx_dn = Some ''CN=admin'',
     ctx_timestamp = Some \<lparr>dt_year = 1, dt_month = 1, dt_day = 1, dt_hour = 0, dt_minute = 0, dt_second = 0, dt_micro = 0\<rparr>, ctx_txid = ''t1''\<rparr>"

definition sample_asset_id :: string where "sample_asset_id = ''RWA-FR-OBL-2026-001''"

definition sample_tokenize :: tx where
  "sample_tokenize = Tokenize sample_asset_id ''FR0000000001'' ''OBLIGATION'' ''Bond'' ''969500AAAAAAAAAAAAAA'' (Fin 100) ''EUR'' ''2026-01-01'' ''initial issue''"

definition sample_txs :: "(tx_context \<times> tx) list" where
  "sample_txs =
    [(sample_ctx ''BANK01MSP'', sample_tokenize),
     (sample_ctx ''BANK01MSP'', Transfer sample_asset_id ''CN=trader'' ''sale'' (Fin 90)),
     (sample_ctx ''REG01MSP'', Freeze sample_asset_id ''inquiry'' ''ESMA-MICA-2026-042''),
     (sample_ctx ''BANK01MSP'', Transfer sample_asset_id ''CN=other'' ''sale'' (Fin 80))]"

lemma sample_id_ok: "rx_match assetIDPattern sample_asset_id" by code_simp
lemma sample_ref_ok: "rx_match regulatoryRefPattern ''ESMA-MICA-2026-042''" by code_simp
lemma sample_run:
  "map_option view (foldl cc_step (\<lambda>_. None) sample_txs sample_asset_id) = Some (''CN=trader'', Fin 90, ''GELE'', 1)"
proof -
  have isin: "ValidateISIN ''FR0000000001'' = Inr ()" and lei: "ValidateLEI ''969500AAAAAAAAAAAAAA'' = Inr ()"
   and cur: "ValidateCurrency ''EUR'' = Inr ()" by code_simp+
  have bank: "verifyRole (sample_ctx ''BANK01MSP'') ''TokenizeAsset'' = Inr ()" "verifyRole (sample_ctx ''BANK01MSP'') ''TransferAsset'' = Inr ()"
     "verifyRole (sample_ctx ''REG01MSP'') ''FreezeAsset'' = Inr ()" by code_simp+
  show ?thesis
    using isin lei cur bank sample_id_ok sample_ref_ok
    by (simp add: sample_txs_def cc_step_def sample_tokenize_def TokenizeAsset_def ValidateAssetID_def wrap_def assetExists_def
      commit_asset_def TransferAsset_def FreezeAsset_def ValidateRegulatoryRef_def getAsset_def RequireActiveAsset_def
      actor_def marshals_def view_def sample_ctx_def getClientMSP_def getClientDN_def getTxTimestamp_def Let_def)
qed

theorem ledger_replays_provenance_witness:
  "\<exists>a. foldl cc_step (\<lambda>_. None) sample_txs sample_asset_id = Some a \<and>
     replay (fa_Provenance a) = (''CN=trader'', Fin 90, ''GELE'', 1) \<and> legal_trail (fa_Provenance a)"
proof -
  obtain a where a: "foldl cc_step (\<lambda>_. None) sample_txs sample_asset_id = Some a"
    "view a = (''CN=trader'', Fin 90, ''GELE'', 1)"
    using sample_run by auto
  then show ?thesis
    using ledger_replays_provenance [of _ sample_txs "[]" sample_asset_id a, OF refl] by simp
qed

end
