(* ===== verification/Network.thy ===== *)
theory Network
  imports Json Resilience Access Chaincode
begin

text \<open>
  The Fabric client (core/fabric_client/network.py): the peer list read from the connection
  profile, the argument filter, the environment of an identity, the command lines handed to the
  \<open>peer\<close> binary, the reading of its answer, and the two calls wrapped by \<open>fabric_retry\<close>.

  The \<open>peer\<close> binary is a parameter: from a ledger, a command line and an environment it gives the
  new ledger and the way the process ended. The YAML profile is given as its parsed value.
\<close>

subsection \<open>The client\<close>

record fabric_client =
  fc_channel_name :: string
  fc_chaincode_name :: string
  fc_peers :: "(string \<times> string) list"
  fc_crypto_base :: string
  fc_fabric_cfg :: string
  fc_peer_bin :: string
  fc_orderer_ca :: string

definition environ_get :: "(string \<rightharpoonup> string) \<Rightarrow> string \<Rightarrow> string \<Rightarrow> string" where
  "environ_get environ k d = (case environ k of None \<Rightarrow> d | Some v \<Rightarrow> v)"

definition new_fabric_client :: "(string \<rightharpoonup> string) \<Rightarrow> string \<Rightarrow> string \<Rightarrow> string \<Rightarrow> fabric_client" where
  "new_fabric_client environ home channel chaincode =
     (let base = environ_get environ ''FABRIC_CRYPTO_CONFIG'' (home @ ''/rwa-platform/crypto-config'') in
      \<lparr>fc_channel_name = channel, fc_chaincode_name = chaincode, fc_peers = [], fc_crypto_base = base,
       fc_fabric_cfg = environ_get environ ''FABRIC_CFG_PATH_BASE''
         (home @ ''/go/src/github.com/hyperledger/fabric-samples/config''),
       fc_peer_bin = environ_get environ ''FABRIC_PEER_BIN''
         (home @ ''/go/src/github.com/hyperledger/fabric-samples/bin/peer''),
       fc_orderer_ca = base @
         ''/ordererOrganizations/finance-trust.com/orderers/orderer.finance-trust.com/msp/tlscacerts/tlsca.finance-trust.com-cert.pem''\<rparr>)"

text \<open>\<open>_FORBIDDEN_PATTERN.search\<close>: control characters, shell metacharacters or two dots in a row.\<close>

definition forbidden_char :: "char \<Rightarrow> bool" where
  "forbidden_char c \<longleftrightarrow> (of_char c :: nat) < 32 \<or> (of_char c :: nat) = 127 \<or> c \<in> set ''$`;|&><''"

definition forbidden :: "string \<Rightarrow> bool" where
  "forbidden s \<longleftrightarrow> list_ex forbidden_char s \<or> contains s ''..''"

definition sanitize_arguments :: "string list \<Rightarrow> bool" where
  "sanitize_arguments args \<longleftrightarrow> \<not> list_ex forbidden args"

subsection \<open>The connection profile\<close>

text \<open>\<open>s.replace(old, new)\<close> for a non-empty \<open>old\<close>.\<close>

function replace_str :: "string \<Rightarrow> string \<Rightarrow> string \<Rightarrow> string" where
  "replace_str old new s =
     (if s = [] \<or> old = [] then s
      else if starts_with s old then new @ replace_str old new (drop (length old) s)
      else hd s # replace_str old new (tl s))"
  by pat_completeness auto
termination
  by (relation "measure (\<lambda>(old, new, s). length s)") auto

declare replace_str.simps [simp del]

text \<open>\<open>str(v)\<close>; \<open>rep\<close> gives the text of a value that is not a string.\<close>

definition str_of :: "(pyval \<Rightarrow> string) \<Rightarrow> pyval \<Rightarrow> string" where
  "str_of rep v = (case v of PStr s \<Rightarrow> s | _ \<Rightarrow> rep v)"

definition dict_get :: "(string \<times> pyval) list \<Rightarrow> string \<Rightarrow> pyval \<Rightarrow> pyval" where
  "dict_get d k dflt = (case map_of d k of None \<Rightarrow> dflt | Some v \<Rightarrow> v)"

definition peer_entry :: "(pyval \<Rightarrow> string) \<Rightarrow> string \<Rightarrow> string \<times> pyval \<Rightarrow> (string \<times> string) option" where
  "peer_entry rep base entry =
     (case entry of
        (peer_id, PDict ext) \<Rightarrow>
          let url = str_of rep (dict_get ext ''url'' (PStr []));
              addr = replace_str ''grpc://'' [] (replace_str ''grpcs://'' [] url);
              port = (if CHR '':'' \<in> set addr then last (split_all CHR '':'' addr) else ''7051'');
              cert = (case dict_get ext ''tlsCACerts'' (PDict []) of
                        PDict tls \<Rightarrow> str_of rep (dict_get tls ''path'' (PStr []))
                      | _ \<Rightarrow> [])
          in Some (peer_id @ '':'' @ port, replace_str ''./crypto-config'' base cert)
      | _ \<Rightarrow> None)"

definition client_connect :: "(pyval \<Rightarrow> string) \<Rightarrow> pyval \<Rightarrow> fabric_client \<Rightarrow> fabric_client" where
  "client_connect rep profile c =
     (let config = (case profile of PDict d \<Rightarrow> d | _ \<Rightarrow> []);
          peers = (case dict_get config ''peers'' (PDict []) of PDict d \<Rightarrow> d | _ \<Rightarrow> [])
      in c\<lparr>fc_peers := fc_peers c @ List.map_filter (peer_entry rep (fc_crypto_base c)) peers\<rparr>)"

subsection \<open>Identities\<close>

record org_cfg =
  oc_msp_id :: string
  oc_domain :: string
  oc_admin :: string
  oc_peer_port :: string

definition org_defaults :: "string \<Rightarrow> org_cfg" where
  "org_defaults key =
     (if key = ''bank01''
      then \<lparr>oc_msp_id = ''BANK01MSP'', oc_domain = ''bank01.finance-trust.com'',
            oc_admin = ''admin@bank01.finance-trust.com'', oc_peer_port = ''7051''\<rparr>
      else \<lparr>oc_msp_id = ''REG01MSP'', oc_domain = ''reg01-regulateur.finance-trust.com'',
            oc_admin = ''admin@reg01-regulateur.finance-trust.com'', oc_peer_port = ''7091''\<rparr>)"

definition org_cfg_of :: "(string \<rightharpoonup> string) \<Rightarrow> string \<Rightarrow> org_cfg" where
  "org_cfg_of environ key =
     (let d = org_defaults key; pfx = (if key = ''bank01'' then ''FABRIC_BANK01_'' else ''FABRIC_REG01_'') in
      \<lparr>oc_msp_id = environ_get environ (pfx @ ''MSPID'') (oc_msp_id d),
       oc_domain = environ_get environ (pfx @ ''DOMAIN'') (oc_domain d),
       oc_admin = environ_get environ (pfx @ ''ADMIN'') (oc_admin d),
       oc_peer_port = environ_get environ (pfx @ ''PEER_PORT'') (oc_peer_port d)\<rparr>)"

text \<open>What the client itself raises; none of these classes is one the HTTP layer has a handler for.\<close>

datatype fabric_error =
    ForbiddenArgument
  | UnknownIdentity string
  | NetworkEndorsementError string
  | NetworkAssetNotFound
  | NetworkAssetFrozen string

definition identity_org :: "string \<Rightarrow> string option" where
  "identity_org label =
     (if contains (lower label) ''bank01'' then Some ''bank01''
      else if contains (lower label) ''reg01'' then Some ''reg01'' else None)"

definition env_for_org :: "fabric_client \<Rightarrow> (string \<rightharpoonup> string) \<Rightarrow> org_cfg \<Rightarrow> (string \<rightharpoonup> string)" where
  "env_for_org c environ cfg =
     (let domain = oc_domain cfg;
          org = fc_crypto_base c @ ''/peerOrganizations/'' @ domain;
          tls = org @ ''/peers/peer0.'' @ domain @ ''/tls''
      in environ
        (''FABRIC_CFG_PATH'' \<mapsto> fc_fabric_cfg c,
         ''CORE_PEER_LOCALMSPID'' \<mapsto> oc_msp_id cfg,
         ''CORE_PEER_ADDRESS'' \<mapsto> ''peer0.'' @ domain @ '':'' @ oc_peer_port cfg,
         ''CORE_PEER_MSPCONFIGPATH'' \<mapsto> org @ ''/users/'' @ oc_admin cfg @ ''/msp'',
         ''CORE_PEER_TLS_CERT_FILE'' \<mapsto> tls @ ''/server.crt'',
         ''CORE_PEER_TLS_KEY_FILE'' \<mapsto> tls @ ''/server.key'',
         ''CORE_PEER_TLS_ROOTCERT_FILE'' \<mapsto> tls @ ''/ca.crt'',
         ''CORE_PEER_TLS_ENABLED'' \<mapsto> ''true''))"

definition get_env_for_identity ::
    "fabric_client \<Rightarrow> (string \<rightharpoonup> string) \<Rightarrow> string \<Rightarrow> fabric_error + (string \<rightharpoonup> string)" where
  "get_env_for_identity c environ label =
     (case identity_org label of
        None \<Rightarrow> Inl (UnknownIdentity label)
      | Some key \<Rightarrow> Inr (env_for_org c environ (org_cfg_of environ key)))"

subsection \<open>Running the binary\<close>

datatype cli_outcome = BinaryMissing | CliTimeout | CliExit int string string

text \<open>\<open>re.search(r"ref:\s*([A-Z0-9_-]+)", s)\<close>: the first group of the first match.\<close>

definition ref_char :: "char \<Rightarrow> bool" where
  "ref_char c \<longleftrightarrow> is_upper c \<or> is_digit c \<or> c = CHR ''_'' \<or> c = CHR ''-''"

fun search_ref :: "string \<Rightarrow> string option" where
  "search_ref [] = None"
| "search_ref (c # s) =
     (let g = takeWhile ref_char (dropWhile is_space (drop 4 (c # s))) in
      if starts_with (c # s) ''ref:'' \<and> g \<noteq> [] then Some g else search_ref s)"

definition gele_marker :: string where
  "gele_marker = ''gel'' @ [CHR 0xE9]"

definition exec_cli :: "fabric_client \<Rightarrow> cli_outcome \<Rightarrow> fabric_error + string \<times> string" where
  "exec_cli c out =
     (case out of
        BinaryMissing \<Rightarrow> Inl (NetworkEndorsementError (''Fabric peer binary not available at '' @ fc_peer_bin c @
                                  ''. Refusing to fabricate a successful response.''))
      | CliTimeout \<Rightarrow> Inl (NetworkEndorsementError ''Fabric CLI subprocess explicitly timed out boundary limit.'')
      | CliExit rc stdout stderr \<Rightarrow>
          if rc \<noteq> 0 then
            if contains (strip stderr) ''introuvable sur le ledger'' then Inl NetworkAssetNotFound
            else if contains (strip stderr) gele_marker
            then Inl (NetworkAssetFrozen (case search_ref (strip stderr) of Some r \<Rightarrow> r | None \<Rightarrow> ''UNKNOWN_REF''))
            else Inl (NetworkEndorsementError (''CLI error '' @ dec_int rc @ '': '' @ strip stderr))
          else Inr (strip stdout, strip stderr))"

definition args_payload :: "string \<Rightarrow> string list \<Rightarrow> string" where
  "args_payload fn args = dumps (JObj [(''Args'', JList (map JStr (fn # args)))])"

definition invoke_cmd :: "fabric_client \<Rightarrow> string \<Rightarrow> string list \<Rightarrow> string list" where
  "invoke_cmd c fn args =
     [fc_peer_bin c, ''chaincode'', ''invoke'', ''-o'', ''orderer.finance-trust.com:7050'',
      ''--tls'', ''--cafile'', fc_orderer_ca c, ''-C'', fc_channel_name c, ''-n'', fc_chaincode_name c] @
     concat (map (\<lambda>p. [''--peerAddresses'', fst p, ''--tlsRootCertFiles'', snd p]) (fc_peers c)) @
     [''-c'', args_payload fn args, ''--waitForEvent'']"

definition query_cmd :: "fabric_client \<Rightarrow> string \<Rightarrow> string list \<Rightarrow> string list" where
  "query_cmd c fn args =
     [fc_peer_bin c, ''chaincode'', ''query'', ''-C'', fc_channel_name c, ''-n'', fc_chaincode_name c,
      ''-c'', args_payload fn args]"

subsection \<open>Reading the answer\<close>

definition strip_quotes :: "string \<Rightarrow> string" where
  "strip_quotes s = (let q = (\<lambda>c. c = CHR 0x22) in rev (dropWhile q (rev (dropWhile q s))))"

text \<open>The lines of the output, last first; \<open>Some PNone\<close>: no line looked like a payload.\<close>

fun read_payload :: "string list \<Rightarrow> pyval option" where
  "read_payload [] = Some PNone"
| "read_payload (line # lines) =
     (if starts_with line ''payload:'' then
        loads (replace_str [CHR 0x5C, CHR 0x22] [CHR 0x22] (strip_quotes (strip (drop 8 line))))
      else if CHR ''{'' \<in> set line then loads line
      else read_payload lines)"

definition submit_result :: "fabric_client \<Rightarrow> cli_outcome \<Rightarrow> fabric_error + pyval" where
  "submit_result c out =
     (case exec_cli c out of
        Inl e \<Rightarrow> Inl e
      | Inr (stdout, _) \<Rightarrow>
          (case read_payload (rev (split_all (CHR 0x0A) stdout)) of
             None \<Rightarrow> Inl (NetworkEndorsementError (''R'' @ [CHR 0xE9] @ ''ponse Fabric illisible: '' @ take 200 stdout))
           | Some v \<Rightarrow> Inr v))"

text \<open>\<open>re.sub('([a-z0-9])([A-Z])', r'\1_\2', k).lower()\<close>.\<close>

definition is_lower_digit :: "char \<Rightarrow> bool" where
  "is_lower_digit c \<longleftrightarrow> (let n = (of_char c :: nat) in 97 \<le> n \<and> n \<le> 122) \<or> is_digit c"

fun camel_split :: "string \<Rightarrow> string" where
  "camel_split (c # d # s) =
     (if is_lower_digit c \<and> is_upper d then c # CHR ''_'' # camel_split (d # s) else c # camel_split (d # s))"
| "camel_split s = s"

definition snake_key :: "string \<Rightarrow> string" where
  "snake_key k = lower (camel_split k)"

fun convert_keys :: "pyval \<Rightarrow> pyval" where
  "convert_keys (PList vs) = PList (map convert_keys vs)"
| "convert_keys (PDict kvs) = PDict (dict_of (map (\<lambda>(k, v). (snake_key k, convert_keys v)) kvs))"
| "convert_keys v = v"

definition evaluate_result :: "fabric_client \<Rightarrow> cli_outcome \<Rightarrow> fabric_error + pyval" where
  "evaluate_result c out =
     (case exec_cli c out of
        Inl e \<Rightarrow> Inl e
      | Inr (stdout, _) \<Rightarrow>
          Inr (case loads stdout of
                 Some v \<Rightarrow> convert_keys v
               | None \<Rightarrow> if stdout \<noteq> [] then PStr stdout else PNone))"

subsection \<open>The two calls\<close>

type_synonym 'l peer = "'l \<Rightarrow> string list \<Rightarrow> (string \<rightharpoonup> string) \<Rightarrow> 'l \<times> cli_outcome"

text \<open>One attempt of \<open>submit_transaction\<close> and of \<open>evaluate_transaction\<close>.\<close>

definition submit_once ::
    "fabric_client \<Rightarrow> (string \<rightharpoonup> string) \<Rightarrow> 'l peer \<Rightarrow> 'l \<Rightarrow> string \<Rightarrow> string list \<Rightarrow> string \<Rightarrow>
     'l \<times> (fabric_error + pyval)" where
  "submit_once c environ peer l fn args label =
     (if \<not> sanitize_arguments args then (l, Inl ForbiddenArgument)
      else case get_env_for_identity c environ label of
             Inl e \<Rightarrow> (l, Inl e)
           | Inr env \<Rightarrow> (case peer l (invoke_cmd c fn args) env of (l', out) \<Rightarrow> (l', submit_result c out)))"

definition evaluate_once ::
    "fabric_client \<Rightarrow> (string \<rightharpoonup> string) \<Rightarrow> 'l peer \<Rightarrow> 'l \<Rightarrow> string \<Rightarrow> string list \<Rightarrow> string \<Rightarrow>
     'l \<times> (fabric_error + pyval)" where
  "evaluate_once c environ peer l fn args label =
     (if \<not> sanitize_arguments args then (l, Inl ForbiddenArgument)
      else case get_env_for_identity c environ label of
             Inl e \<Rightarrow> (l, Inl e)
           | Inr env \<Rightarrow> (case peer l (query_cmd c fn args) env of (l', out) \<Rightarrow> (l', evaluate_result c out)))"

text \<open>
  The \<open>@fabric_retry()\<close> around an attempt. \<open>late i\<close> says that the \<open>asyncio.wait_for\<close> of attempt \<open>i\<close>
  expired first: the wrapper sees a \<open>TimeoutError\<close>, whatever the process did to the ledger. Every
  exception of the client itself is propagated at once.
\<close>

definition ledger_after :: "('l \<Rightarrow> 'l \<times> (fabric_error + pyval)) \<Rightarrow> nat \<Rightarrow> 'l \<Rightarrow> 'l" where
  "ledger_after once n l = ((\<lambda>l. fst (once l)) ^^ n) l"

definition attempts ::
    "('l \<Rightarrow> 'l \<times> (fabric_error + pyval)) \<Rightarrow> (nat \<Rightarrow> bool) \<Rightarrow> (nat \<Rightarrow> rat) \<Rightarrow> 'l \<Rightarrow> nat \<Rightarrow> pyval attempt \<times> rat" where
  "attempts once late time l i =
     (if late i then TimeoutError
      else case snd (once (ledger_after once i l)) of Inl e \<Rightarrow> OtherError [] | Inr v \<Rightarrow> Ok v, time i)"

record retry_env =
  re_config :: retry_config
  re_state :: retry_state
  re_now :: rat
  re_late :: "nat \<Rightarrow> bool"
  re_time :: "nat \<Rightarrow> rat"
  re_jitter :: "nat \<Rightarrow> rat"

definition with_retry ::
    "retry_env \<Rightarrow> ('l \<Rightarrow> 'l \<times> (fabric_error + pyval)) \<Rightarrow> 'l \<Rightarrow> 'l \<times> (app_error + pyval)" where
  "with_retry r once l =
     (case fabric_retry (re_config r) (re_state r) (re_now r) (attempts once (re_late r) (re_time r) l) (re_jitter r) of
        (s', res, delays, k) \<Rightarrow>
          (ledger_after once k l,
           case res of
             RetryReturned v \<Rightarrow> Inr v
           | EndorsementError m \<Rightarrow> Inl (FabricEndorsementError m)
           | _ \<Rightarrow> Inl UnhandledError))"

definition submit_transaction ::
    "fabric_client \<Rightarrow> (string \<rightharpoonup> string) \<Rightarrow> 'l peer \<Rightarrow> retry_env \<Rightarrow> 'l \<Rightarrow> string \<Rightarrow> string list \<Rightarrow> string \<Rightarrow>
     'l \<times> (app_error + pyval)" where
  "submit_transaction c environ peer r l fn args label =
     with_retry r (\<lambda>l. submit_once c environ peer l fn args label) l"

definition evaluate_transaction ::
    "fabric_client \<Rightarrow> (string \<rightharpoonup> string) \<Rightarrow> 'l peer \<Rightarrow> retry_env \<Rightarrow> 'l \<Rightarrow> string \<Rightarrow> string list \<Rightarrow> string \<Rightarrow>
     'l \<times> (app_error + pyval)" where
  "evaluate_transaction c environ peer r l fn args label =
     with_retry r (\<lambda>l. evaluate_once c environ peer l fn args label) l"

subsection \<open>Arguments reach the contract verbatim\<close>

lemma loads_args_payload: "loads (args_payload fn args) = Some (PDict [(''Args'', PList (map PStr (fn # args)))])"
proof -
  have "small_ints (JObj [(''Args'', JList (map JStr (fn # args)))])" by (simp add: list_all_iff)
  from loads_dumps [OF this] show ?thesis by (simp add: args_payload_def dict_of_def comp_def del: dumps.simps)
qed

text \<open>
  C18: whatever characters the arguments contain, the JSON text the client puts after \<open>-c\<close> of its command lines
  decodes to exactly the function name followed by the arguments: no argument can change the function or
  another argument.
\<close>

theorem arguments_reach_contract_verbatim:
  "\<exists>pre payload. invoke_cmd c fn args = pre @ [''-c'', payload, ''--waitForEvent''] \<and>
     query_cmd c fn args = [fc_peer_bin c, ''chaincode'', ''query'', ''-C'', fc_channel_name c, ''-n'', fc_chaincode_name c,
       ''-c'', payload] \<and>
     loads payload = Some (PDict [(''Args'', PList (map PStr (fn # args)))])"
proof -
  have "\<exists>pre. invoke_cmd c fn args = pre @ [''-c'', args_payload fn args, ''--waitForEvent'']"
    unfolding invoke_cmd_def append_assoc [symmetric] by (rule exI) (rule refl)
  then show ?thesis using loads_args_payload [of fn args] by (auto simp: query_cmd_def)
qed

subsection \<open>The identity of the caller\<close>

lemma identity_org_bank: "identity_org ''admin@bank01'' = Some ''bank01''"
  by code_simp

lemma identity_org_reg: "identity_org ''admin@reg01-regulateur'' = Some ''reg01''"
  by code_simp

lemma msp_to_identity_cases:
  "msp_to_identity msp = Some label \<Longrightarrow>
     msp = ''BANK01MSP'' \<and> label = ''admin@bank01'' \<or> msp = ''REG01MSP'' \<and> label = ''admin@reg01-regulateur''"
  by (auto simp: msp_to_identity_def split: if_splits)

text \<open>
  C20: a user acts on the ledger under the membership provider of the user's own row: the identity label resolved for
  the user is known to the client, and the environment it gets carries that provider, unless an environment variable
  overrides it.
\<close>

theorem identity_reaches_ledger:
  assumes "resolve_identity u = Inr label"
    and "environ ''FABRIC_BANK01_MSPID'' = None" and "environ ''FABRIC_REG01_MSPID'' = None"
  shows "\<exists>env. get_env_for_identity c environ label = Inr env \<and> env ''CORE_PEER_LOCALMSPID'' = user_msp_id u"
proof -
  obtain msp where msp: "user_msp_id u = Some msp" "msp_to_identity msp = Some label"
    using assms(1) by (cases "user_msp_id u") (auto simp: resolve_identity_def split: if_splits option.splits)
  from msp_to_identity_cases [OF msp(2)] show ?thesis
    using msp(1) assms(2,3)
    by (auto simp: get_env_for_identity_def identity_org_bank identity_org_reg env_for_org_def org_cfg_of_def
        org_defaults_def environ_get_def Let_def)
qed

subsection \<open>Keys\<close>

definition no_upper :: "string \<Rightarrow> bool" where
  "no_upper s \<longleftrightarrow> list_all (\<lambda>c. \<not> is_upper c) s"

lemma lower_no_upper: "no_upper (lower s)"
  unfolding no_upper_def list_all_iff lower_def
  using of_char_lt by (auto simp: lower_char_def is_upper_def Let_def)

lemma camel_split_no_upper: "no_upper s \<Longrightarrow> camel_split s = s"
  by (induction s rule: camel_split.induct) (auto simp: no_upper_def)

lemma snake_key_idem: "snake_key (snake_key k) = snake_key k"
  by (simp add: snake_key_def camel_split_no_upper lower_no_upper)

text \<open>
  Converting the keys of a ledger answer is idempotent, on nested values too: an answer that already has
  snake-case keys is left alone.
\<close>

theorem convert_keys_idempotent: "convert_keys (convert_keys v) = convert_keys v"
proof (induction v)
  case (PDict kvs)
  let ?f = "\<lambda>(k, v). (snake_key k, convert_keys v)"
  have "?f kv = kv" if "kv \<in> set (dict_of (map ?f kvs))" for kv
  proof -
    have "kv \<in> ?f ` set kvs" using that set_dict_of [of "map ?f kvs"] by auto
    then show ?thesis using PDict by (force simp: snake_key_idem)
  qed
  then have "map ?f (dict_of (map ?f kvs)) = dict_of (map ?f kvs)" by (rule map_idI)
  then show ?case using dict_of_id [OF dict_of_distinct, of "map ?f kvs"] by simp
qed simp_all


subsection \<open>Retries and the ledger\<close>

lemma ledger_after_0 [simp]: "ledger_after once 0 l = l"
  and ledger_after_Suc_0 [simp]: "ledger_after once (Suc 0) l = fst (once l)"
  by (simp_all add: ledger_after_def)

lemma with_retry_in_time:
  assumes "\<forall>i. \<not> re_late r i"
  shows "with_retry r once l \<in>
    {(l, Inl UnhandledError), (fst (once l), case snd (once l) of Inl _ \<Rightarrow> Inl UnhandledError | Inr v \<Rightarrow> Inr v)}"
proof (cases "retry_enter (re_config r) (re_state r) (re_now r)")
  case None
  then show ?thesis by (simp add: with_retry_def fabric_retry_def)
next
  case (Some s)
  show ?thesis
  proof (cases "max_attempts (re_config r)")
    case 0
    with Some show ?thesis by (simp add: with_retry_def fabric_retry_def)
  next
    case (Suc n)
    with Some assms show ?thesis
      by (cases "snd (once l)") (simp_all add: with_retry_def fabric_retry_def attempts_def)
  qed
qed

text \<open>
  C19: as long as no attempt outlives its time limit, one call of \<open>submit_transaction\<close> runs the peer at most once: either
  the call is refused with the ledger untouched, or the result and the ledger are those of exactly one attempt. Errors of
  the client are never retried.
\<close>

theorem submit_at_most_once:
  assumes "\<forall>i. \<not> re_late r i"
  shows "submit_transaction c environ peer r l fn args label = (l, Inl UnhandledError) \<or>
    submit_transaction c environ peer r l fn args label =
      (case submit_once c environ peer l fn args label of
         (l', Inl _) \<Rightarrow> (l', Inl UnhandledError) | (l', Inr v) \<Rightarrow> (l', Inr v))"
  using with_retry_in_time [OF assms, of "\<lambda>l. submit_once c environ peer l fn args label" l]
  by (auto simp: submit_transaction_def split: prod.splits sum.splits)

text \<open>
  After an attempt that outlived its time limit the transaction is submitted again: if the first \<open>m\<close> attempts are
  late and the next one answers in time, the peer has run the transaction \<open>m + 1\<close> times on the ledger although the
  caller sees one success.
\<close>

theorem late_attempts_resubmit:
  assumes "\<not> circuit_open (re_state r)" and "0 \<le> failure_count (re_state r)"
    and "m < max_attempts (re_config r)" and "failure_count (re_state r) + int m < retry_cb_threshold (re_config r)"
    and "\<forall>i < m. re_late r i" and "\<not> re_late r m"
    and "snd (submit_once c environ peer
      (((\<lambda>l. fst (submit_once c environ peer l fn args label)) ^^ m) l) fn args label) = Inr v"
  shows "submit_transaction c environ peer r l fn args label =
    (((\<lambda>l. fst (submit_once c environ peer l fn args label)) ^^ Suc m) l, Inr v)"
proof -
  let ?once = "\<lambda>l. submit_once c environ peer l fn args label"
  have "\<exists>s'. retry_loop (re_config r) 0 (max_attempts (re_config r)) (base_delay (re_config r))
      (attempts ?once (re_late r) (re_time r) l) (re_jitter r) (re_state r) =
    (s', RetryReturned v, map (\<lambda>j. fadd (backoff (retry_factor (re_config r)) (base_delay (re_config r)) j)
        (re_jitter r (0 + j))) [0..<m], Suc m) \<and> failure_count s' = 0 \<and> \<not> circuit_open s'"
    by (rule retry_loop_success) (use assms in \<open>auto simp: attempts_def retryable_def ledger_after_def\<close>)
  then show ?thesis using assms(1)
    by (auto simp: submit_transaction_def with_retry_def fabric_retry_def retry_enter_def ledger_after_def)
qed

subsection \<open>Examples\<close>

text \<open>A peer that counts the transactions it runs and prints an id.\<close>

definition counting_peer :: "nat peer" where
  "counting_peer n cmd env = (Suc n, CliExit 0 (''{'' @ [CHR 0x22] @ ''txID'' @ [CHR 0x22] @ '': 1}'') [])"

definition example_client :: fabric_client where
  "example_client = new_fabric_client (\<lambda>_. None) ''/root'' ''rwa-channel'' ''rwa-token''"

definition example_retry :: "nat \<Rightarrow> retry_env" where
  "example_retry late = \<lparr>re_config = sample_retry, re_state = new_retry_state, re_now = 0, re_late = (\<lambda>i. i < late),
     re_time = (\<lambda>_. 0), re_jitter = (\<lambda>_. 0)\<rparr>"

lemma example_submit_once:
  "submit_once example_client (\<lambda>_. None) counting_peer n ''UnfreezeAsset'' [''RWA-1'', ''closed''] ''admin@reg01'' =
     (Suc n, Inr (PDict [(''txID'', PInt 1)]))"
proof -
  have "sanitize_arguments [''RWA-1'', ''closed'']" by code_simp
  moreover have "identity_org ''admin@reg01'' = Some ''reg01''" by code_simp
  moreover have "submit_result example_client (CliExit 0 (''{'' @ [CHR 0x22] @ ''txID'' @ [CHR 0x22] @ '': 1}'') []) =
      Inr (PDict [(''txID'', PInt 1)])" by code_simp
  ultimately show ?thesis by (simp add: submit_once_def get_env_for_identity_def counting_peer_def)
qed

theorem submit_at_most_once_witness:
  "submit_transaction example_client (\<lambda>_. None) counting_peer (example_retry 0) 5 ''UnfreezeAsset'' [''RWA-1'', ''closed'']
     ''admin@reg01'' \<in> {(5, Inl UnhandledError), (6, Inr (PDict [(''txID'', PInt 1)]))}"
  using submit_at_most_once [of "example_retry 0" example_client "\<lambda>_. None" counting_peer 5 "''UnfreezeAsset''"
      "[''RWA-1'', ''closed'']" "''admin@reg01''"]
  by (auto simp: example_submit_once example_retry_def)

theorem late_attempts_resubmit_witness:
  "submit_transaction example_client (\<lambda>_. None) counting_peer (example_retry 1) 5 ''UnfreezeAsset'' [''RWA-1'', ''closed'']
     ''admin@reg01'' = (7, Inr (PDict [(''txID'', PInt 1)]))"
  using late_attempts_resubmit [of "example_retry 1" 1 example_client "\<lambda>_. None" counting_peer "''UnfreezeAsset''"
      "[''RWA-1'', ''closed'']" "''admin@reg01''" 5 "PDict [(''txID'', PInt 1)]"]
  by (simp add: example_submit_once example_retry_def sample_retry_def new_retry_state_def)

theorem identity_reaches_ledger_witness:
  "\<exists>env. get_env_for_identity example_client (\<lambda>_. None) ''admin@bank01'' = Inr env \<and>
     env ''CORE_PEER_LOCALMSPID'' = Some ''BANK01MSP''"
  using identity_reaches_ledger [of "\<lparr>user_id = 5, user_org_id = 1, keycloak_sub = None, user_email = [],
      user_first_name = None, user_last_name = None, user_role = [], user_msp_id = Some ''BANK01MSP'', user_is_active = True,
     user_phone = None, user_last_login = None\<rparr>"
      "''admin@bank01''" "\<lambda>_. None" example_client]
  by (simp add: resolve_identity_def msp_to_identity_def)

end
