(* ===== verification/Gateway.thy ===== *)
theory Gateway
  imports Network
begin

text \<open>
  The interface between the asset service and the ledger, as a locale: what the service may rely on when
  \<open>submit_transaction\<close> answers or raises, in terms of the status each asset has on the ledger. The locale is
  interpreted on the Fabric client of \<open>Network\<close> in front of the contract of \<open>Chaincode\<close>.
\<close>

subsection \<open>The interface\<close>

type_synonym 'l submit = "'l \<Rightarrow> string \<Rightarrow> string list \<Rightarrow> string \<Rightarrow> 'l \<times> (app_error + pyval)"

text \<open>The justification of the compensating transactions, and the reference of the compensating freeze.\<close>

definition saga_reason :: string where
  "saga_reason = ''SAGA_COMPENSATION: DB commit failure rollback''"

definition saga_ref :: string where
  "saga_ref = ''SAGA-COMP''"

locale gateway =
  fixes submit :: "'l submit" and status_of :: "'l \<Rightarrow> string \<Rightarrow> string option" and inv :: "'l \<Rightarrow> bool"
  assumes inv_submit: "inv l \<Longrightarrow> inv (fst (submit l fn args label))"
    and refused: "submit l fn args label = (l', Inl e) \<Longrightarrow> l' = l"
    and answers: "submit l fn args label = (l', Inr v) \<Longrightarrow> \<exists>t. v = PDict [(''txID'', PStr t)]"
    and tokenized: "inv l \<Longrightarrow> submit l ''TokenizeAsset'' (i # args) label = (l', Inr v) \<Longrightarrow>
      status_of l i = None \<and> status_of l' = (status_of l)(i \<mapsto> StatusActif)"
    and transferred: "inv l \<Longrightarrow> submit l ''TransferAsset'' (i # args) label = (l', Inr v) \<Longrightarrow>
      status_of l i = Some StatusActif \<and> status_of l' = status_of l"
    and frozen: "inv l \<Longrightarrow> submit l ''FreezeAsset'' (i # args) label = (l', Inr v) \<Longrightarrow>
      status_of l i = Some StatusActif \<and> status_of l' = (status_of l)(i \<mapsto> StatusGele)"
    and unfrozen: "inv l \<Longrightarrow> submit l ''UnfreezeAsset'' (i # args) label = (l', Inr v) \<Longrightarrow>
      status_of l i = Some StatusGele \<and> status_of l' = (status_of l)(i \<mapsto> StatusActif)"
    and undo_freeze: "inv l \<Longrightarrow> submit l ''FreezeAsset'' (i # args) label = (l', Inr v) \<Longrightarrow>
      \<exists>l'' v'. submit l' ''UnfreezeAsset'' [i, saga_reason] label = (l'', Inr v')"
    and undo_unfreeze: "\<exists>e. submit l ''FreezeAsset'' [i, saga_reason, saga_ref] label = (l, Inl e)"
begin

lemma inv_result: "inv l \<Longrightarrow> submit l fn args label = (l', r) \<Longrightarrow> inv l'"
  using inv_submit [of l fn args label] by simp

text \<open>Freezing and then compensating leaves every status as it was.\<close>

lemma freeze_compensated:
  assumes "inv l" and "submit l ''FreezeAsset'' (i # args) label = (l', Inr v)"
  shows "\<exists>l'' v'. submit l' ''UnfreezeAsset'' [i, saga_reason] label = (l'', Inr v') \<and> inv l'' \<and> status_of l'' = status_of l"
proof -
  obtain l'' v' where u: "submit l' ''UnfreezeAsset'' [i, saga_reason] label = (l'', Inr v')"
    using undo_freeze [OF assms] by blast
  have "inv l'" by (rule inv_result [OF assms])
  then have "status_of l'' = (status_of l')(i \<mapsto> StatusActif)" "inv l''"
    using unfrozen [OF _ u] inv_result [OF _ u] by simp_all
  moreover have "status_of l i = Some StatusActif" "status_of l' = (status_of l)(i \<mapsto> StatusGele)"
    using frozen [OF assms] by simp_all
  ultimately show ?thesis using u by (auto simp: fun_eq_iff)
qed

end

subsection \<open>The contract behind the peer\<close>

text \<open>
  A peer that runs the contract: it reads the arguments from the value of \<open>-c\<close>, takes the caller's provider from the
  environment, and prints the transaction id as a JSON object; a refused transaction leaves the ledger unchanged and
  ends with status 1. \<open>ce_parse_float\<close> is the number parser of the contract's runtime.
\<close>

record contract_env =
  ce_parse_float :: "string \<Rightarrow> xfloat option"
  ce_dn :: string
  ce_time :: datetime
  ce_txid :: "world_state \<Rightarrow> string"
  ce_report :: "go_error \<Rightarrow> string"

fun args_of :: "pyval \<Rightarrow> string list option" where
  "args_of (PDict [(k, PList vs)]) =
     (if k = ''Args'' \<and> list_all (\<lambda>v. case v of PStr _ \<Rightarrow> True | _ \<Rightarrow> False) vs
      then Some (map (\<lambda>v. case v of PStr s \<Rightarrow> s | _ \<Rightarrow> []) vs) else None)"
| "args_of _ = None"

definition contract_ctx :: "contract_env \<Rightarrow> world_state \<Rightarrow> (string \<rightharpoonup> string) \<Rightarrow> tx_context" where
  "contract_ctx ce ws env =
     \<lparr>ctx_msp = env ''CORE_PEER_LOCALMSPID'', ctx_dn = Some (ce_dn ce), ctx_timestamp = Some (ce_time ce),
      ctx_txid = ce_txid ce ws\<rparr>"

definition contract_invoke ::
    "contract_env \<Rightarrow> world_state \<Rightarrow> (string \<rightharpoonup> string) \<Rightarrow> string list \<Rightarrow> go_error + world_state" where
  "contract_invoke ce ws env fargs =
     (case fargs of
        [] \<Rightarrow> Inl BadArguments
      | fn # args \<Rightarrow>
          (case bind_args (ce_parse_float ce) fn args of
             None \<Rightarrow> Inl BadArguments
           | Some t \<Rightarrow> (case execute (contract_ctx ce ws env) ws t of Inl e \<Rightarrow> Inl e | Inr (ws', _) \<Rightarrow> Inr ws')))"

definition contract_peer :: "contract_env \<Rightarrow> world_state peer" where
  "contract_peer ce ws cmd env =
     (case Option.bind (loads (cmd ! (length cmd - 2))) args_of of
        None \<Rightarrow> (ws, CliExit 1 [] (ce_report ce BadArguments))
      | Some fargs \<Rightarrow>
          (case contract_invoke ce ws env fargs of
             Inl e \<Rightarrow> (ws, CliExit 1 [] (ce_report ce e))
           | Inr ws' \<Rightarrow> (ws', CliExit 0 (dumps (JObj [(''txID'', JStr (ce_txid ce ws))])) [])))"

definition contract_status :: "world_state \<Rightarrow> string \<Rightarrow> string option" where
  "contract_status ws i = map_option fa_Status (ws i)"

definition in_time :: "retry_env \<Rightarrow> retry_env" where
  "in_time r = r\<lparr>re_late := \<lambda>_. False\<rparr>"

definition contract_submit ::
    "fabric_client \<Rightarrow> (string \<rightharpoonup> string) \<Rightarrow> contract_env \<Rightarrow> retry_env \<Rightarrow> world_state submit" where
  "contract_submit c environ ce r ws fn args label =
     submit_transaction c environ (contract_peer ce) (in_time r) ws fn args label"

subsection \<open>What the client sees of the contract\<close>

lemma args_of_payload: "args_of (PDict [(''Args'', PList (map PStr xs))]) = Some xs"
  by (simp add: list_all_iff comp_def)

lemma invoke_payload_position: "invoke_cmd c fn args ! (length (invoke_cmd c fn args) - 2) = args_payload fn args"
  by (simp add: invoke_cmd_def nth_append)

lemma no_newline_string: "CHR 0x0A \<notin> set (json_string s)"
proof -
  have hex: "CHR 0x0A \<noteq> hex_digit n" if "n < 16" for n
  proof -
    have "hex_val CHR 0x0A = None" by (simp add: hex_val_def)
    then show ?thesis using hex_val_digit [OF that] by auto
  qed
  have "CHR 0x0A \<notin> set (json_escape_char c)" for c
  proof -
    have "(of_char c :: nat) div 16 < 16" using of_char_lt [of c] by linarith
    then show ?thesis using hex [of "of_char c div 16"] hex [of "of_char c mod 16"]
      by (auto simp: json_escape_char_def Let_def)
  qed
  then show ?thesis by (auto simp: json_string_def)
qed

lemma submit_result_txid:
  "submit_result c (CliExit 0 (dumps (JObj [(''txID'', JStr t)])) err) = Inr (PDict [(''txID'', PStr t)])"
proof -
  let ?out = "dumps (JObj [(''txID'', JStr t)])"
  have shape: "\<exists>mid. ?out = CHR ''{'' # mid @ [CHR ''}'']" by simp
  then have "strip ?out = ?out" by (intro strip_id) (auto simp: is_space_def)
  moreover have "CHR 0x0A \<notin> set ?out" using no_newline_string [of "''txID''"] no_newline_string [of t] by simp
  then have "split_all (CHR 0x0A) ?out = [?out]" by (rule split_all_no_sep)
  moreover have "\<not> starts_with ?out ''payload:''" "CHR ''{'' \<in> set ?out" using shape by (auto simp: starts_with_def)
  moreover have "loads ?out = Some (PDict [(''txID'', PStr t)])"
    using loads_dumps [of "JObj [(''txID'', JStr t)]"] by (simp add: dict_of_def del: dumps.simps)
  ultimately show ?thesis by (simp add: submit_result_def exec_cli_def del: dumps.simps)
qed

lemma submit_once_contract:
  "submit_once c environ (contract_peer ce) ws fn args label =
     (if \<not> sanitize_arguments args then (ws, Inl ForbiddenArgument)
      else case get_env_for_identity c environ label of
             Inl e \<Rightarrow> (ws, Inl e)
           | Inr env \<Rightarrow>
               (case contract_invoke ce ws env (fn # args) of
                  Inl e \<Rightarrow> (ws, submit_result c (CliExit 1 [] (ce_report ce e)))
                | Inr ws' \<Rightarrow> (ws', Inr (PDict [(''txID'', PStr (ce_txid ce ws))]))))"
  unfolding submit_once_def contract_peer_def invoke_payload_position loads_args_payload
  using args_of_payload [of "fn # args"] submit_result_txid [of c "ce_txid ce ws" "[]"]
  by (simp del: dumps.simps split: sum.splits)

lemma submit_result_failed: "submit_result c (CliExit 1 out err) \<noteq> Inr v"
  by (simp add: submit_result_def exec_cli_def)

text \<open>A call either leaves the ledger alone and raises, or ran one transaction and answers with its id.\<close>

lemma contract_submit_cases:
  assumes "contract_submit c environ ce r ws fn args label = (ws', res)"
  obtains (refused) e where "ws' = ws" "res = Inl e"
  | (committed) t ctx ev env where "bind_args (ce_parse_float ce) fn args = Some t" "execute ctx ws t = Inr (ws', ev)"
      "res = Inr (PDict [(''txID'', PStr (ce_txid ce ws))])" "sanitize_arguments args"
      "get_env_for_identity c environ label = Inr env" "ctx = contract_ctx ce ws env"
      "\<And>l fn args. contract_submit c environ ce r l fn args label =
         (case submit_once c environ (contract_peer ce) l fn args label of
            (l', Inl _) \<Rightarrow> (l', Inl UnhandledError) | (l', Inr v) \<Rightarrow> (l', Inr v))"
proof -
  let ?once = "\<lambda>l fn args. submit_once c environ (contract_peer ce) l fn args label"
  let ?as_app = "\<lambda>x. case x of (l', Inl _) \<Rightarrow> (l', Inl UnhandledError) | (l', Inr v) \<Rightarrow> (l', Inr v)"
  let ?enters = "retry_enter (re_config r) (re_state r) (re_now r) \<noteq> None \<and> 0 < max_attempts (re_config r)"
  have run: "contract_submit c environ ce r l fn args label = (if ?enters then ?as_app (?once l fn args) else (l, Inl UnhandledError))"
    for l fn args
    by (cases "max_attempts (re_config r)"; cases "?once l fn args"; cases "snd (?once l fn args)")
      (auto simp: contract_submit_def submit_transaction_def with_retry_def fabric_retry_def in_time_def attempts_def
        split: option.splits)
  show thesis
  proof (cases ?enters)
    case False
    then show thesis using run [of ws fn args] assms refused by auto
  next
    case True
    then show thesis using run assms submit_result_failed [of c "[]"]
      by (auto simp: submit_once_contract contract_invoke_def
          split: if_splits sum.splits option.splits prod.splits intro: refused committed)
  qed
qed

lemma bind_args_first:
  "bind_args pf ''TokenizeAsset'' (i # args) = Some t \<Longrightarrow> \<exists>isin ty nm lei v cur d j. t = Tokenize i isin ty nm lei v cur d j"
  "bind_args pf ''TransferAsset'' (i # args) = Some t \<Longrightarrow> \<exists>owner j p. t = Transfer i owner j p"
  "bind_args pf ''FreezeAsset'' (i # args) = Some t \<Longrightarrow> \<exists>r ref. t = Freeze i r ref"
  "bind_args pf ''UnfreezeAsset'' (i # args) = Some t \<Longrightarrow> \<exists>j. t = Unfreeze i j"
  by (auto simp: bind_args_def split: list.splits)

lemma contract_committed_status:
  assumes "ledger_inv ws"
  shows "TokenizeAsset ctx ws i isin ty nm lei v cur d j = Inr (ws', ev) \<Longrightarrow>
      contract_status ws i = None \<and> contract_status ws' = (contract_status ws)(i \<mapsto> StatusActif)"
    and "TransferAsset ctx ws i owner j p = Inr (ws', ev) \<Longrightarrow>
      contract_status ws i = Some StatusActif \<and> contract_status ws' = contract_status ws"
    and "FreezeAsset ctx ws i reason ref = Inr (ws', ev) \<Longrightarrow>
      contract_status ws i = Some StatusActif \<and> contract_status ws' = (contract_status ws)(i \<mapsto> StatusGele)"
    and "UnfreezeAsset ctx ws i j = Inr (ws', ev) \<Longrightarrow>
      contract_status ws i = Some StatusGele \<and> contract_status ws' = (contract_status ws)(i \<mapsto> StatusActif)"
proof -
  have status: "fa_Status a \<in> {StatusActif, StatusGele}" if "ws i = Some a" for a
    using assms that by (fastforce simp: ledger_inv_def asset_inv_def)
  show "TokenizeAsset ctx ws i isin ty nm lei v cur d j = Inr (ws', ev) \<Longrightarrow>
      contract_status ws i = None \<and> contract_status ws' = (contract_status ws)(i \<mapsto> StatusActif)"
    by (erule TokenizeAsset_Inr) (auto simp: contract_status_def fun_eq_iff)
  show "TransferAsset ctx ws i owner j p = Inr (ws', ev) \<Longrightarrow>
      contract_status ws i = Some StatusActif \<and> contract_status ws' = contract_status ws"
    by (erule TransferAsset_Inr) (auto simp: contract_status_def fun_eq_iff)
  show "FreezeAsset ctx ws i reason ref = Inr (ws', ev) \<Longrightarrow>
      contract_status ws i = Some StatusActif \<and> contract_status ws' = (contract_status ws)(i \<mapsto> StatusGele)"
    by (erule FreezeAsset_Inr [OF _ status]) (auto simp: contract_status_def fun_eq_iff)
  show "UnfreezeAsset ctx ws i j = Inr (ws', ev) \<Longrightarrow>
      contract_status ws i = Some StatusGele \<and> contract_status ws' = (contract_status ws)(i \<mapsto> StatusActif)"
    by (erule UnfreezeAsset_Inr) (auto simp: contract_status_def fun_eq_iff)
qed

text \<open>The regulator that froze an asset can unfreeze it at once.\<close>

lemma freeze_then_unfreeze:
  assumes "FreezeAsset ctx ws i reason ref = Inr (ws', ev)" and "ctx_msp ctx' = ctx_msp ctx"
    and "ctx_dn ctx' = ctx_dn ctx" and "ctx_timestamp ctx' = ctx_timestamp ctx"
    and "\<And>a. ws i = Some a \<Longrightarrow> fa_Status a \<in> {StatusActif, StatusGele}"
  shows "\<exists>ws''. UnfreezeAsset ctx' ws' i j = Inr (ws'', ''AssetUnfrozen'')"
proof -
  have same: "getClientMSP ctx' = getClientMSP ctx" "getClientDN ctx' = getClientDN ctx"
    "getTxTimestamp ctx' = getTxTimestamp ctx"
    using assms(2-4) by (simp_all add: getClientMSP_def getClientDN_def getTxTimestamp_def)
  then have ctx: "getClientMSP ctx' = getClientMSP ctx" "actor ctx' = actor ctx"
    unfolding actor_def by (simp_all only:)
  obtain msp dn t where who: "getClientMSP ctx = Inr msp" "EqualFold msp ''REG01MSP''" "actor ctx = Inr (msp, dn, t)"
    using assms(1) by (auto simp: FreezeAsset_def verifyRole_Inr actor_Inr authorisedMSPs_def split: sum.splits if_splits)
  obtain b where b: "ws' i = Some b" "marshals b" "fa_Status b = StatusGele"
    by (rule FreezeAsset_Inr [OF assms(1,5)]) auto
  have "verifyRole ctx' ''UnfreezeAsset'' = Inr ()"
    using ctx who by (simp add: verifyRole_def authorisedMSPs_def)
  then show ?thesis using ctx who b
    by (auto simp: UnfreezeAsset_def getAsset_def RequireFrozenAsset_def commit_asset_def wrap_def marshals_def)
qed

lemma saga_ref_refused: "\<not> rx_match regulatoryRefPattern saga_ref"
  by code_simp

lemma saga_reason_allowed: "\<not> forbidden saga_reason"
  by code_simp

interpretation gw: gateway "contract_submit c environ ce r" contract_status ledger_inv for c environ ce r
proof
  fix l :: world_state and fn args label l' v e i
  show "ledger_inv (fst (contract_submit c environ ce r l fn args label))" if "ledger_inv l"
    by (rule contract_submit_cases [of c environ ce r l fn args label, OF surjective_pairing])
      (use that execute_sound in \<open>auto\<close>)
  show "l' = l" if "contract_submit c environ ce r l fn args label = (l', Inl e)"
    using that by (rule contract_submit_cases) auto
  show "\<exists>t. v = PDict [(''txID'', PStr t)]" if "contract_submit c environ ce r l fn args label = (l', Inr v)"
    using that by (rule contract_submit_cases) auto
  assume inv: "ledger_inv l"
  show "contract_status l i = None \<and> contract_status l' = (contract_status l)(i \<mapsto> StatusActif)"
    if "contract_submit c environ ce r l ''TokenizeAsset'' (i # args) label = (l', Inr v)"
    using that by (rule contract_submit_cases) (auto dest!: bind_args_first contract_committed_status [OF inv])
  show "contract_status l i = Some StatusActif \<and> contract_status l' = contract_status l"
    if "contract_submit c environ ce r l ''TransferAsset'' (i # args) label = (l', Inr v)"
    using that by (rule contract_submit_cases) (auto dest!: bind_args_first contract_committed_status [OF inv])
  show "contract_status l i = Some StatusActif \<and> contract_status l' = (contract_status l)(i \<mapsto> StatusGele)"
    if "contract_submit c environ ce r l ''FreezeAsset'' (i # args) label = (l', Inr v)"
    using that by (rule contract_submit_cases) (auto dest!: bind_args_first contract_committed_status [OF inv])
  show "contract_status l i = Some StatusGele \<and> contract_status l' = (contract_status l)(i \<mapsto> StatusActif)"
    if "contract_submit c environ ce r l ''UnfreezeAsset'' (i # args) label = (l', Inr v)"
    using that by (rule contract_submit_cases) (auto dest!: bind_args_first contract_committed_status [OF inv])
next
  fix l :: world_state and i args label l' v
  assume inv: "ledger_inv l" and frz: "contract_submit c environ ce r l ''FreezeAsset'' (i # args) label = (l', Inr v)"
  have status: "fa_Status a \<in> {StatusActif, StatusGele}" if "l i = Some a" for a
    using inv that by (fastforce simp: ledger_inv_def asset_inv_def)
  from frz show "\<exists>l'' v'. contract_submit c environ ce r l' ''UnfreezeAsset'' [i, saga_reason] label = (l'', Inr v')"
  proof (rule contract_submit_cases)
    fix t ctx ev env
    assume t: "bind_args (ce_parse_float ce) ''FreezeAsset'' (i # args) = Some t" and run: "execute ctx l t = Inr (l', ev)"
      and args: "sanitize_arguments (i # args)" and env: "get_env_for_identity c environ label = Inr env"
      and ctx: "ctx = contract_ctx ce l env"
      and submit: "\<And>l fn args. contract_submit c environ ce r l fn args label =
         (case submit_once c environ (contract_peer ce) l fn args label of
            (l', Inl _) \<Rightarrow> (l', Inl UnhandledError) | (l', Inr v) \<Rightarrow> (l', Inr v))"
    obtain reason ref where "FreezeAsset ctx l i reason ref = Inr (l', ev)"
      using bind_args_first(3) [OF t] run by auto
    then obtain ws'' where "UnfreezeAsset (contract_ctx ce l' env) l' i saga_reason = Inr (ws'', ''AssetUnfrozen'')"
      using freeze_then_unfreeze [of ctx l i reason ref l' ev "contract_ctx ce l' env" saga_reason] status
      by (auto simp: ctx contract_ctx_def)
    then show ?thesis using submit [of l' "''UnfreezeAsset''" "[i, saga_reason]"] args env saga_reason_allowed
      by (simp add: submit_once_contract contract_invoke_def bind_args_def sanitize_arguments_def)
  qed auto
next
  fix l :: world_state and i label
  show "\<exists>e. contract_submit c environ ce r l ''FreezeAsset'' [i, saga_reason, saga_ref] label = (l, Inl e)"
    by (rule contract_submit_cases [of c environ ce r l "''FreezeAsset''" "[i, saga_reason, saga_ref]" label, OF surjective_pairing])
      (auto simp: prod_eq_iff bind_args_def FreezeAsset_def ValidateRegulatoryRef_def saga_ref_refused wrap_def
        split: sum.splits)
qed

subsection \<open>What the contract answers to reads\<close>

text \<open>
  The JSON objects of the two structs (the tags of models.go), decoded: a number without fraction is an \<open>int\<close>; a
  timestamp is written with its fraction when it has one.
\<close>

definition json_number :: "xfloat \<Rightarrow> pyval" where
  "json_number x =
     (case x of Fin y \<Rightarrow> if of_int \<lfloor>y\<rfloor> = y \<and> \<bar>y\<bar> < 10 ^ 21 then PInt \<lfloor>y\<rfloor> else PFloat x | _ \<Rightarrow> PFloat x)"

definition json_time :: "datetime \<Rightarrow> string" where
  "json_time t =
     take 19 (isoformat t) @
     (if dt_micro t = 0 then [] else ''.'' @ rev (dropWhile (\<lambda>c. c = CHR ''0'') (rev (dec_pad 6 (dt_micro t))))) @ ''Z''"

definition provenance_json :: "provenance_record \<Rightarrow> pyval" where
  "provenance_json r = PDict
     [(''txID'', PStr (pr_TxID r)), (''timestamp'', PStr (json_time (pr_Timestamp r))),
      (''actorMSP'', PStr (pr_ActorMSP r)), (''actorDN'', PStr (pr_ActorDN r)), (''action'', PStr (pr_Action r)),
      (''fromOwner'', PStr (pr_FromOwner r)), (''toOwner'', PStr (pr_ToOwner r)), (''amount'', json_number (pr_Amount r)),
      (''justification'', PStr (pr_Justification r))]"

definition asset_json :: "financial_asset \<Rightarrow> pyval" where
  "asset_json a = PDict
     [(''assetID'', PStr (fa_AssetID a)), (''isin'', PStr (fa_ISIN a)), (''assetType'', PStr (fa_AssetType a)),
      (''assetName'', PStr (fa_AssetName a)), (''issuerMSP'', PStr (fa_IssuerMSP a)), (''issuerLEI'', PStr (fa_IssuerLEI a)),
      (''currentOwner'', PStr (fa_CurrentOwner a)), (''nominalValue'', json_number (fa_NominalValue a)),
      (''currentValue'', json_number (fa_CurrentValue a)), (''currency'', PStr (fa_Currency a)),
      (''status'', PStr (fa_Status a)), (''issuanceDate'', PStr (fa_IssuanceDate a)),
      (''maturityDate'', PStr (fa_MaturityDate a)), (''couponRate'', json_number (fa_CouponRate a)),
      (''ratingMoodys'', PStr (fa_RatingMoodys a)), (''frozenBy'', PStr (fa_FrozenBy a)),
      (''frozenAt'', PStr (fa_FrozenAt a)), (''frozenReason'', PStr (fa_FrozenReason a)),
      (''regulatoryRef'', PStr (fa_RegulatoryRef a)), (''totalTransfers'', PInt (fa_TotalTransfers a)),
      (''provenance'', PList (map provenance_json (fa_Provenance a)))]"

end
