(* ===== verification/Assets.thy ===== *)
theory Assets
  imports Gateway Compliance "HOL-Library.Product_Lexorder"
begin

text \<open>
  The asset service (core/features/assets): the tables of assets, transactions and valuations, the request
  schemas, the four operations that write to the ledger and then to the database with their compensating
  transactions, the valuation service, the endpoints and the synchronisation task.

  A \<open>Decimal\<close> is its text and its value. A \<open>commit()\<close> succeeds when the database is reachable and the rows meet
  the constraints of the tables; otherwise it raises and the rollback restores the committed rows. Publication
  on Redis and the Neo4j copy swallow their own errors and are left out.
\<close>

subsection \<open>Tables (models.py)\<close>

record decimal =
  dec_text :: string
  dec_value :: rat

record asset =
  as_uuid :: uuid
  as_asset_id :: string
  as_isin :: "string option"
  as_asset_type :: string
  as_asset_name :: string
  as_issuer_org_id :: uuid
  as_current_owner_id :: "uuid option"
  as_nominal_value :: rat
  as_current_value :: rat
  as_currency :: string
  as_status :: string
  as_issuance_date :: string
  as_fabric_tx_id :: "string option"
  as_fabric_block_number :: "int option"
  as_updated_at :: datetime

record transaction =
  tx_ref :: string
  tx_fabric_tx_id :: "string option"
  tx_fabric_block_number :: "int option"
  tx_type :: string
  tx_asset_id :: uuid
  tx_initiator_id :: "uuid option"
  tx_from_owner_id :: "uuid option"
  tx_to_owner_id :: "uuid option"
  tx_amount :: rat
  tx_settlement_date :: datetime
  tx_regulatory_flag :: bool
  tx_justification :: string

record asset_valuation =
  av_asset_id :: uuid
  av_valuation_date :: string
  av_nav :: rat
  av_yield_to_maturity :: "rat option"
  av_duration :: "rat option"
  av_convexity :: "rat option"
  av_credit_spread_bps :: "rat option"
  av_pricing_source :: "string option"
  av_created_at :: datetime

record asset_db =
  ad_compliance :: compliance_db
  ad_assets :: "asset list"
  ad_transactions :: "transaction list"
  ad_valuations :: "asset_valuation list"

definition asset_types :: "string list" where
  "asset_types = [''OBLIGATION'', ''OPCVM'', ''IMMOBILIER'', ''DERIVE'', ''MATIERE_PREMIERE'', ''PRIVATE_EQUITY'',
     ''INFRASTRUCTURE'']"

text \<open>
  \<open>NUMERIC(p, s)\<close>: rounded to \<open>s\<close> places, halves away from zero; \<open>None\<close>: numeric field overflow.
\<close>

definition pg_numeric :: "nat \<Rightarrow> nat \<Rightarrow> rat \<Rightarrow> rat option" where
  "pg_numeric p s x =
     (let n = floor (\<bar>x\<bar> * 10 ^ s + 1 / 2) in
      if n < 10 ^ p then Some ((if x < 0 then - 1 else 1) * of_int n / 10 ^ s) else None)"

definition stored :: "nat \<Rightarrow> nat \<Rightarrow> rat \<Rightarrow> rat" where
  "stored p s x = (case pg_numeric p s x of Some y \<Rightarrow> y | None \<Rightarrow> x)"

text \<open>The constraints the rows are checked against when they are written.\<close>

definition users_of :: "asset_db \<Rightarrow> uuid set" where
  "users_of db = user_id ` set (cdb_users (ad_compliance db))"

definition optional_in :: "'a option \<Rightarrow> 'a set \<Rightarrow> bool" where
  "optional_in x S \<longleftrightarrow> (case x of None \<Rightarrow> True | Some y \<Rightarrow> y \<in> S)"

definition asset_fits :: "asset_db \<Rightarrow> asset \<Rightarrow> bool" where
  "asset_fits db a \<longleftrightarrow>
     optional_in (as_current_owner_id a) (users_of db) \<and>
     length (as_asset_name a) \<le> 200 \<and> length (as_currency a) \<le> 3 \<and>
     optional_in (map_option length (as_fabric_tx_id a)) {..128} \<and>
     as_asset_type a \<in> set asset_types \<and>
     pg_numeric 20 4 (as_nominal_value a) \<noteq> None \<and> pg_numeric 20 4 (as_current_value a) \<noteq> None"

definition transaction_fits :: "asset_db \<Rightarrow> transaction \<Rightarrow> bool" where
  "transaction_fits db t \<longleftrightarrow>
     tx_initiator_id t \<noteq> None \<and> optional_in (tx_initiator_id t) (users_of db) \<and>
     optional_in (tx_from_owner_id t) (users_of db) \<and> optional_in (tx_to_owner_id t) (users_of db) \<and>
     tx_ref t \<notin> tx_ref ` set (ad_transactions db) \<and>
     (tx_fabric_tx_id t = None \<or> tx_fabric_tx_id t \<notin> tx_fabric_tx_id ` set (ad_transactions db)) \<and>
     pg_numeric 20 4 (tx_amount t) \<noteq> None"

subsection \<open>Requests (schemas.py)\<close>

definition ASSET_NAME_MAX :: nat where "ASSET_NAME_MAX = 200"
definition JUSTIFICATION_MAX :: nat where "JUSTIFICATION_MAX = 500"
definition REGULATORY_REF_MAX :: nat where "REGULATORY_REF_MAX = 100"

record tokenize_request =
  tq_asset_id :: string
  tq_isin :: string
  tq_asset_type :: string
  tq_asset_name :: string
  tq_issuer_lei :: string
  tq_nominal_value :: decimal
  tq_currency :: string
  tq_issuance_date :: string
  tq_justification :: string

record transfer_request =
  rq_asset_id :: string
  rq_to_owner :: string
  rq_price :: decimal
  rq_justification :: string

record freeze_request =
  fq_asset_id :: string
  fq_reason :: string
  fq_regulatory_ref :: string

record unfreeze_request =
  uq_asset_id :: string
  uq_justification :: string

definition api_asset_id_pattern :: "rx_item list" where
  "api_asset_id_pattern = rx_lit ''RWA-'' @
     [(is_upper, 2, Some 12), rx_char CHR ''-'', (is_upper_digit, 2, Some 8), rx_char CHR ''-'',
      (is_digit, 4, Some 4), rx_char CHR ''-'', (is_digit, 3, Some 3)]"

definition api_regulatory_ref_pattern :: "rx_item list" where
  "api_regulatory_ref_pattern =
     [(is_upper_digit, 2, Some 8), rx_char CHR ''-'', (is_upper, 2, Some 4), rx_char CHR ''-'',
      (is_digit, 4, Some 4), rx_char CHR ''-'', (is_digit, 3, None)]"

definition len_between :: "nat \<Rightarrow> nat \<Rightarrow> string \<Rightarrow> bool" where
  "len_between a b s \<longleftrightarrow> a \<le> length s \<and> length s \<le> b"

definition valid_tokenize :: "tokenize_request \<Rightarrow> bool" where
  "valid_tokenize q \<longleftrightarrow>
     rx_match api_asset_id_pattern (tq_asset_id q) \<and>
     len_between 12 12 (tq_isin q) \<and> rx_match [(is_upper, 2, Some 2), (is_upper_digit, 10, Some 10)] (tq_isin q) \<and>
     tq_asset_type q \<in> set asset_types \<and>
     len_between 3 ASSET_NAME_MAX (tq_asset_name q) \<and>
     len_between 20 20 (tq_issuer_lei q) \<and> rx_match [(is_upper_digit, 20, Some 20)] (tq_issuer_lei q) \<and>
     0 < dec_value (tq_nominal_value q) \<and>
     len_between 3 3 (tq_currency q) \<and> rx_match [(is_upper, 3, Some 3)] (tq_currency q) \<and>
     len_between 10 JUSTIFICATION_MAX (tq_justification q)"

definition valid_transfer :: "transfer_request \<Rightarrow> bool" where
  "valid_transfer q \<longleftrightarrow>
     len_between 5 100 (rq_asset_id q) \<and> len_between 10 200 (rq_to_owner q) \<and> 0 < dec_value (rq_price q) \<and>
     len_between 10 JUSTIFICATION_MAX (rq_justification q)"

definition valid_freeze :: "freeze_request \<Rightarrow> bool" where
  "valid_freeze q \<longleftrightarrow>
     len_between 5 100 (fq_asset_id q) \<and> len_between 10 JUSTIFICATION_MAX (fq_reason q) \<and>
     length (fq_regulatory_ref q) \<le> REGULATORY_REF_MAX \<and>
     rx_match api_regulatory_ref_pattern (fq_regulatory_ref q)"

definition valid_unfreeze :: "unfreeze_request \<Rightarrow> bool" where
  "valid_unfreeze q \<longleftrightarrow> len_between 5 100 (uq_asset_id q) \<and> len_between 10 JUSTIFICATION_MAX (uq_justification q)"

subsection \<open>The answer of the ledger\<close>

text \<open>Truth of a decoded value, and \<open>int(v)\<close> (\<open>None\<close>: \<open>ValueError\<close> or \<open>TypeError\<close>).\<close>

fun truthy_val :: "pyval \<Rightarrow> bool" where
  "truthy_val PNone = False"
| "truthy_val (PBool b) = b"
| "truthy_val (PInt i) = (i \<noteq> 0)"
| "truthy_val (PFloat x) = (x \<noteq> Fin 0)"
| "truthy_val (PStr s) = (s \<noteq> [])"
| "truthy_val (PList vs) = (vs \<noteq> [])"
| "truthy_val (PDict kvs) = (kvs \<noteq> [])"

fun underscored :: "bool \<Rightarrow> string \<Rightarrow> string option" where
  "underscored after [] = (if after then Some [] else None)"
| "underscored after (c # s) =
     (if is_digit c then map_option ((#) c) (underscored True s)
      else if c = CHR ''_'' \<and> after \<and> s \<noteq> [] then underscored False s
      else None)"

definition int10 :: "string \<Rightarrow> int option" where
  "int10 s =
     (let t = strip s;
          neg = starts_with t ''-'';
          u = (if neg \<or> starts_with t ''+'' then tl t else t)
      in (case underscored False u of
            None \<Rightarrow> None
          | Some ds \<Rightarrow> if length ds \<le> 4300 then Some (sgn_of neg * digits_val ds) else None))"

fun py_int :: "pyval \<Rightarrow> int option" where
  "py_int (PInt i) = Some i"
| "py_int (PBool b) = Some (if b then 1 else 0)"
| "py_int (PFloat (Fin x)) = Some (if x < 0 then \<lceil>x\<rceil> else \<lfloor>x\<rfloor>)"
| "py_int (PStr s) = int10 s"
| "py_int _ = None"

text \<open>
  \<open>isinstance(payload, dict)\<close>, \<open>str(payload.get("txID", ""))\<close> and the block number; \<open>None\<close>: the service raises.
\<close>

definition ledger_ids :: "(pyval \<Rightarrow> string) \<Rightarrow> pyval \<Rightarrow> (string \<times> int option) option" where
  "ledger_ids rep v =
     (case v of
        PDict d \<Rightarrow>
          let txid = str_of rep (dict_get d ''txID'' (PStr [])); raw = dict_get d ''blockNumber'' PNone in
          if truthy_val raw then map_option (\<lambda>n. (txid, Some n)) (py_int raw) else Some (txid, None)
      | _ \<Rightarrow> None)"

subsection \<open>Operations (service.py)\<close>

text \<open>What an operation reads from outside its arguments.\<close>

record asset_env =
  ae_compliance :: compliance_env
  ae_db_up :: bool
  ae_now :: datetime
  ae_today :: string
  ae_uuid :: uuid
  ae_tx_uuid :: uuid
  ae_rep :: "pyval \<Rightarrow> string"
  ae_reason_text :: "reason option \<Rightarrow> string"

definition by_asset_id :: "asset_db \<Rightarrow> string \<Rightarrow> asset one" where
  "by_asset_id db i = scalar_one_or_none (filter (\<lambda>a. as_asset_id a = i) (ad_assets db))"

definition first_row :: "'a list \<Rightarrow> 'a option" where
  "first_row xs = (case xs of [] \<Rightarrow> None | x # _ \<Rightarrow> Some x)"

text \<open>The row as the database keeps it.\<close>

definition stored_asset :: "asset_env \<Rightarrow> asset \<Rightarrow> asset" where
  "stored_asset env a =
     a\<lparr>as_nominal_value := stored 20 4 (as_nominal_value a), as_current_value := stored 20 4 (as_current_value a),
       as_updated_at := ae_now env\<rparr>"

definition stored_transaction :: "transaction \<Rightarrow> transaction" where
  "stored_transaction t = t\<lparr>tx_amount := stored 20 4 (tx_amount t)\<rparr>"

text \<open>The commit of one updated asset and one new transaction; \<open>None\<close>: it raised and was rolled back.\<close>

definition commit_update :: "asset_env \<Rightarrow> asset_db \<Rightarrow> asset \<Rightarrow> transaction \<Rightarrow> (asset_db \<times> asset) option" where
  "commit_update env db a t =
     (if ae_db_up env \<and> asset_fits db a \<and> transaction_fits db t
      then Some (db\<lparr>ad_assets := update_where (\<lambda>x. as_asset_id x = as_asset_id a) (\<lambda>_. stored_asset env a) (ad_assets db),
                    ad_transactions := ad_transactions db @ [stored_transaction t]\<rparr>, stored_asset env a)
      else None)"

definition tokenize ::
    "'l submit \<Rightarrow> asset_env \<Rightarrow> 'l \<Rightarrow> asset_db \<Rightarrow> tokenize_request \<Rightarrow> string \<Rightarrow> 'l \<times> asset_db \<times> (app_error + asset)" where
  "tokenize submit env l db q label =
     (case submit l ''TokenizeAsset''
             [tq_asset_id q, tq_isin q, tq_asset_type q, tq_asset_name q, tq_issuer_lei q, dec_text (tq_nominal_value q),
              tq_currency q, tq_issuance_date q, tq_justification q] label of
        (l', Inl e) \<Rightarrow> (l', db, Inl e)
      | (l', Inr v) \<Rightarrow>
          (case ledger_ids (ae_rep env) v of
             None \<Rightarrow> (l', db, Inl UnhandledError)
           | Some (txid, block) \<Rightarrow>
               (case scalar_one_or_none (filter (\<lambda>g. org_lei g = Some (tq_issuer_lei q)) (cdb_orgs (ad_compliance db))) of
                  OneRow org \<Rightarrow>
                    let owner = (case first_row (filter (\<lambda>u. user_org_id u = org_id org) (cdb_users (ad_compliance db))) of
                                   Some u \<Rightarrow> user_id u | None \<Rightarrow> org_id org);
                        a = \<lparr>as_uuid = ae_uuid env, as_asset_id = tq_asset_id q, as_isin = Some (tq_isin q),
                             as_asset_type = tq_asset_type q, as_asset_name = tq_asset_name q,
                             as_issuer_org_id = org_id org, as_current_owner_id = Some owner,
                             as_nominal_value = dec_value (tq_nominal_value q),
                             as_current_value = dec_value (tq_nominal_value q), as_currency = tq_currency q,
                             as_status = ''ACTIF'', as_issuance_date = tq_issuance_date q,
                             as_fabric_tx_id = Some txid, as_fabric_block_number = block, as_updated_at = ae_now env\<rparr>
                    in if ae_db_up env \<and> asset_fits db a \<and> as_asset_id a \<notin> as_asset_id ` set (ad_assets db)
                       then (l', db\<lparr>ad_assets := ad_assets db @ [stored_asset env a]\<rparr>, Inr (stored_asset env a))
                       else (l', db, Inl UnhandledError)
                | _ \<Rightarrow> (l', db, Inl UnhandledError))))"

text \<open>The name screened for the recipient: first and last name, or the address when both are missing.\<close>

definition screening_name :: "user \<Rightarrow> string" where
  "screening_name u =
     (let part = (\<lambda>x. case x of None \<Rightarrow> [] | Some s \<Rightarrow> s);
          full = strip (part (user_first_name u) @ '' '' @ part (user_last_name u))
      in if full \<noteq> [] then full else user_email u)"

definition transfer_rows ::
    "asset_env \<Rightarrow> asset \<Rightarrow> user \<Rightarrow> user option \<Rightarrow> transfer_request \<Rightarrow> string \<times> int option \<Rightarrow> asset \<times> transaction" where
  "transfer_rows env a to_owner cu q ids =
     (a\<lparr>as_current_owner_id := Some (user_id to_owner), as_current_value := dec_value (rq_price q),
        as_fabric_tx_id := Some (fst ids), as_fabric_block_number := snd ids\<rparr>,
      \<lparr>tx_ref = ''TX-'' @ uuid_str (ae_tx_uuid env), tx_fabric_tx_id = Some (fst ids), tx_fabric_block_number = snd ids,
       tx_type = ''TRANSFERT'', tx_asset_id = as_uuid a,
       tx_initiator_id = (case cu of Some u \<Rightarrow> Some (user_id u) | None \<Rightarrow> as_current_owner_id a),
       tx_from_owner_id = as_current_owner_id a, tx_to_owner_id = Some (user_id to_owner),
       tx_amount = dec_value (rq_price q), tx_settlement_date = as_updated_at a, tx_regulatory_flag = False,
       tx_justification = rq_justification q\<rparr>)"

definition transfer ::
    "'l submit \<Rightarrow> asset_env \<Rightarrow> 'l \<Rightarrow> asset_db \<Rightarrow> transfer_request \<Rightarrow> string \<Rightarrow> user option \<Rightarrow>
     'l \<times> asset_db \<times> (app_error + asset)" where
  "transfer submit env l db q label cu =
     (case by_asset_id db (rq_asset_id q) of
        NoRow \<Rightarrow> (l, db, Inl (AssetNotFoundException (rq_asset_id q)))
      | ManyRows \<Rightarrow> (l, db, Inl UnhandledError)
      | OneRow a \<Rightarrow>
          if as_status a = ''GELE'' then (l, db, Inl (AssetFrozenError (as_asset_id a) ''REG01-INV-2026-001''))
          else (case first_row (filter (\<lambda>u. user_email u = rq_to_owner q) (cdb_users (ad_compliance db))) of
                  None \<Rightarrow> (l, db, Inl UnhandledError)
                | Some to_owner \<Rightarrow>
                    (case full_check_wrapper (ae_compliance env) (ad_compliance db) (user_id to_owner)
                            (xround (dec_value (rq_price q))) (rq_asset_id q) (as_asset_type a) (screening_name to_owner) of
                       (cdb, Inl _) \<Rightarrow> (l, db\<lparr>ad_compliance := cdb\<rparr>, Inl UnhandledError)
                     | (cdb, Inr (True, why, who)) \<Rightarrow>
                         (l, db\<lparr>ad_compliance := cdb\<rparr>, Inl (ComplianceBlockedError (ae_reason_text env why) who))
                     | (cdb, Inr (False, _, _)) \<Rightarrow>
                         let db1 = db\<lparr>ad_compliance := cdb\<rparr> in
                         (case submit l ''TransferAsset''
                                 [rq_asset_id q, rq_to_owner q, dec_text (rq_price q), rq_justification q] label of
                            (l', Inl e) \<Rightarrow> (l', db1, Inl e)
                          | (l', Inr v) \<Rightarrow>
                              (case ledger_ids (ae_rep env) v of
                                 None \<Rightarrow> (l', db1, Inl UnhandledError)
                               | Some ids \<Rightarrow>
                                   (case transfer_rows env a to_owner cu q ids of
                                      (a', t) \<Rightarrow>
                                        (case commit_update env db1 a' t of
                                           Some (db2, row) \<Rightarrow> (l', db2, Inr row)
                                         | None \<Rightarrow>
                                             (case cu of
                                                Some u \<Rightarrow>
                                                  if user_email u \<noteq> []
                                                  then (fst (submit l' ''TransferAsset''
                                                           [rq_asset_id q, user_email u, dec_text (rq_price q), saga_reason] label),
                                                        db1, Inl UnhandledError)
                                                  else (l', db1, Inl UnhandledError)
                                              | None \<Rightarrow> (l', db1, Inl UnhandledError)))))))))"

text \<open>Freeze and unfreeze share everything but the function names, the status and the compensation.\<close>

definition regulatory_rows ::
    "asset_env \<Rightarrow> asset \<Rightarrow> user option \<Rightarrow> string \<Rightarrow> string \<Rightarrow> string \<Rightarrow> string \<times> int option \<Rightarrow> asset \<times> transaction" where
  "regulatory_rows env a cu status kind why ids =
     (a\<lparr>as_status := status, as_fabric_tx_id := Some (fst ids), as_fabric_block_number := snd ids\<rparr>,
      \<lparr>tx_ref = ''TX-'' @ uuid_str (ae_tx_uuid env), tx_fabric_tx_id = Some (fst ids), tx_fabric_block_number = snd ids,
       tx_type = kind, tx_asset_id = as_uuid a,
       tx_initiator_id = (case cu of Some u \<Rightarrow> Some (user_id u) | None \<Rightarrow> as_current_owner_id a),
       tx_from_owner_id = None, tx_to_owner_id = None, tx_amount = as_nominal_value a,
       tx_settlement_date = as_updated_at a, tx_regulatory_flag = True, tx_justification = why\<rparr>)"

definition freeze ::
    "'l submit \<Rightarrow> asset_env \<Rightarrow> 'l \<Rightarrow> asset_db \<Rightarrow> freeze_request \<Rightarrow> string \<Rightarrow> user option \<Rightarrow>
     'l \<times> asset_db \<times> (app_error + asset)" where
  "freeze submit env l db q label cu =
     (case submit l ''FreezeAsset'' [fq_asset_id q, fq_reason q, fq_regulatory_ref q] label of
        (l', Inl e) \<Rightarrow> (l', db, Inl e)
      | (l', Inr v) \<Rightarrow>
          (case ledger_ids (ae_rep env) v of
             None \<Rightarrow> (l', db, Inl UnhandledError)
           | Some ids \<Rightarrow>
               (case by_asset_id db (fq_asset_id q) of
                  NoRow \<Rightarrow> (l', db, Inl (AssetNotFoundException (fq_asset_id q)))
                | ManyRows \<Rightarrow> (l', db, Inl UnhandledError)
                | OneRow a \<Rightarrow>
                    (case regulatory_rows env a cu ''GELE'' ''GEL'' (fq_reason q) ids of
                       (a', t) \<Rightarrow>
                         (case commit_update env db a' t of
                            Some (db', row) \<Rightarrow> (l', db', Inr row)
                          | None \<Rightarrow>
                              (fst (submit l' ''UnfreezeAsset'' [fq_asset_id q, saga_reason] label), db,
                               Inl UnhandledError))))))"

definition unfreeze_asset ::
    "'l submit \<Rightarrow> asset_env \<Rightarrow> 'l \<Rightarrow> asset_db \<Rightarrow> unfreeze_request \<Rightarrow> string \<Rightarrow> user option \<Rightarrow>
     'l \<times> asset_db \<times> (app_error + asset)" where
  "unfreeze_asset submit env l db q label cu =
     (case submit l ''UnfreezeAsset'' [uq_asset_id q, uq_justification q] label of
        (l', Inl e) \<Rightarrow> (l', db, Inl e)
      | (l', Inr v) \<Rightarrow>
          (case ledger_ids (ae_rep env) v of
             None \<Rightarrow> (l', db, Inl UnhandledError)
           | Some ids \<Rightarrow>
               (case by_asset_id db (uq_asset_id q) of
                  NoRow \<Rightarrow> (l', db, Inl (AssetNotFoundException (uq_asset_id q)))
                | ManyRows \<Rightarrow> (l', db, Inl UnhandledError)
                | OneRow a \<Rightarrow>
                    (case regulatory_rows env a cu ''ACTIF'' ''DEGEL'' (uq_justification q) ids of
                       (a', t) \<Rightarrow>
                         (case commit_update env db a' t of
                            Some (db', row) \<Rightarrow> (l', db', Inr row)
                          | None \<Rightarrow>
                              (fst (submit l' ''FreezeAsset'' [uq_asset_id q, saga_reason, saga_ref] label), db,
                               Inl UnhandledError))))))"

subsection \<open>Valuations (valuation\_service.py)\<close>

record valuate_request =
  vq_current_value :: rat
  vq_yield_to_maturity :: "rat option"
  vq_duration :: "rat option"
  vq_convexity :: "rat option"
  vq_credit_spread_bps :: "rat option"
  vq_pricing_source :: "string option"
  vq_valuation_date :: "string option"

definition valid_valuate :: "valuate_request \<Rightarrow> bool" where
  "valid_valuate q \<longleftrightarrow>
     0 < vq_current_value q \<and>
     (case vq_yield_to_maturity q of None \<Rightarrow> True | Some y \<Rightarrow> -1 \<le> y \<and> y \<le> 1) \<and>
     (case vq_duration q of None \<Rightarrow> True | Some d \<Rightarrow> 0 \<le> d) \<and>
     (case vq_credit_spread_bps q of None \<Rightarrow> True | Some d \<Rightarrow> 0 \<le> d) \<and>
     (case vq_pricing_source q of None \<Rightarrow> True | Some s \<Rightarrow> length s \<le> 100)"

definition numeric_fits :: "nat \<Rightarrow> nat \<Rightarrow> rat option \<Rightarrow> bool" where
  "numeric_fits p s x \<longleftrightarrow> (case x of None \<Rightarrow> True | Some y \<Rightarrow> pg_numeric p s y \<noteq> None)"

text \<open>The \<open>ValueError\<close> of an unknown asset, and the error of a failed commit.\<close>

datatype valuation_error = ValuationAssetUnknown | ValuationNotStored

definition record_valuation ::
    "asset_env \<Rightarrow> asset_db \<Rightarrow> string \<Rightarrow> valuate_request \<Rightarrow> asset_db \<times> (valuation_error + asset_valuation)" where
  "record_valuation env db i q =
     (case by_asset_id db i of
        NoRow \<Rightarrow> (db, Inl ValuationAssetUnknown)
      | ManyRows \<Rightarrow> (db, Inl ValuationNotStored)
      | OneRow a \<Rightarrow>
          let v = \<lparr>av_asset_id = as_uuid a,
                   av_valuation_date = (case vq_valuation_date q of Some d \<Rightarrow> d | None \<Rightarrow> ae_today env),
                   av_nav = stored 20 6 (vq_current_value q),
                   av_yield_to_maturity = map_option (stored 8 6) (vq_yield_to_maturity q),
                   av_duration = map_option (stored 8 4) (vq_duration q),
                   av_convexity = map_option (stored 10 6) (vq_convexity q),
                   av_credit_spread_bps = map_option (stored 8 2) (vq_credit_spread_bps q),
                   av_pricing_source = vq_pricing_source q, av_created_at = ae_now env\<rparr>;
              a' = a\<lparr>as_current_value := vq_current_value q\<rparr>
          in if ae_db_up env \<and> asset_fits db a' \<and> numeric_fits 20 6 (Some (vq_current_value q)) \<and>
                numeric_fits 8 6 (vq_yield_to_maturity q) \<and> numeric_fits 8 4 (vq_duration q) \<and>
                numeric_fits 10 6 (vq_convexity q) \<and> numeric_fits 8 2 (vq_credit_spread_bps q)
             then (db\<lparr>ad_assets := update_where (\<lambda>x. as_asset_id x = i) (\<lambda>_. stored_asset env a') (ad_assets db),
                      ad_valuations := ad_valuations db @ [v]\<rparr>, Inr v)
             else (db, Inl ValuationNotStored))"

text \<open>Newest first: by valuation date, then by creation; dates compare as their ISO texts.\<close>

definition get_history :: "asset_db \<Rightarrow> string \<Rightarrow> asset_valuation list" where
  "get_history db i =
     rev (sort_key (\<lambda>v. (av_valuation_date v, dt_key (av_created_at v)))
       (filter (\<lambda>v. \<exists>a \<in> set (ad_assets db). as_asset_id a = i \<and> as_uuid a = av_asset_id v) (ad_valuations db)))"

subsection \<open>Endpoints (router.py)\<close>

text \<open>A guarded write: the role, then the body, then the Fabric identity of the user.\<close>

definition guarded ::
    "string list \<Rightarrow> asset_db \<Rightarrow> string option \<Rightarrow> bool \<Rightarrow> 'l \<Rightarrow> (user \<Rightarrow> string \<Rightarrow> 'l \<times> asset_db \<times> (app_error + 'r)) \<Rightarrow>
     'l \<times> asset_db \<times> (app_error + 'r)" where
  "guarded roles db sub body_ok l run =
     (case require_role roles (cdb_users (ad_compliance db)) sub of
        Inl e \<Rightarrow> (l, db, Inl e)
      | Inr u \<Rightarrow>
          if \<not> body_ok then (l, db, Inl (HTTPException 422))
          else case resolve_identity u of Inl e \<Rightarrow> (l, db, Inl e) | Inr label \<Rightarrow> run u label)"

definition create_asset ::
    "'l submit \<Rightarrow> asset_env \<Rightarrow> 'l \<Rightarrow> asset_db \<Rightarrow> string option \<Rightarrow> tokenize_request \<Rightarrow> 'l \<times> asset_db \<times> (app_error + asset)" where
  "create_asset submit env l db sub q =
     guarded [''EMETTEUR'', ''SUPER_ADMIN''] db sub (valid_tokenize q) l (\<lambda>u label. tokenize submit env l db q label)"

definition transfer_asset ::
    "'l submit \<Rightarrow> asset_env \<Rightarrow> 'l \<Rightarrow> asset_db \<Rightarrow> string option \<Rightarrow> transfer_request \<Rightarrow> 'l \<times> asset_db \<times> (app_error + asset)" where
  "transfer_asset submit env l db sub q =
     guarded [''EMETTEUR'', ''TRADER'', ''CUSTODIAN''] db sub (valid_transfer q) l
       (\<lambda>u label. transfer submit env l db q label (Some u))"

definition freeze_asset ::
    "'l submit \<Rightarrow> asset_env \<Rightarrow> 'l \<Rightarrow> asset_db \<Rightarrow> string option \<Rightarrow> freeze_request \<Rightarrow> 'l \<times> asset_db \<times> (app_error + asset)" where
  "freeze_asset submit env l db sub q =
     guarded [''REGULATEUR'', ''SUPER_ADMIN''] db sub (valid_freeze q) l
       (\<lambda>u label. freeze submit env l db q label (Some u))"

definition unfreeze_asset_endpoint ::
    "'l submit \<Rightarrow> asset_env \<Rightarrow> 'l \<Rightarrow> asset_db \<Rightarrow> string option \<Rightarrow> unfreeze_request \<Rightarrow> 'l \<times> asset_db \<times> (app_error + asset)" where
  "unfreeze_asset_endpoint submit env l db sub q =
     guarded [''REGULATEUR'', ''SUPER_ADMIN''] db sub (valid_unfreeze q) l
       (\<lambda>u label. unfreeze_asset submit env l db q label (Some u))"

definition valuate_asset ::
    "asset_env \<Rightarrow> asset_db \<Rightarrow> string option \<Rightarrow> string \<Rightarrow> valuate_request \<Rightarrow> asset_db \<times> (app_error + asset_valuation)" where
  "valuate_asset env db sub i q =
     (case require_role [''COMPLIANCE_OFFICER'', ''SUPER_ADMIN'', ''EMETTEUR''] (cdb_users (ad_compliance db)) sub of
        Inl e \<Rightarrow> (db, Inl e)
      | Inr u \<Rightarrow>
          if \<not> valid_valuate q then (db, Inl (HTTPException 422))
          else (case record_valuation env db i q of
                  (db', Inl ValuationAssetUnknown) \<Rightarrow> (db', Inl (HTTPException 404))
                | (db', Inl ValuationNotStored) \<Rightarrow> (db', Inl UnhandledError)
                | (db', Inr v) \<Rightarrow> (db', Inr v)))"

definition list_asset_valuations ::
    "asset_db \<Rightarrow> string option \<Rightarrow> string \<Rightarrow> app_error + asset_valuation list" where
  "list_asset_valuations db sub i =
     (case get_current_user (cdb_users (ad_compliance db)) sub of
        Inl e \<Rightarrow> Inl e | Inr u \<Rightarrow> Inr (get_history db i))"

text \<open>
  The response models. A model accepts a value that is a dict with every required field whose fields are of the
  declared types (\<open>types_ok\<close>, the coercions of pydantic).
\<close>

definition asset_response_fields :: "string list" where
  "asset_response_fields =
     [''asset_id'', ''asset_type'', ''asset_name'', ''issuer_org_id'', ''current_owner_id'', ''nominal_value'',
      ''current_value'', ''currency'', ''status'', ''issuance_date'']"

definition provenance_fields :: "string list" where
  "provenance_fields = [''txID'', ''timestamp'', ''actorMSP'', ''actorDN'', ''action'']"

definition validates :: "(pyval \<Rightarrow> bool) \<Rightarrow> string list \<Rightarrow> pyval \<Rightarrow> bool" where
  "validates types_ok required v \<longleftrightarrow>
     (case v of PDict d \<Rightarrow> list_all (\<lambda>k. k \<in> fst ` set d) required \<and> types_ok v | _ \<Rightarrow> False)"

definition read_ledger ::
    "'l submit \<Rightarrow> 'l \<Rightarrow> asset_db \<Rightarrow> string option \<Rightarrow> string \<Rightarrow> string list \<Rightarrow> app_error + pyval" where
  "read_ledger evaluate l db sub fn args =
     (case get_current_user (cdb_users (ad_compliance db)) sub of
        Inl e \<Rightarrow> Inl e
      | Inr u \<Rightarrow> (case resolve_identity u of Inl e \<Rightarrow> Inl e | Inr label \<Rightarrow> snd (evaluate l fn args label)))"

definition read_asset ::
    "(pyval \<Rightarrow> bool) \<Rightarrow> 'l submit \<Rightarrow> 'l \<Rightarrow> asset_db \<Rightarrow> string option \<Rightarrow> string \<Rightarrow> app_error + pyval" where
  "read_asset types_ok evaluate l db sub i =
     (case read_ledger evaluate l db sub ''GetAsset'' [i] of
        Inl e \<Rightarrow> Inl e
      | Inr v \<Rightarrow> if validates types_ok asset_response_fields v then Inr v else Inl UnhandledError)"

definition read_asset_history ::
    "(pyval \<Rightarrow> bool) \<Rightarrow> 'l submit \<Rightarrow> 'l \<Rightarrow> asset_db \<Rightarrow> string option \<Rightarrow> string \<Rightarrow> app_error + pyval list" where
  "read_asset_history types_ok evaluate l db sub i =
     (case read_ledger evaluate l db sub ''GetProvenanceTrail'' [i] of
        Inl e \<Rightarrow> Inl e
      | Inr (PList vs) \<Rightarrow> if list_all (validates types_ok provenance_fields) vs then Inr vs else Inl UnhandledError
      | Inr _ \<Rightarrow> Inl UnhandledError)"

definition search_query :: "string option \<Rightarrow> string option \<Rightarrow> string option \<Rightarrow> int \<Rightarrow> int \<Rightarrow> json" where
  "search_query status kind owner limit offset =
     (let field = (\<lambda>k v. if truthy v then [(k, JStr (the v))] else []) in
      JObj [(''selector'', JObj (field ''status'' status @ field ''assetType'' kind @ field ''owner'' owner)),
            (''limit'', JInt limit), (''skip'', JInt offset)])"

definition search_assets ::
    "(pyval \<Rightarrow> bool) \<Rightarrow> 'l submit \<Rightarrow> 'l \<Rightarrow> asset_db \<Rightarrow> string option \<Rightarrow> string option \<Rightarrow> string option \<Rightarrow> string option \<Rightarrow>
     int \<Rightarrow> int \<Rightarrow> app_error + pyval list" where
  "search_assets types_ok evaluate l db sub status kind owner limit offset =
     (case get_current_user (cdb_users (ad_compliance db)) sub of
        Inl e \<Rightarrow> Inl e
      | Inr u \<Rightarrow>
          if limit < 1 \<or> 100 < limit \<or> offset < 0 then Inl (HTTPException 422)
          else (case read_ledger evaluate l db sub ''QueryAssets'' [dumps (search_query status kind owner limit offset)] of
                  Inl e \<Rightarrow> Inl e
                | Inr (PList vs) \<Rightarrow>
                    if list_all (validates types_ok asset_response_fields) vs then Inr vs else Inl UnhandledError
                | Inr _ \<Rightarrow> Inr []))"

subsection \<open>Synchronisation (tasks.py)\<close>

text \<open>\<open>float(v)\<close>; \<open>None\<close>: it raises.\<close>

definition digit_run :: "string \<Rightarrow> string option" where
  "digit_run s = (if s = [] then Some [] else underscored False s)"

definition float_text :: "string \<Rightarrow> xfloat option" where
  "float_text s =
     (let t = lower (strip s); neg = starts_with t ''-'';
          u = (if neg \<or> starts_with t ''+'' then tl t else t);
          (m, ex) = split_first CHR ''e'' u;
          (ip, fp) = split_first CHR ''.'' m
      in if u \<in> {''inf'', ''infinity''} then Some (if neg then NInf else PInf)
         else if u = ''nan'' then Some NaN
         else (case (digit_run ip, digit_run (case fp of None \<Rightarrow> [] | Some f \<Rightarrow> f),
                     case ex of None \<Rightarrow> Some 0 | Some e \<Rightarrow> if \<exists>c \<in> set e. is_space c then None else int10 e) of
                 (Some ds, Some fs, Some e) \<Rightarrow>
                   if ds = [] \<and> fs = [] then None
                   else Some (xround (scale10 (sgn_of neg * digits_val (ds @ fs)) (e - int (length fs))))
               | _ \<Rightarrow> None))"

fun py_float :: "pyval \<Rightarrow> xfloat option" where
  "py_float (PFloat x) = Some x"
| "py_float (PInt i) = (case xround (of_int i) of Fin x \<Rightarrow> Some (Fin x) | _ \<Rightarrow> None)"
| "py_float (PBool b) = Some (Fin (if b then 1 else 0))"
| "py_float (PStr s) = float_text s"
| "py_float _ = None"

fun xabs :: "xfloat \<Rightarrow> xfloat" where
  "xabs (Fin x) = Fin \<bar>x\<bar>"
| "xabs NaN = NaN"
| "xabs _ = PInf"

definition xsub :: "xfloat \<Rightarrow> xfloat \<Rightarrow> xfloat" where
  "xsub a b = xadd a (case b of Fin y \<Rightarrow> Fin (- y) | PInf \<Rightarrow> NInf | NInf \<Rightarrow> PInf | NaN \<Rightarrow> NaN)"

text \<open>The value the ledger reports: \<open>current_value\<close> if present, else \<open>nominal_value\<close>; \<open>Some None\<close>: neither.\<close>

definition ledger_value :: "(string \<times> pyval) list \<Rightarrow> xfloat option option" where
  "ledger_value d =
     (case map_of d ''nominal_value'' of
        None \<Rightarrow> (case map_of d ''current_value'' of None \<Rightarrow> Some None | Some c \<Rightarrow> map_option Some (py_float c))
      | Some n \<Rightarrow>
          (case py_float n of
             None \<Rightarrow> None
           | Some x \<Rightarrow> (case map_of d ''current_value'' of None \<Rightarrow> Some (Some x) | Some c \<Rightarrow> map_option Some (py_float c))))"

record sync_result =
  sy_asset_id :: string
  sy_synced :: bool
  sy_changes :: "string list"

text \<open>
  The columns to update, from the first row with the id. An owner is written in its canonical text; a status or an
  owner the column does not admit, or a value outside \<open>NUMERIC(20, 4)\<close>, raises.
\<close>

definition statuses :: "string list" where
  "statuses = [''ACTIF'', ''GELE'', ''EN_EMISSION'', ''REMBOURSE'']"

definition sync_value :: "xfloat option \<Rightarrow> asset \<Rightarrow> (asset \<times> string list) option" where
  "sync_value v a =
     (case v of
        None \<Rightarrow> Some (a, [])
      | Some x \<Rightarrow>
          if xgt (xabs (xsub (xround (as_current_value a)) x)) (rnd (1 / 1000))
          then (case x of
                  Fin y \<Rightarrow> map_option (\<lambda>z. (a\<lparr>as_current_value := z\<rparr>, [''current_value''])) (pg_numeric 20 4 y)
                | _ \<Rightarrow> None)
          else Some (a, []))"

definition sync_status :: "pyval \<Rightarrow> asset \<Rightarrow> (asset \<times> string list) option" where
  "sync_status v a =
     (if truthy_val v \<and> v \<noteq> PStr (as_status a)
      then (case v of PStr s \<Rightarrow> if s \<in> set statuses then Some (a\<lparr>as_status := s\<rparr>, [''status'']) else None | _ \<Rightarrow> None)
      else Some (a, []))"

definition sync_owner :: "asset_db \<Rightarrow> pyval \<Rightarrow> asset \<Rightarrow> (asset \<times> string list) option" where
  "sync_owner db v a =
     (if truthy_val v \<and> v \<noteq> PStr (case as_current_owner_id a of None \<Rightarrow> ''None'' | Some o' \<Rightarrow> uuid_str o')
      then (case first_row (filter (\<lambda>u. v = PStr (uuid_str (user_id u))) (cdb_users (ad_compliance db))) of
              Some u \<Rightarrow> Some (a\<lparr>as_current_owner_id := Some (user_id u)\<rparr>, [''current_owner_id''])
            | None \<Rightarrow> None)
      else Some (a, []))"

definition sync_row :: "asset_db \<Rightarrow> (string \<times> pyval) list \<Rightarrow> asset \<Rightarrow> (asset \<times> string list) option" where
  "sync_row db d a =
     (case ledger_value d of
        None \<Rightarrow> None
      | Some v \<Rightarrow>
          (case sync_value v a of
             None \<Rightarrow> None
           | Some (a1, c1) \<Rightarrow>
               (case sync_status (dict_get d ''status'' PNone) a1 of
                  None \<Rightarrow> None
                | Some (a2, c2) \<Rightarrow>
                    (case sync_owner db (dict_get d ''current_owner_id'' PNone) a2 of
                       None \<Rightarrow> None
                     | Some (a3, c3) \<Rightarrow> Some (a3, c1 @ c2 @ c3)))))"

definition sync_fabric_state :: "'l submit \<Rightarrow> 'l \<Rightarrow> asset_db \<Rightarrow> string \<Rightarrow> asset_db \<times> (app_error + sync_result)" where
  "sync_fabric_state evaluate l db i =
     (case snd (evaluate l ''GetAsset'' [i] ''admin@bank01'') of
        Inl e \<Rightarrow> (db, Inl e)
      | Inr (PDict d) \<Rightarrow>
          (case first_row (filter (\<lambda>a. as_asset_id a = i) (ad_assets db)) of
             None \<Rightarrow> (db, Inr \<lparr>sy_asset_id = i, sy_synced = False, sy_changes = [''Not found in DB'']\<rparr>)
           | Some a \<Rightarrow>
               (case sync_row db d a of
                  None \<Rightarrow> (db, Inl UnhandledError)
                | Some (a', changes) \<Rightarrow>
                    (if changes = [] then db
                     else db\<lparr>ad_assets := update_where (\<lambda>x. as_asset_id x = i)
                            (\<lambda>x. x\<lparr>as_current_value := as_current_value a', as_status := as_status a',
                                   as_current_owner_id := as_current_owner_id a'\<rparr>) (ad_assets db)\<rparr>,
                     Inr \<lparr>sy_asset_id = i, sy_synced = True, sy_changes = changes\<rparr>)))
      | Inr _ \<Rightarrow> (db, Inr \<lparr>sy_asset_id = i, sy_synced = False, sy_changes = []\<rparr>))"

definition SYNC_BATCH_SIZE :: nat where "SYNC_BATCH_SIZE = 500"

text \<open>\<open>SELECT DISTINCT asset_id ... ORDER BY asset_id\<close>, read in pages; the ids handed to the task queue.\<close>

definition syncable_ids :: "asset_db \<Rightarrow> string list" where
  "syncable_ids db = sort (remdups (map as_asset_id (filter (\<lambda>a. as_status a \<noteq> ''REMBOURSE'') (ad_assets db))))"

function sync_pages :: "string list \<Rightarrow> nat \<Rightarrow> nat \<Rightarrow> string list" where
  "sync_pages ids page offset =
     (let batch = take page (drop offset ids) in
      if batch = [] \<or> page = 0 then []
      else batch @ (if length batch < page then [] else sync_pages ids page (offset + page)))"
  by pat_completeness auto
termination
  by (relation "measure (\<lambda>(ids, page, offset). length ids - offset)") auto

declare sync_pages.simps [simp del]

definition sync_all :: "asset_db \<Rightarrow> string list \<times> nat" where
  "sync_all db = (let ids = sync_pages (syncable_ids db) SYNC_BATCH_SIZE 0 in (ids, length ids))"

end
