(* ===== verification/AssetLaws.thy ===== *)
theory AssetLaws
  imports Assets
begin

text \<open>
  The correctness of the asset service: its effect on the database, its agreement with the ledger through the
  interface of \<open>Gateway\<close>, and what its compensations achieve on the contract.
\<close>

subsection \<open>Operations as one datatype\<close>

datatype asset_op =
    OpTokenize tokenize_request string
  | OpTransfer transfer_request string "user option"
  | OpFreeze freeze_request string "user option"
  | OpUnfreeze unfreeze_request string "user option"
  | OpValuate string valuate_request

text \<open>One operation on the ledger and the database; the result is the error or the written row's id.\<close>

fun run_op :: "'l submit \<Rightarrow> asset_env \<Rightarrow> 'l \<times> asset_db \<Rightarrow> asset_op \<Rightarrow> ('l \<times> asset_db) \<times> (app_error + unit)" where
  "run_op submit env (l, db) (OpTokenize q label) =
     (case tokenize submit env l db q label of (l', db', r) \<Rightarrow> ((l', db'), map_sum id (\<lambda>_. ()) r))"
| "run_op submit env (l, db) (OpTransfer q label cu) =
     (case transfer submit env l db q label cu of (l', db', r) \<Rightarrow> ((l', db'), map_sum id (\<lambda>_. ()) r))"
| "run_op submit env (l, db) (OpFreeze q label cu) =
     (case freeze submit env l db q label cu of (l', db', r) \<Rightarrow> ((l', db'), map_sum id (\<lambda>_. ()) r))"
| "run_op submit env (l, db) (OpUnfreeze q label cu) =
     (case unfreeze_asset submit env l db q label cu of (l', db', r) \<Rightarrow> ((l', db'), map_sum id (\<lambda>_. ()) r))"
| "run_op submit env (l, db) (OpValuate i q) =
     (case record_valuation env db i q of (db', r) \<Rightarrow> ((l, db'), map_sum (\<lambda>_. UnhandledError) (\<lambda>_. ()) r))"

subsection \<open>The database is all or nothing\<close>

lemma commit_update_Some:
  "commit_update env db a t = Some (db', row) \<longleftrightarrow>
     ae_db_up env \<and> asset_fits db a \<and> transaction_fits db t \<and> row = stored_asset env a \<and>
     db' = db\<lparr>ad_assets := update_where (\<lambda>x. as_asset_id x = as_asset_id a) (\<lambda>_. stored_asset env a) (ad_assets db),
              ad_transactions := ad_transactions db @ [stored_transaction t]\<rparr>"
  by (auto simp: commit_update_def)

lemma full_check_wrapper_cases:
  obtains (raised) cdb e where "full_check_wrapper env db u amount i ty nm = (cdb, Inl e)"
  | (blocked) cdb why who where "full_check_wrapper env db u amount i ty nm = (cdb, Inr (True, why, who))"
  | (passed) cdb why who where "full_check_wrapper env db u amount i ty nm = (cdb, Inr (False, why, who))"
  by (cases "full_check_wrapper env db u amount i ty nm"; cases "snd (full_check_wrapper env db u amount i ty nm)";
      cases "fst (projr (snd (full_check_wrapper env db u amount i ty nm)))") auto

lemma tokenize_raises: "tokenize submit env l db q label = (l', db', Inl e) \<Longrightarrow> db' = db"
  by (auto simp: tokenize_def Let_def split: prod.splits sum.splits option.splits one.splits if_splits)

lemma transfer_raises:
  "transfer submit env l db q label cu = (l', db', Inl e) \<Longrightarrow>
     \<exists>cdb. db' = db\<lparr>ad_compliance := cdb\<rparr>"
  by (cases db)
    (auto simp: transfer_def Let_def split: prod.splits sum.splits option.splits one.splits if_splits bool.splits)

lemma freeze_raises: "freeze submit env l db q label cu = (l', db', Inl e) \<Longrightarrow> db' = db"
  by (auto simp: freeze_def split: prod.splits sum.splits option.splits one.splits if_splits)

lemma unfreeze_raises: "unfreeze_asset submit env l db q label cu = (l', db', Inl e) \<Longrightarrow> db' = db"
  by (auto simp: unfreeze_asset_def split: prod.splits sum.splits option.splits one.splits if_splits)

lemma valuation_raises: "record_valuation env db i q = (db', Inl e) \<Longrightarrow> db' = db"
  by (auto simp: record_valuation_def Let_def split: one.splits if_splits)

text \<open>
  C9: an operation of the asset service that raises leaves the assets, the transactions and the valuations of the
  database as they were, whatever happened on the ledger; only the records of the compliance check may have
  been added.
\<close>

theorem failed_operation_keeps_tables:
  assumes "run_op submit env (l, db) op = ((l', db'), Inl e)"
  shows "ad_assets db' = ad_assets db \<and> ad_transactions db' = ad_transactions db \<and> ad_valuations db' = ad_valuations db"
proof (cases op)
  case (OpTransfer q label cu)
  then have "\<exists>e'. transfer submit env l db q label cu = (l', db', Inl e')"
    using assms by (auto split: prod.splits sum.splits simp: map_sum_def)
  then show ?thesis using transfer_raises by fastforce
qed (use assms in \<open>auto split: prod.splits sum.splits simp: map_sum_def
      dest!: tokenize_raises freeze_raises unfreeze_raises valuation_raises\<close>)

subsection \<open>Transfers\<close>

lemma full_check_passed:
  "full_check_wrapper env db u amount i ty nm = (cdb, Inr (False, why, who)) \<Longrightarrow>
     \<exists>res. full_check env db u amount i ty nm = (cdb, Inr res) \<and> res_approved res"
  by (auto simp: full_check_wrapper_def split: prod.splits sum.splits if_splits)

lemma transfer_success:
  assumes "transfer submit env l db q label cu = (l', db', Inr row)"
  obtains a recipient v ids cdb res where "by_asset_id db (rq_asset_id q) = OneRow a" "as_status a \<noteq> ''GELE''"
    "as_asset_id a = rq_asset_id q"
    "recipient \<in> set (cdb_users (ad_compliance db))" "user_email recipient = rq_to_owner q"
    "full_check (ae_compliance env) (ad_compliance db) (user_id recipient) (xround (dec_value (rq_price q)))
      (rq_asset_id q) (as_asset_type a) (screening_name recipient) = (cdb, Inr res)" "res_approved res"
    "submit l ''TransferAsset'' [rq_asset_id q, rq_to_owner q, dec_text (rq_price q), rq_justification q] label = (l', Inr v)"
    "commit_update env (db\<lparr>ad_compliance := cdb\<rparr>) (fst (transfer_rows env a recipient cu q ids))
       (snd (transfer_rows env a recipient cu q ids)) = Some (db', row)"
proof -
  obtain a where a: "by_asset_id db (rq_asset_id q) = OneRow a" "as_status a \<noteq> ''GELE''"
    using assms by (auto simp: transfer_def split: one.splits if_splits)
  have id: "as_asset_id a = rq_asset_id q"
  proof -
    have "filter (\<lambda>a. as_asset_id a = rq_asset_id q) (ad_assets db) = [a]"
      using a(1) by (auto simp: by_asset_id_def)
    then have "a \<in> set (filter (\<lambda>a. as_asset_id a = rq_asset_id q) (ad_assets db))" by simp
    then show ?thesis by simp
  qed
  obtain recipient where r: "first_row (filter (\<lambda>u. user_email u = rq_to_owner q) (cdb_users (ad_compliance db))) = Some recipient"
    using assms a by (auto simp: transfer_def split: option.splits)
  then have mem: "recipient \<in> set (cdb_users (ad_compliance db))" "user_email recipient = rq_to_owner q"
    by (auto simp: first_row_def filter_eq_Cons_iff split: list.splits)
  obtain cdb why who where fc: "full_check_wrapper (ae_compliance env) (ad_compliance db) (user_id recipient)
      (xround (dec_value (rq_price q))) (rq_asset_id q) (as_asset_type a) (screening_name recipient) = (cdb, Inr (False, why, who))"
    using assms a r by (auto simp: transfer_def split: prod.splits sum.splits bool.splits)
  obtain v ids where s: "submit l ''TransferAsset'' [rq_asset_id q, rq_to_owner q, dec_text (rq_price q), rq_justification q] label = (l', Inr v)"
      "ledger_ids (ae_rep env) v = Some ids"
      "commit_update env (db\<lparr>ad_compliance := cdb\<rparr>) (fst (transfer_rows env a recipient cu q ids))
         (snd (transfer_rows env a recipient cu q ids)) = Some (db', row)"
    using assms a r fc
    by (auto simp: transfer_def Let_def split: prod.splits sum.splits option.splits if_splits)
  obtain res where "full_check (ae_compliance env) (ad_compliance db) (user_id recipient)
      (xround (dec_value (rq_price q))) (rq_asset_id q) (as_asset_type a) (screening_name recipient) = (cdb, Inr res)" "res_approved res"
    using full_check_passed [OF fc] by blast
  then show thesis using that a id mem s by blast
qed

text \<open>
  C8: a successful transfer found the asset active in the database and the recipient among the users, passed the
  compliance check for the recipient, was accepted by the ledger, and then wrote exactly two rows: the asset with
  the new owner and price, and a transaction from the old to the new owner under the id the ledger returned; every
  other asset and every earlier transaction is untouched.
\<close>

theorem transfer_settles:
  assumes "transfer submit env l db q label cu = (l', db', Inr row)"
  shows "\<exists>a recipient t v res cdb.
    by_asset_id db (rq_asset_id q) = OneRow a \<and> as_status a \<noteq> ''GELE'' \<and>
    recipient \<in> set (cdb_users (ad_compliance db)) \<and> user_email recipient = rq_to_owner q \<and>
    full_check (ae_compliance env) (ad_compliance db) (user_id recipient) (xround (dec_value (rq_price q)))
      (rq_asset_id q) (as_asset_type a) (screening_name recipient) = (cdb, Inr res) \<and> res_approved res \<and>
    submit l ''TransferAsset'' [rq_asset_id q, rq_to_owner q, dec_text (rq_price q), rq_justification q] label = (l', Inr v) \<and>
    as_current_owner_id row = Some (user_id recipient) \<and> as_current_value row = stored 20 4 (dec_value (rq_price q)) \<and>
    as_status row = as_status a \<and>
    tx_from_owner_id t = as_current_owner_id a \<and> tx_to_owner_id t = Some (user_id recipient) \<and>
    tx_asset_id t = as_uuid a \<and> tx_type t = ''TRANSFERT'' \<and> tx_fabric_tx_id t = as_fabric_tx_id row \<and>
    db' = \<lparr>ad_compliance = cdb,
      ad_assets = map (\<lambda>x. if as_asset_id x = rq_asset_id q then row else x) (ad_assets db),
      ad_transactions = ad_transactions db @ [t], ad_valuations = ad_valuations db\<rparr>"
  using assms
proof (rule transfer_success)
  fix a recipient v ids cdb res
  assume *: "by_asset_id db (rq_asset_id q) = OneRow a" "as_status a \<noteq> ''GELE''" "as_asset_id a = rq_asset_id q"
    "recipient \<in> set (cdb_users (ad_compliance db))" "user_email recipient = rq_to_owner q"
    "full_check (ae_compliance env) (ad_compliance db) (user_id recipient) (xround (dec_value (rq_price q)))
      (rq_asset_id q) (as_asset_type a) (screening_name recipient) = (cdb, Inr res)" "res_approved res"
    "submit l ''TransferAsset'' [rq_asset_id q, rq_to_owner q, dec_text (rq_price q), rq_justification q] label = (l', Inr v)"
    "commit_update env (db\<lparr>ad_compliance := cdb\<rparr>) (fst (transfer_rows env a recipient cu q ids))
       (snd (transfer_rows env a recipient cu q ids)) = Some (db', row)"
  then show ?thesis
    by (intro exI [of _ a] exI [of _ recipient] exI [of _ "stored_transaction (snd (transfer_rows env a recipient cu q ids))"]
        exI [of _ v] exI [of _ res] exI [of _ cdb])
      (cases db, auto simp: commit_update_Some transfer_rows_def stored_asset_def stored_transaction_def update_where_def)
qed

subsection \<open>Agreement of the database with the ledger\<close>

definition statuses_agree :: "(string \<Rightarrow> string option) \<Rightarrow> asset_db \<Rightarrow> bool" where
  "statuses_agree st db \<longleftrightarrow>
     distinct (map as_asset_id (ad_assets db)) \<and>
     (\<forall>a \<in> set (ad_assets db). st (as_asset_id a) = Some (as_status a))"

text \<open>An unfreeze the ledger accepted and the database did not store.\<close>

fun unfreeze_lost :: "'l submit \<Rightarrow> asset_env \<Rightarrow> 'l \<times> asset_db \<Rightarrow> asset_op \<Rightarrow> bool" where
  "unfreeze_lost submit env (l, db) (OpUnfreeze q label cu) =
     (case snd (submit l ''UnfreezeAsset'' [uq_asset_id q, uq_justification q] label) of
        Inl _ \<Rightarrow> False
      | Inr _ \<Rightarrow> snd (run_op submit env (l, db) (OpUnfreeze q label cu)) = Inl UnhandledError)"
| "unfreeze_lost submit env s op = False"

lemma agree_put:
  assumes "statuses_agree st db" and "as_asset_id row = i" and "as_status row = s"
    and "ad_assets db' = update_where (\<lambda>x. as_asset_id x = i) (\<lambda>_. row) (ad_assets db)"
  shows "statuses_agree (st(i \<mapsto> s)) db'"
proof -
  have "map as_asset_id (ad_assets db') = map as_asset_id (ad_assets db)"
    unfolding assms(4) by (rule map_update_where) (simp add: assms(2))
  then show ?thesis using assms unfolding statuses_agree_def by (auto simp: set_update_where)
qed

lemma agree_same: "statuses_agree st db \<Longrightarrow> ad_assets db' = ad_assets db \<Longrightarrow> statuses_agree st db'"
  by (simp add: statuses_agree_def)

lemma agree_known: "statuses_agree st db \<Longrightarrow> a \<in> set (ad_assets db) \<Longrightarrow> st (as_asset_id a) = Some (as_status a)"
  by (simp add: statuses_agree_def)

lemma agree_fresh: "statuses_agree st db \<Longrightarrow> i \<notin> as_asset_id ` set (ad_assets db) \<Longrightarrow> statuses_agree (st(i \<mapsto> s)) db"
  by (auto simp: statuses_agree_def)

lemma by_asset_id_OneRow: "by_asset_id db i = OneRow a \<Longrightarrow> a \<in> set (ad_assets db) \<and> as_asset_id a = i"
proof -
  assume "by_asset_id db i = OneRow a"
  then have "filter (\<lambda>a. as_asset_id a = i) (ad_assets db) = [a]" by (auto simp: by_asset_id_def)
  then have "a \<in> set (filter (\<lambda>a. as_asset_id a = i) (ad_assets db))" by simp
  then show ?thesis by simp
qed

lemma by_asset_id_NoRow: "by_asset_id db i = NoRow \<Longrightarrow> i \<notin> as_asset_id ` set (ad_assets db)"
  by (auto simp: by_asset_id_def filter_empty_conv)

lemma by_asset_id_unique: "distinct (map as_asset_id (ad_assets db)) \<Longrightarrow> by_asset_id db i \<noteq> ManyRows"
proof
  assume d: "distinct (map as_asset_id (ad_assets db))" and "by_asset_id db i = ManyRows"
  then obtain x y zs where f: "filter (\<lambda>a. as_asset_id a = i) (ad_assets db) = x # y # zs"
    by (auto simp: by_asset_id_def elim: scalar_one_or_none.elims)
  have "distinct (map as_asset_id (filter (\<lambda>a. as_asset_id a = i) (ad_assets db)))"
    using d by (rule distinct_map_filter)
  moreover have "as_asset_id x = i" "as_asset_id y = i"
    using f by (auto dest!: arg_cong [of _ _ set] simp: set_eq_iff)
  ultimately show False using f by simp
qed

lemma ledger_ids_txid: "ledger_ids rep (PDict [(''txID'', PStr t)]) = Some (t, None)"
  by (simp add: ledger_ids_def dict_get_def str_of_def)

text \<open>A transfer submits nothing, one transaction, or one and its compensation.\<close>

lemma transfer_ledger:
  assumes "transfer submit env l db q label cu = (l', db', r)"
  obtains (untouched) "l' = l"
  | (submitted) m args res where "submit l ''TransferAsset'' (rq_asset_id q # args) label = (m, res)"
      "l' = m \<or> (\<exists>args'. l' = fst (submit m ''TransferAsset'' (rq_asset_id q # args') label))"
proof (cases "submit l ''TransferAsset'' [rq_asset_id q, rq_to_owner q, dec_text (rq_price q), rq_justification q] label")
  case (Pair m res)
  have "l' = l \<or> l' = m \<or> (\<exists>args'. l' = fst (submit m ''TransferAsset'' (rq_asset_id q # args') label))"
    using assms Pair
    by (auto simp: transfer_def Let_def split: one.splits option.splits if_splits prod.splits sum.splits bool.splits)
  then show thesis using Pair untouched submitted by blast
qed

context gateway
begin

lemma answered: "submit l fn args label = (l', Inr v) \<Longrightarrow> \<exists>t. ledger_ids rep v = Some (t, None)"
  using answers [of l fn args label l' v] ledger_ids_txid by blast

lemma tokenize_agrees:
  assumes "inv l" and "statuses_agree (status_of l) db" and "tokenize submit env l db q label = (l', db', r)"
  shows "inv l' \<and> statuses_agree (status_of l') db'"
proof (cases "submit l ''TokenizeAsset'' [tq_asset_id q, tq_isin q, tq_asset_type q, tq_asset_name q, tq_issuer_lei q,
    dec_text (tq_nominal_value q), tq_currency q, tq_issuance_date q, tq_justification q] label")
  case (Pair m res)
  show ?thesis
  proof (cases res)
    case (Inl e)
    then show ?thesis using assms Pair refused [of l _ _ label m e] by (auto simp: tokenize_def)
  next
    case (Inr v)
    let ?i = "tq_asset_id q"
    have new: "status_of l ?i = None" "status_of m = (status_of l)(?i \<mapsto> StatusActif)"
      using tokenized [OF assms(1)] Pair Inr by auto
    then have fresh: "?i \<notin> as_asset_id ` set (ad_assets db)" using assms(2) by (auto dest: agree_known)
    then have old: "statuses_agree (status_of m) db" unfolding new(2) by (rule agree_fresh [OF assms(2)])
    have "statuses_agree (status_of m) (db\<lparr>ad_assets := ad_assets db @ [a]\<rparr>)" if "as_asset_id a = ?i" "as_status a = ''ACTIF''" for a
      using old fresh that new(2) by (auto simp: statuses_agree_def)
    then show ?thesis using assms(3) Pair Inr old inv_result [OF assms(1) Pair]
      by (auto simp: tokenize_def Let_def stored_asset_def split: option.splits one.splits if_splits)
  qed
qed

lemma resubmit:
  assumes "inv m" and "submit m ''TransferAsset'' (i # args) label = (m', res)"
  shows "inv m' \<and> status_of m' = status_of m"
proof (cases res)
  case (Inl e)
  then show ?thesis using assms refused by blast
next
  case (Inr v)
  then show ?thesis using assms transferred inv_result by blast
qed

lemma transfer_agrees:
  assumes "inv l" and "statuses_agree (status_of l) db" and "transfer submit env l db q label cu = (l', db', r)"
  shows "inv l' \<and> statuses_agree (status_of l') db'"
proof -
  have ledger: "inv l' \<and> status_of l' = status_of l"
    using assms(3)
  proof (rule transfer_ledger)
    fix m args res assume first: "submit l ''TransferAsset'' (rq_asset_id q # args) label = (m, res)"
      and l': "l' = m \<or> (\<exists>args'. l' = fst (submit m ''TransferAsset'' (rq_asset_id q # args') label))"
    have m: "inv m" "status_of m = status_of l" using resubmit [OF assms(1) first] by auto
    from l' show ?thesis
    proof
      assume "\<exists>args'. l' = fst (submit m ''TransferAsset'' (rq_asset_id q # args') label)"
      then obtain args' res' where "submit m ''TransferAsset'' (rq_asset_id q # args') label = (l', res')"
        by (metis prod.collapse)
      from resubmit [OF m(1) this] m show ?thesis by auto
    qed (use m in auto)
  qed (use assms(1) in auto)
  show ?thesis
  proof (cases r)
    case (Inl e)
    then have "ad_assets db' = ad_assets db" using transfer_raises [of submit env l db q label cu l' db' e] assms(3) by auto
    then show ?thesis using ledger assms(2) by (auto intro: agree_same)
  next
    case (Inr row)
    show ?thesis using assms(3) unfolding Inr
    proof (rule transfer_success)
      fix a recipient v ids cdb
      assume a: "by_asset_id db (rq_asset_id q) = OneRow a" "as_asset_id a = rq_asset_id q"
        and c: "commit_update env (db\<lparr>ad_compliance := cdb\<rparr>) (fst (transfer_rows env a recipient cu q ids))
          (snd (transfer_rows env a recipient cu q ids)) = Some (db', row)"
      have known: "status_of l (rq_asset_id q) = Some (as_status a)"
        using agree_known [OF assms(2), of a] by_asset_id_OneRow [OF a(1)] by simp
      have "statuses_agree ((status_of l)(rq_asset_id q \<mapsto> as_status row)) db'"
        by (rule agree_put [OF assms(2), of row])
          (use c a in \<open>auto simp: commit_update_Some transfer_rows_def stored_asset_def\<close>)
      moreover have "as_status row = as_status a" using c by (auto simp: commit_update_Some transfer_rows_def stored_asset_def)
      ultimately show ?thesis using ledger known by (simp add: fun_upd_idem)
    qed
  qed
qed

end

context gateway
begin

lemma freeze_agrees:
  assumes "inv l" and "statuses_agree (status_of l) db" and "freeze submit env l db q label cu = (l', db', r)"
  shows "inv l' \<and> statuses_agree (status_of l') db'"
proof (cases "submit l ''FreezeAsset'' [fq_asset_id q, fq_reason q, fq_regulatory_ref q] label")
  case (Pair m res)
  let ?i = "fq_asset_id q"
  show ?thesis
  proof (cases res)
    case (Inl e)
    then show ?thesis using assms Pair refused [of l _ _ label m e] by (auto simp: freeze_def)
  next
    case (Inr v)
    note sub = Pair [unfolded Inr]
    have m: "inv m" "status_of m = (status_of l)(?i \<mapsto> StatusGele)"
      using inv_result [OF assms(1) sub] frozen [OF assms(1) sub] by auto
    obtain t where ids: "ledger_ids (ae_rep env) v = Some (t, None)" using answered [OF sub] by blast
    show ?thesis
    proof (cases "by_asset_id db ?i")
      case NoRow
      then have "statuses_agree (status_of m) db" unfolding m(2) by (intro agree_fresh [OF assms(2)] by_asset_id_NoRow)
      then show ?thesis using assms(3) sub ids NoRow m by (auto simp: freeze_def)
    next
      case (OneRow a)
      let ?rows = "regulatory_rows env a cu ''GELE'' ''GEL'' (fq_reason q) (t, None)"
      show ?thesis
      proof (cases "commit_update env db (fst ?rows) (snd ?rows)")
        case None
        obtain l2 v' where "submit m ''UnfreezeAsset'' [?i, saga_reason] label = (l2, Inr v')" "inv l2" "status_of l2 = status_of l"
          using freeze_compensated [OF assms(1) sub] by blast
        then show ?thesis using assms(2,3) sub ids OneRow None by (auto simp: freeze_def case_prod_beta)
      next
        case (Some x)
        have "statuses_agree (status_of m) (fst x)" unfolding m(2)
          by (rule agree_put [OF assms(2), of "snd x"])
            (use Some by_asset_id_OneRow [OF OneRow] in \<open>cases x; auto simp: commit_update_Some regulatory_rows_def stored_asset_def\<close>)+
        then show ?thesis using assms(3) sub ids OneRow Some m by (cases x) (auto simp: freeze_def case_prod_beta)
      qed
    next
      case ManyRows
      then show ?thesis using by_asset_id_unique [of db ?i] assms(2) by (simp add: statuses_agree_def)
    qed
  qed
qed

text \<open>An unfreeze either keeps the agreement, or was accepted by the ledger and lost by the database.\<close>

lemma unfreeze_agrees:
  assumes "inv l" and "statuses_agree (status_of l) db" and "unfreeze_asset submit env l db q label cu = (l', db', r)"
  shows "inv l' \<and> (statuses_agree (status_of l') db' \<and> \<not> unfreeze_lost submit env (l, db) (OpUnfreeze q label cu) \<or>
    unfreeze_lost submit env (l, db) (OpUnfreeze q label cu) \<and> db' = db \<and>
      status_of l' = (status_of l)(uq_asset_id q \<mapsto> StatusActif) \<and> status_of l (uq_asset_id q) = Some StatusGele \<and>
      uq_asset_id q \<in> as_asset_id ` set (ad_assets db))"
proof (cases "submit l ''UnfreezeAsset'' [uq_asset_id q, uq_justification q] label")
  case (Pair m res)
  let ?i = "uq_asset_id q"
  show ?thesis
  proof (cases res)
    case (Inl e)
    then show ?thesis using assms Pair refused [of l _ _ label m e] by (auto simp: unfreeze_asset_def)
  next
    case (Inr v)
    note sub = Pair [unfolded Inr]
    have m: "inv m" "status_of l ?i = Some StatusGele" "status_of m = (status_of l)(?i \<mapsto> StatusActif)"
      using inv_result [OF assms(1) sub] unfrozen [OF assms(1) sub] by auto
    obtain t where ids: "ledger_ids (ae_rep env) v = Some (t, None)" using answered [OF sub] by blast
    show ?thesis
    proof (cases "by_asset_id db ?i")
      case NoRow
      then have "statuses_agree (status_of m) db" unfolding m(3) by (intro agree_fresh [OF assms(2)] by_asset_id_NoRow)
      then show ?thesis using assms(3) sub ids NoRow m by (auto simp: unfreeze_asset_def)
    next
      case (OneRow a)
      let ?rows = "regulatory_rows env a cu ''ACTIF'' ''DEGEL'' (uq_justification q) (t, None)"
      show ?thesis
      proof (cases "commit_update env db (fst ?rows) (snd ?rows)")
        case None
        obtain e where "submit m ''FreezeAsset'' [?i, saga_reason, saga_ref] label = (m, Inl e)" using undo_unfreeze by blast
        moreover have "?i \<in> as_asset_id ` set (ad_assets db)" using by_asset_id_OneRow [OF OneRow] by (metis imageI)
        ultimately show ?thesis using assms(3) sub ids OneRow None m by (auto simp: unfreeze_asset_def case_prod_beta)
      next
        case (Some x)
        have "statuses_agree (status_of m) (fst x)" unfolding m(3)
          by (rule agree_put [OF assms(2), of "snd x"])
            (use Some by_asset_id_OneRow [OF OneRow] in \<open>cases x; auto simp: commit_update_Some regulatory_rows_def stored_asset_def\<close>)+
        then show ?thesis using assms(3) sub ids OneRow Some m by (cases x) (auto simp: unfreeze_asset_def case_prod_beta)
      qed
    next
      case ManyRows
      then show ?thesis using by_asset_id_unique [of db ?i] assms(2) by (simp add: statuses_agree_def)
    qed
  qed
qed

lemma valuation_agrees:
  assumes "statuses_agree st db" and "record_valuation env db i q = (db', r)"
  shows "statuses_agree st db'"
proof (cases "by_asset_id db i")
  case (OneRow a)
  have a: "a \<in> set (ad_assets db)" "as_asset_id a = i" using by_asset_id_OneRow [OF OneRow] by auto
  then have "st i = Some (as_status a)" using agree_known [OF assms(1)] by blast
  then have upd: "statuses_agree st db'" if "ad_assets db' = update_where (\<lambda>x. as_asset_id x = i) (\<lambda>_. row) (ad_assets db)"
    "as_asset_id row = i" "as_status row = as_status a" for row db'
    using agree_put [OF assms(1) that(2) refl that(1)] that(3) by (simp add: fun_upd_idem)
  show ?thesis
  proof (cases r)
    case (Inl e)
    then show ?thesis using assms valuation_raises [of env db i q db' e] by simp
  next
    case (Inr v)
    then have "ad_assets db' = update_where (\<lambda>x. as_asset_id x = i)
        (\<lambda>_. stored_asset env (a\<lparr>as_current_value := vq_current_value q\<rparr>)) (ad_assets db)"
      using assms(2) OneRow by (auto simp: record_valuation_def Let_def split: if_splits)
    then show ?thesis by (rule upd) (simp_all add: stored_asset_def a)
  qed
qed (use assms in \<open>auto simp: record_valuation_def\<close>)

lemma operation_agrees:
  assumes "inv l" and "statuses_agree (status_of l) db" and "run_op submit env (l, db) op = ((l', db'), r)"
    and "\<not> unfreeze_lost submit env (l, db) op"
  shows "inv l' \<and> statuses_agree (status_of l') db'"
proof (cases op)
  case (OpUnfreeze q label cu)
  then obtain r' where "unfreeze_asset submit env l db q label cu = (l', db', r')"
    using assms(3) by (auto split: prod.splits)
  from unfreeze_agrees [OF assms(1,2) this] show ?thesis using assms(4) OpUnfreeze by blast
qed (use assms tokenize_agrees [OF assms(1,2)] transfer_agrees [OF assms(1,2)] freeze_agrees [OF assms(1,2)]
      valuation_agrees [OF assms(2)] in \<open>auto split: prod.splits\<close>)

end

text \<open>The states of a run, and the steps at which an unfreeze was lost.\<close>

definition op_step :: "'l submit \<Rightarrow> 'l \<times> asset_db \<Rightarrow> asset_env \<times> asset_op \<Rightarrow> 'l \<times> asset_db" where
  "op_step submit s eo = fst (run_op submit (fst eo) s (snd eo))"

fun lost_unfreezes :: "'l submit \<Rightarrow> 'l \<times> asset_db \<Rightarrow> (asset_env \<times> asset_op) list \<Rightarrow> nat" where
  "lost_unfreezes submit s [] = 0"
| "lost_unfreezes submit s (eo # eos) =
     (if unfreeze_lost submit (fst eo) s (snd eo) then 1 else 0) + lost_unfreezes submit (op_step submit s eo) eos"

context gateway
begin

lemma run_agrees:
  assumes "inv (fst s)" and "statuses_agree (status_of (fst s)) (snd s)" and "lost_unfreezes submit s eos = 0"
  shows "inv (fst (foldl (op_step submit) s eos)) \<and>
    statuses_agree (status_of (fst (foldl (op_step submit) s eos))) (snd (foldl (op_step submit) s eos))"
  using assms
proof (induction eos arbitrary: s)
  case (Cons eo eos)
  obtain l db where s: "s = (l, db)" by (cases s)
  obtain l' db' r where step: "run_op submit (fst eo) (l, db) (snd eo) = ((l', db'), r)" by (metis prod.collapse)
  have "inv l' \<and> statuses_agree (status_of l') db'"
    using Cons.prems s by (intro operation_agrees [OF _ _ step]) (auto split: if_splits)
  then show ?case using Cons s step by (auto simp: op_step_def)
qed simp

end


text \<open>
  An unfreeze whose database commit fails is never compensated: the compensating freeze carries the reference
  \<open>SAGA-COMP\<close>, which the contract refuses, so the asset stays active on the ledger while its row stays frozen.
\<close>

theorem lost_unfreeze_diverges:
  assumes "ledger_inv ws" and "statuses_agree (contract_status ws) db"
    and "unfreeze_lost (contract_submit c environ ce r) env (ws, db) (OpUnfreeze q label cu)"
    and "unfreeze_asset (contract_submit c environ ce r) env ws db q label cu = (ws', db', res)"
  shows "contract_status ws' (uq_asset_id q) = Some StatusActif \<and>
    (\<exists>a \<in> set (ad_assets db'). as_asset_id a = uq_asset_id q \<and> as_status a = StatusGele) \<and>
    \<not> statuses_agree (contract_status ws') db'"
proof -
  have *: "db' = db" "contract_status ws' = (contract_status ws)(uq_asset_id q \<mapsto> StatusActif)"
    "contract_status ws (uq_asset_id q) = Some StatusGele" "uq_asset_id q \<in> as_asset_id ` set (ad_assets db)"
    using gw.unfreeze_agrees [OF assms(1,2,4)] assms(3) by auto
  then obtain a where a: "a \<in> set (ad_assets db)" "as_asset_id a = uq_asset_id q" by auto
  then have "as_status a = StatusGele" using agree_known [OF assms(2) a(1)] *(3) by simp
  then show ?thesis using * a by (auto dest!: agree_known)
qed

subsection \<open>Transfers on the contract\<close>

text \<open>
  No transfer reaches the contract. The service submits the price before the justification, the contract binds the
  justification to its price parameter: whenever the justification is not the text of a number, the transfer raises
  and neither the ledger nor the assets and transactions of the database change.
\<close>

theorem transfer_never_reaches_contract:
  assumes "ce_parse_float ce (rq_justification q) = None"
    and "transfer (contract_submit c environ ce r) env ws db q label cu = (ws', db', res)"
  shows "ws' = ws \<and> (\<exists>e. res = Inl e) \<and> ad_assets db' = ad_assets db \<and> ad_transactions db' = ad_transactions db"
proof -
  have "\<exists>e. contract_submit c environ ce r ws ''TransferAsset''
      [rq_asset_id q, rq_to_owner q, dec_text (rq_price q), rq_justification q] label = (ws, Inl e)"
    by (rule contract_submit_cases [of c environ ce r ws "''TransferAsset''"
          "[rq_asset_id q, rq_to_owner q, dec_text (rq_price q), rq_justification q]" label, OF surjective_pairing])
      (auto simp: prod_eq_iff bind_args_def assms(1))
  then show ?thesis using assms(2)
    by (cases db)
      (auto simp: transfer_def Let_def split: one.splits option.splits if_splits prod.splits sum.splits bool.splits)
qed

subsection \<open>Reads of the contract\<close>

lemma convert_keys_lacks:
  assumes "k \<notin> snake_key ` fst ` set kvs" and "k \<in> set required"
  shows "\<not> validates types_ok required (convert_keys (PDict kvs))"
proof -
  let ?f = "\<lambda>(k, v). (snake_key k, convert_keys v)"
  have "fst ` set (dict_of (map ?f kvs)) \<subseteq> fst ` ?f ` set kvs" using set_dict_of [of "map ?f kvs"] by auto
  also have "\<dots> = snake_key ` fst ` set kvs" by (force simp: image_image case_prod_beta)
  finally have "k \<notin> fst ` set (dict_of (map ?f kvs))" using assms(1) by blast
  then show ?thesis using assms(2) by (auto simp: validates_def list_all_iff)
qed

lemma asset_keys_lack: "''issuer_org_id'' \<notin> snake_key ` fst ` set
     [(''assetID'', x1), (''isin'', x2), (''assetType'', x3), (''assetName'', x4), (''issuerMSP'', x5), (''issuerLEI'', x6),
      (''currentOwner'', x7), (''nominalValue'', x8), (''currentValue'', x9), (''currency'', x10), (''status'', x11),
      (''issuanceDate'', x12), (''maturityDate'', x13), (''couponRate'', x14), (''ratingMoodys'', x15), (''frozenBy'', x16),
      (''frozenAt'', x17), (''frozenReason'', x18), (''regulatoryRef'', x19), (''totalTransfers'', x20), (''provenance'', x21)]"
  by code_simp

lemma provenance_keys_lack: "''txID'' \<notin> range snake_key"
proof
  assume "''txID'' \<in> range snake_key"
  then obtain k where "''txID'' = snake_key k" by blast
  then have "no_upper ''txID''" using lower_no_upper by (metis snake_key_def)
  then show False by code_simp
qed

lemma asset_json_invalid: "\<not> validates types_ok asset_response_fields (convert_keys (asset_json a))"
  unfolding asset_json_def by (rule convert_keys_lacks [OF asset_keys_lack]) (simp add: asset_response_fields_def)

lemma provenance_json_invalid: "\<not> validates types_ok provenance_fields (convert_keys (provenance_json r))"
  unfolding provenance_json_def
  by (rule convert_keys_lacks [of "''txID''"]) (use provenance_keys_lack in \<open>auto simp: provenance_fields_def\<close>)

text \<open>
  The read endpoints can never return what the contract answers. An asset of the contract has no field the response
  model's \<open>issuer_org_id\<close> could come from, and the conversion of the keys renames the \<open>txID\<close> the provenance model
  requires: reading an asset, and reading its history of at least one record, always ends in an internal error.
\<close>

theorem ledger_reads_never_validate:
  assumes "snd (evaluate l ''GetAsset'' [i] label) = Inr (convert_keys (asset_json a))"
    and "snd (evaluate l ''GetProvenanceTrail'' [i] label) = Inr (convert_keys (PList (map provenance_json (p # ps))))"
    and "get_current_user (cdb_users (ad_compliance db)) sub = Inr u" and "resolve_identity u = Inr label"
  shows "read_asset types_ok evaluate l db sub i = Inl UnhandledError \<and>
    read_asset_history types_ok evaluate l db sub i = Inl UnhandledError"
  using assms by (simp add: read_asset_def read_asset_history_def read_ledger_def asset_json_invalid provenance_json_invalid)

subsection \<open>Synchronisation\<close>

lemma sync_pages_drop: "0 < page \<Longrightarrow> sync_pages ids page offset = drop offset ids"
proof (induction ids page offset rule: sync_pages.induct)
  case (1 ids page offset)
  show ?case
  proof (cases "length (drop offset ids) < page")
    case True
    then show ?thesis by (subst sync_pages.simps) (auto simp: Let_def)
  next
    case False
    then have "length (take page (drop offset ids)) = page" by simp
    moreover have "take page (drop offset ids) @ drop (offset + page) ids = drop offset ids"
      by (metis add.commute append_take_drop_id drop_drop)
    ultimately show ?thesis using 1 by (subst sync_pages.simps) (auto simp: Let_def)
  qed
qed

text \<open>
  C21: the paged synchronisation ends and hands each asset that is not redeemed to the task queue exactly once, in order,
  whatever the number of pages; the count it reports is theirs.
\<close>

theorem sync_all_covers_each_asset_once:
  "set (fst (sync_all db)) = as_asset_id ` {a \<in> set (ad_assets db). as_status a \<noteq> ''REMBOURSE''} \<and>
   distinct (fst (sync_all db)) \<and> sorted (fst (sync_all db)) \<and> snd (sync_all db) = length (fst (sync_all db))"
  by (auto simp: sync_all_def Let_def sync_pages_drop SYNC_BATCH_SIZE_def syncable_ids_def)

subsection \<open>Requests and the contract's field rules\<close>

definition ascii :: "string \<Rightarrow> bool" where
  "ascii s \<longleftrightarrow> list_all (\<lambda>c. (of_char c :: nat) < 128) s"

lemma ascii_upper_digit: "list_all is_upper_digit s \<Longrightarrow> ascii s"
  by (auto simp: ascii_def list_all_iff is_upper_digit_def is_upper_def is_digit_def Let_def)

lemma ascii_utf8: "ascii s \<Longrightarrow> length (utf8 s) = length s"
  by (induction s) (auto simp: ascii_def utf8_Cons utf8_char_def Let_def)

lemma runes_ascii: "ascii s \<Longrightarrow> (j, c) \<in> set (runes_from n s) \<Longrightarrow> n \<le> j \<and> j - n < length s \<and> c = s ! (j - n)"
proof (induction s arbitrary: n)
  case (Cons d s)
  have one: "length (utf8_char d) = 1" using Cons.prems(1) by (simp add: ascii_def utf8_char_def Let_def)
  show ?case
  proof (cases "(j, c) = (n, d)")
    case False
    then have "(j, c) \<in> set (runes_from (Suc n) s)" using Cons.prems(2) by (auto simp: one)
    moreover have "ascii s" using Cons.prems(1) by (simp add: ascii_def)
    ultimately show ?thesis using Cons.IH [of "Suc n"] by (auto simp: nth_Cons' Suc_diff_Suc le_Suc_eq)
  qed simp
qed simp

lemma rx_run: "rx_match [(p, m, Some m)] s \<longleftrightarrow> list_all p s \<and> length s = m"
  by (auto simp: min_def split: if_splits)

lemma isin_shape:
  assumes "rx_match [(is_upper, 2, Some 2), (is_upper_digit, 10, Some 10)] s"
  shows "ValidateISIN s = Inr ()"
proof -
  have s: "list_all is_upper (take 2 s)" "list_all is_upper_digit (drop 2 s)" "length s = 12"
    using assms unfolding rx_match.simps(2) [of is_upper] rx_run by (auto split: if_splits simp: min_def)
  then have all: "list_all is_upper_digit s"
    using append_take_drop_id [of 2 s] by (metis is_upper_digit_def list_all_append list_all_iff)
  have "if i < 2 then is_upper c else is_upper_digit c" if "(i, c) \<in> set (runes_from 0 s)" for i c
  proof -
    have ic: "i < length s" "c = s ! i" using runes_ascii [OF ascii_upper_digit [OF all] that] by auto
    then have "i < 2 \<Longrightarrow> c \<in> set (take 2 s)" by (metis in_set_conv_nth length_take min_less_iff_conj nth_take)
    then show ?thesis using s all ic by (auto simp: list_all_iff)
  qed
  then show ?thesis using s ascii_utf8 [OF ascii_upper_digit [OF all]] by (auto simp: ValidateISIN_def list_all_iff)
qed

text \<open>
  For a request the API accepts, the contract's own checks come down to two: a tokenisation by an authorised caller
  under a new id, of a value that is positive as a double, commits exactly when the id matches the contract's narrower
  pattern and the currency is one of its eight.
\<close>

theorem tokenize_request_on_contract:
  assumes "valid_tokenize q" and "verifyRole ctx ''TokenizeAsset'' = Inr ()" and "actor ctx = Inr who"
    and "ws (tq_asset_id q) = None" and "0 < (x :: rat)"
  shows "(\<exists>s. TokenizeAsset ctx ws (tq_asset_id q) (tq_isin q) (tq_asset_type q) (tq_asset_name q) (tq_issuer_lei q) (Fin x)
      (tq_currency q) (tq_issuance_date q) (tq_justification q) = Inr s) \<longleftrightarrow>
    rx_match assetIDPattern (tq_asset_id q) \<and> tq_currency q \<in> set supportedCurrencies"
proof -
  have isin: "ValidateISIN (tq_isin q) = Inr ()" using assms(1) unfolding valid_tokenize_def by (intro isin_shape) blast
  have "rx_match [(is_upper_digit, 20, Some 20)] (tq_issuer_lei q)" using assms(1) unfolding valid_tokenize_def by blast
  then have lei: "ValidateLEI (tq_issuer_lei q) = Inr ()"
    using ascii_utf8 [OF ascii_upper_digit, of "tq_issuer_lei q"] unfolding rx_run by (simp add: ValidateLEI_def)
  show ?thesis using assms isin lei
    by (cases who)
      (auto simp: TokenizeAsset_def wrap_def ValidateAssetID_def ValidateCurrency_def assetExists_def commit_asset_def marshals_def)
qed

subsection \<open>Examples\<close>

definition sample_client :: fabric_client where
  "sample_client = \<lparr>fc_channel_name = ''c'', fc_chaincode_name = ''n'', fc_peers = [], fc_crypto_base = ''b'',
     fc_fabric_cfg = ''f'', fc_peer_bin = ''p'', fc_orderer_ca = ''o''\<rparr>"

definition sample_contract_env :: contract_env where
  "sample_contract_env = \<lparr>ce_parse_float = (\<lambda>s. if s = ''100'' then Some (Fin 100) else None), ce_dn = ''CN=admin'',
     ce_time = \<lparr>dt_year = 1, dt_month = 1, dt_day = 1, dt_hour = 0, dt_minute = 0, dt_second = 0, dt_micro = 0\<rparr>,
     ce_txid = (\<lambda>_. ''t9''), ce_report = (\<lambda>_. ''refused'')\<rparr>"

definition sample_retry_env :: retry_env where
  "sample_retry_env = \<lparr>re_config = sample_retry, re_state = new_retry_state, re_now = 0, re_late = (\<lambda>_. False),
     re_time = (\<lambda>_. 0), re_jitter = (\<lambda>_. 0)\<rparr>"

abbreviation sample_submit :: "world_state submit" where
  "sample_submit \<equiv> contract_submit sample_client (\<lambda>_. None) sample_contract_env sample_retry_env"

definition sample_ledger :: world_state where
  "sample_ledger = foldl cc_step (\<lambda>_. None) sample_txs"

definition sample_asset :: "string \<Rightarrow> asset" where
  "sample_asset status = \<lparr>as_uuid = 7, as_asset_id = sample_asset_id, as_isin = None, as_asset_type = ''OBLIGATION'',
     as_asset_name = ''Bond'', as_issuer_org_id = 1, as_current_owner_id = None, as_nominal_value = 100,
     as_current_value = 90, as_currency = ''EUR'', as_status = status, as_issuance_date = ''2026-01-01'',
     as_fabric_tx_id = None, as_fabric_block_number = None, as_updated_at = sample_time\<rparr>"

definition sample_asset_db :: "string \<Rightarrow> asset_db" where
  "sample_asset_db status = \<lparr>ad_compliance = empty_db, ad_assets = [sample_asset status], ad_transactions = [], ad_valuations = []\<rparr>"

definition sample_asset_env :: asset_env where
  "sample_asset_env = \<lparr>ae_compliance = sample_env [], ae_db_up = False, ae_now = sample_time, ae_today = ''2026-01-02'',
     ae_uuid = 8, ae_tx_uuid = 9, ae_rep = (\<lambda>_. []), ae_reason_text = (\<lambda>_. [])\<rparr>"

definition sample_unfreeze :: unfreeze_request where
  "sample_unfreeze = \<lparr>uq_asset_id = sample_asset_id, uq_justification = ''inquiry closed''\<rparr>"


lemma sample_ledger_inv: "ledger_inv (foldl cc_step (\<lambda>_. None) txs)"
  by (rule contract.inv_run) (simp add: ledger_inv_def)

text \<open>A freeze whose commit fails, and the agreement kept by its compensation.\<close>

definition sample_freeze :: freeze_request where
  "sample_freeze = \<lparr>fq_asset_id = sample_asset_id, fq_reason = ''inquiry opened'', fq_regulatory_ref = ''ESMA-INV-2026-001''\<rparr>"

definition active_ledger :: world_state where
  "active_ledger = foldl cc_step (\<lambda>_. None) (take 2 sample_txs)"

definition sample_steps :: "(asset_env \<times> asset_op) list" where
  "sample_steps =
    [(sample_asset_env, OpFreeze sample_freeze ''admin@reg01-regulateur'' None)]"


text \<open>A ledger that accepts everything, and a database that cannot be reached.\<close>

definition accepting :: "nat submit" where
  "accepting l fn args label = (Suc l, Inr (PDict [(''txID'', PStr ''t1'')]))"

theorem failed_operation_keeps_tables_witness:
  "\<exists>l' db' e. run_op accepting sample_asset_env (0, sample_asset_db ''ACTIF'')
      (OpFreeze sample_freeze ''admin@reg01-regulateur'' None) = ((l', db'), Inl e) \<and> ad_assets db' = [sample_asset ''ACTIF'']"
proof -
  obtain l' db' e where run: "run_op accepting sample_asset_env (0, sample_asset_db ''ACTIF'')
      (OpFreeze sample_freeze ''admin@reg01-regulateur'' None) = ((l', db'), Inl e)"
    by (simp add: freeze_def accepting_def ledger_ids_txid by_asset_id_def sample_asset_db_def sample_asset_def
        sample_freeze_def regulatory_rows_def commit_update_def sample_asset_env_def)
  from failed_operation_keeps_tables [OF run] run show ?thesis by (auto simp: sample_asset_db_def)
qed

definition sample_transfer :: transfer_request where
  "sample_transfer = \<lparr>rq_asset_id = sample_asset_id, rq_to_owner = ''ivan@drago.ru'',
     rq_price = \<lparr>dec_text = ''100'', dec_value = 100\<rparr>, rq_justification = ''sale of the bond''\<rparr>"

definition sample_recipient :: user where
  "sample_recipient = \<lparr>user_id = 7, user_org_id = 1, keycloak_sub = None, user_email = ''ivan@drago.ru'',
     user_first_name = None, user_last_name = None, user_role = ''TRADER'', user_msp_id = None, user_is_active = True,
     user_phone = None, user_last_login = None\<rparr>"

definition transfer_db :: asset_db where
  "transfer_db = \<lparr>ad_compliance = rejected_db\<lparr>cdb_users := [sample_recipient]\<rparr>,
     ad_assets = [sample_asset ''ACTIF''], ad_transactions = [], ad_valuations = []\<rparr>"

lemma sample_transfer_check:
  "\<exists>cdb res. full_check (sample_env []) (rejected_db\<lparr>cdb_users := [sample_recipient]\<rparr>) 7 (Fin 100) sample_asset_id ''OBLIGATION''
     ''ivan@drago.ru'' = (cdb, Inr res) \<and> res_approved res"
proof -
  let ?db = "rejected_db\<lparr>cdb_users := [sample_recipient]\<rparr>"
  have rec: "latest_record ?db 7 = Some rejected_record"
    by (simp add: latest_record_def rejected_db_def empty_db_def rejected_record_def)
  have live: "\<not> dt_less (cr_expires_at rejected_record) (env_now (sample_env []))" "3 \<le> cr_kyc_level rejected_record"
    by (simp_all add: dt_less_def dt_key_def rejected_record_def sample_env_def sample_time_def)
  have clear: "\<not> sr_hit (screen (env_ratio (sample_env [])) (env_sanctions (sample_env [])) ''ivan@drago.ru'')"
    by (simp add: screen_def sample_env_def Let_def lists_to_check_def)
  obtain x where x: "raw_score (load_indicators [] (lower (uuid_str 7))) (Fin 100) = Fin x" "0 \<le> x" "x \<le> 2 / 10"
    using default_raw_score [of "Fin 100"] by auto
  then have "ten_thousandths (clamp_score (raw_score (load_indicators [] (lower (uuid_str 7))) (Fin 100))) \<le> 6000"
    by (simp add: clamp_score_def ten_thousandths_def round_even_le)
  then show ?thesis
    using full_check_decision [OF prod.collapse [symmetric], where env = "sample_env []" and db = ?db and u = 7
        and amount = "Fin 100" and aid = sample_asset_id and aty = "''OBLIGATION''" and nm = "''ivan@drago.ru''"]
      rec live clear by (auto simp: sample_env_def prod_eq_iff)
qed

lemma full_check_keeps_users: "cdb_users (fst (full_check env db u amount aid aty nm)) = cdb_users db"
proof -
  have "cdb_users (fst (aml_score_op ps db u amount)) = cdb_users db" for ps
    by (auto simp: aml_score_op_def Let_def split: option.splits prod.splits)
  moreover have "cdb_users (fst (mica_check d amount aid aty)) = cdb_users d" for d
    by (auto simp: mica_check_def Let_def)
  moreover have "sar_generate d now cnt rnd u t c amount = Some (d', ref) \<Longrightarrow> cdb_users d' = cdb_users d" for d now cnt rnd t c d' ref
    by (auto simp: sar_generate_def Let_def split: if_splits)
  ultimately show ?thesis
    by (auto simp: full_check_def log_block_def log_pass_def Let_def
        split: sum.splits prod.splits option.splits if_splits) (metis fst_conv)+
qed

lemma pg_numeric_100: "pg_numeric 20 4 100 = Some 100" "pg_numeric 20 4 90 = Some 90"
proof -
  have "\<lfloor>(100 :: rat) * 10 ^ 4 + 1 / 2\<rfloor> = 1000000" "\<lfloor>(90 :: rat) * 10 ^ 4 + 1 / 2\<rfloor> = 900000"
    by (simp_all add: floor_eq_iff)
  then show "pg_numeric 20 4 100 = Some 100" "pg_numeric 20 4 90 = Some 90" by (simp_all add: pg_numeric_def)
qed

theorem transfer_settles_witness:
  "\<exists>l' db' row t. transfer accepting (sample_asset_env\<lparr>ae_db_up := True\<rparr>) 0 transfer_db sample_transfer ''admin@bank01'' (Some sample_recipient)
      = (l', db', Inr row) \<and> as_current_owner_id row = Some 7 \<and> ad_transactions db' = [t] \<and> tx_to_owner_id t = Some 7"
proof -
  let ?run = "transfer accepting (sample_asset_env\<lparr>ae_db_up := True\<rparr>) 0 transfer_db sample_transfer ''admin@bank01'' (Some sample_recipient)"
  obtain cdb res where fc: "full_check (sample_env []) (rejected_db\<lparr>cdb_users := [sample_recipient]\<rparr>) 7 (Fin 100) sample_asset_id
      ''OBLIGATION'' ''ivan@drago.ru'' = (cdb, Inr res)" "res_approved res"
    using sample_transfer_check by blast
  have name: "screening_name sample_recipient = ''ivan@drago.ru''"
    by (simp add: screening_name_def sample_recipient_def strip_def is_space_def)
  have price: "xround 100 = Fin 100" using rnd_of_int [of 100] by (simp add: xround_def)
  have users: "cdb_users cdb = [sample_recipient]"
    using full_check_keeps_users [of "sample_env []" "rejected_db\<lparr>cdb_users := [sample_recipient]\<rparr>" 7 "Fin 100" sample_asset_id
        "''OBLIGATION''" "''ivan@drago.ru''"] fc by simp
  obtain l' db' row where run: "?run = (l', db', Inr row)"
    using fc name price users
    by (simp add: transfer_def by_asset_id_def transfer_db_def sample_asset_def sample_transfer_def first_row_def
        sample_recipient_def full_check_wrapper_def accepting_def ledger_ids_txid transfer_rows_def commit_update_def
        asset_fits_def transaction_fits_def optional_in_def users_of_def asset_types_def pg_numeric_100 sample_asset_env_def)
  then show ?thesis using transfer_settles [OF run]
    by (auto simp: transfer_db_def sample_transfer_def sample_recipient_def rejected_db_def)
qed


theorem transfer_never_reaches_contract_witness:
  "\<exists>ws' db' res e. transfer sample_submit sample_asset_env active_ledger transfer_db sample_transfer ''admin@bank01'' None =
      (ws', db', res) \<and> ws' = active_ledger \<and> res = Inl e"
proof -
  obtain ws' db' res where run: "transfer sample_submit sample_asset_env active_ledger transfer_db sample_transfer ''admin@bank01'' None =
      (ws', db', res)"
    by (metis prod.collapse)
  have "ce_parse_float sample_contract_env (rq_justification sample_transfer) = None"
    by (simp add: sample_contract_env_def sample_transfer_def)
  from transfer_never_reaches_contract [OF this run] run show ?thesis by blast
qed

theorem ledger_reads_never_validate_witness:
  "\<exists>u. read_asset (\<lambda>_. True)
      (\<lambda>l fn args label. (l :: nat, Inr (if fn = ''GetAsset'' then convert_keys (asset_json (the (sample_ledger sample_asset_id)))
         else convert_keys (PList [provenance_json \<lparr>pr_TxID = ''t'', pr_Timestamp = sample_time, pr_ActorMSP = ''BANK01MSP'', pr_ActorDN = ''d'',
           pr_Action = ''TOKENISE'', pr_FromOwner = [], pr_ToOwner = ''d'', pr_Amount = Fin 1, pr_Justification = []\<rparr>]))))
      0 (sample_asset_db ''ACTIF''\<lparr>ad_compliance := empty_db\<lparr>cdb_users := [u]\<rparr>\<rparr>) (Some ''kc'') sample_asset_id = Inl UnhandledError"
proof -
  let ?p = "\<lparr>pr_TxID = ''t'', pr_Timestamp = sample_time, pr_ActorMSP = ''BANK01MSP'', pr_ActorDN = ''d'',
           pr_Action = ''TOKENISE'', pr_FromOwner = [], pr_ToOwner = ''d'', pr_Amount = Fin 1, pr_Justification = []\<rparr>"
  let ?ev = "\<lambda>l fn args label. (l :: nat, Inr (if fn = ''GetAsset'' then convert_keys (asset_json (the (sample_ledger sample_asset_id)))
         else convert_keys (PList [provenance_json ?p])))"
  let ?u = "sample_recipient\<lparr>keycloak_sub := Some ''kc'', user_msp_id := Some ''BANK01MSP''\<rparr>"
  let ?db = "sample_asset_db ''ACTIF''\<lparr>ad_compliance := empty_db\<lparr>cdb_users := [?u]\<rparr>\<rparr>"
  have "read_asset (\<lambda>_. True) ?ev 0 ?db (Some ''kc'') sample_asset_id = Inl UnhandledError \<and>
      read_asset_history (\<lambda>_. True) ?ev 0 ?db (Some ''kc'') sample_asset_id = Inl UnhandledError"
    by (rule ledger_reads_never_validate [where label = "''admin@bank01''" and a = "the (sample_ledger sample_asset_id)" and p = ?p
          and ps = "[]" and u = ?u])
      (simp_all add: get_current_user_def sample_recipient_def resolve_identity_def msp_to_identity_def)
  then show ?thesis by blast
qed

definition sample_tokenize_request :: tokenize_request where
  "sample_tokenize_request = \<lparr>tq_asset_id = ''RWA-FR-OBL-2026-002'', tq_isin = ''FR0000000001'', tq_asset_type = ''OBLIGATION'',
     tq_asset_name = ''Bond'', tq_issuer_lei = ''969500AAAAAAAAAAAAAA'', tq_nominal_value = \<lparr>dec_text = ''100'', dec_value = 100\<rparr>,
     tq_currency = ''EUR'', tq_issuance_date = ''2026-01-01'', tq_justification = ''initial issue''\<rparr>"

theorem tokenize_request_on_contract_witness:
  "\<exists>s. TokenizeAsset (sample_ctx ''BANK01MSP'') (\<lambda>_. None) ''RWA-FR-OBL-2026-002'' ''FR0000000001'' ''OBLIGATION'' ''Bond''
     ''969500AAAAAAAAAAAAAA'' (Fin 100) ''EUR'' ''2026-01-01'' ''initial issue'' = Inr s"
proof -
  have "valid_tokenize sample_tokenize_request" by code_simp
  moreover have "rx_match assetIDPattern (tq_asset_id sample_tokenize_request) \<and>
      tq_currency sample_tokenize_request \<in> set supportedCurrencies" by code_simp
  moreover have "verifyRole (sample_ctx ''BANK01MSP'') ''TokenizeAsset'' = Inr ()" by code_simp
  moreover have "\<exists>who. actor (sample_ctx ''BANK01MSP'') = Inr who"
    by (simp add: actor_def sample_ctx_def getClientMSP_def getClientDN_def getTxTimestamp_def)
  ultimately show ?thesis
    using tokenize_request_on_contract [of sample_tokenize_request "sample_ctx ''BANK01MSP''" _ "\<lambda>_. None" 100]
    by (auto simp: sample_tokenize_request_def)
qed

end
