(* ===== verification/Events.thy ===== *)
theory Events
  imports Json Access Interfaces
begin

text \<open>
  The event feed: what the asset service publishes, the listener with its token bucket
  (core/fabric_client/events.py) and the server-sent events of core/features/events/router.py.
  Message texts arrive decoded; a payload that is not UTF-8 is the absent text.
\<close>

subsection \<open>Publication (assets/service.py)\<close>

datatype asset_action = TOKENIZE | TRANSFER | FREEZE | UNFREEZE

fun action_name :: "asset_action \<Rightarrow> string" where
  "action_name TOKENIZE = ''TOKENIZE''"
| "action_name TRANSFER = ''TRANSFER''"
| "action_name FREEZE = ''FREEZE''"
| "action_name UNFREEZE = ''UNFREEZE''"

definition event_message :: "asset_action \<Rightarrow> string \<Rightarrow> string" where
  "event_message a i = action_name a @ '':'' @ i"

subsection \<open>The listener\<close>

record listener_cfg =
  lc_channel :: string
  lc_chaincode :: string
  lc_targets :: "string list"
  lc_required :: "string list"
  lc_rate :: rat

record listener =
  ln_tokens :: rat
  ln_last :: rat

definition VALID_CHAINCODE_ACTIONS :: "string list" where
  "VALID_CHAINCODE_ACTIONS = [''AssetCreated'', ''AssetTransferred'', ''AssetFrozen'', ''AssetUnfrozen'']"

definition event_asset_id_pattern :: "rx_item list" where
  "event_asset_id_pattern =
     rx_lit ''RWA-'' @ [(is_upper, 2, Some 12)] @ rx_lit ''-'' @ [(is_upper, 2, Some 6)] @ rx_lit ''-'' @
     [(is_digit, 4, Some 4)] @ rx_lit ''-'' @ [(is_digit, 3, Some 3)]"

text \<open>The settings hold comma-separated lists.\<close>

definition new_listener_cfg :: "string \<Rightarrow> string \<Rightarrow> string \<Rightarrow> string \<Rightarrow> rat \<Rightarrow> listener_cfg" where
  "new_listener_cfg channel chaincode targets required rate =
     \<lparr>lc_channel = channel, lc_chaincode = chaincode, lc_targets = split_all CHR '','' targets,
      lc_required = split_all CHR '','' required, lc_rate = rate\<rparr>"

definition new_listener :: "listener_cfg \<Rightarrow> rat \<Rightarrow> listener" where
  "new_listener cfg now = \<lparr>ln_tokens = lc_rate cfg, ln_last = now\<rparr>"

definition acquire_token :: "listener_cfg \<Rightarrow> listener \<Rightarrow> rat \<Rightarrow> listener \<times> bool" where
  "acquire_token cfg l now =
     (let elapsed = fsub now (ln_last l);
          t0 = fadd (ln_tokens l) (fmul elapsed (lc_rate cfg));
          t1 = (if lc_rate cfg < t0 then lc_rate cfg else t0) in
      if 1 \<le> t1 then (\<lparr>ln_tokens = fsub t1 1, ln_last = now\<rparr>, True)
      else (\<lparr>ln_tokens = t1, ln_last = now\<rparr>, False))"

text \<open>
  A value that is not a string is no member of the set of actions; the text of one is never empty and
  never matches the pattern of asset ids. The pattern ends with \<open>$\<close>, which also accepts one final
  newline.
\<close>

definition chop_newline :: "string \<Rightarrow> string" where
  "chop_newline s = (if s \<noteq> [] \<and> last s = CHR 0x0A then butlast s else s)"

definition required_present :: "(string \<times> pyval) list \<Rightarrow> string \<Rightarrow> bool" where
  "required_present payload f = (case map_of payload f of None \<Rightarrow> False | Some PNone \<Rightarrow> False | Some v \<Rightarrow> v \<noteq> PStr [])"

definition validate_payload :: "listener_cfg \<Rightarrow> (string \<times> pyval) list \<Rightarrow> bool" where
  "validate_payload cfg payload \<longleftrightarrow>
     list_all (required_present payload) (lc_required cfg) \<and>
     (case map_of payload ''action'' of Some (PStr a) \<Rightarrow> a \<in> set VALID_CHAINCODE_ACTIONS | _ \<Rightarrow> False) \<and>
     (case map_of payload ''txID'' of Some (PStr t) \<Rightarrow> t \<noteq> [] | _ \<Rightarrow> False) \<and>
     (case map_of payload ''assetID'' of
        None \<Rightarrow> True
      | Some (PStr i) \<Rightarrow> i = [] \<or> rx_match event_asset_id_pattern i \<or> rx_match event_asset_id_pattern (chop_newline i)
      | _ \<Rightarrow> False)"

definition structured_event :: "listener_cfg \<Rightarrow> string \<Rightarrow> (string \<times> pyval) list \<Rightarrow> pyval" where
  "structured_event cfg name payload = PDict
     [(''event'', PStr name), (''chaincode'', PStr (lc_chaincode cfg)), (''channel'', PStr (lc_channel cfg)),
      (''payload'', PDict payload)]"

text \<open>
  One event of the chaincode: \<open>None\<close> when it is dropped (wrong name, unreadable, refused or over the
  rate), otherwise the event handed to Redis and the callbacks. The listener without its Redis
  connection publishes nothing but still calls back. Any exception is logged and ends the handling.
\<close>

definition handle_incoming_event ::
  "listener_cfg \<Rightarrow> listener \<Rightarrow> rat \<Rightarrow> string \<Rightarrow> string option \<Rightarrow> listener \<times> pyval option" where
  "handle_incoming_event cfg l now name text_opt =
     (if name \<notin> set (lc_targets cfg) then (l, None)
      else case text_opt of
             None \<Rightarrow> (l, None)
           | Some s \<Rightarrow>
               (case (if s = [] then Some (PDict []) else loads s) of
                  None \<Rightarrow> (l, None)
                | Some v \<Rightarrow>
                    let payload = (case v of PDict kvs \<Rightarrow> kvs | _ \<Rightarrow> []) in
                    if \<not> validate_payload cfg payload then (l, None)
                    else case acquire_token cfg l now of
                           (l', ok) \<Rightarrow> (l', if ok then Some (structured_event cfg name payload) else None)))"

definition action_map :: "string \<Rightarrow> string option" where
  "action_map = map_of [(''TOKENIZE'', ''AssetCreated''), (''TRANSFER'', ''AssetTransferred''), (''FREEZE'', ''AssetFrozen''),
     (''UNFREEZE'', ''AssetUnfrozen'')]"

text \<open>One message of the channel \<open>asset:events\<close>, as the listening loop handles it.\<close>

definition daemon_message :: "listener_cfg \<Rightarrow> listener \<Rightarrow> rat \<Rightarrow> string \<Rightarrow> listener \<times> pyval option" where
  "daemon_message cfg l now data =
     (case split_first CHR '':'' data of
        (_, None) \<Rightarrow> (l, None)
      | (a, Some i) \<Rightarrow>
          let action_raw = strip a; asset_id = strip i in
          (case action_map action_raw of
             None \<Rightarrow> (l, None)
           | Some action \<Rightarrow>
               (case acquire_token cfg l now of
                  (l', ok) \<Rightarrow>
                    (l', if ok then Some (structured_event cfg action
                       [(''action'', PStr action), (''assetID'', PStr asset_id),
                        (''txID'', PStr (''redis-event-'' @ action_raw @ ''-'' @ asset_id)),
                        (''channel'', PStr (lc_channel cfg)), (''chaincode'', PStr (lc_chaincode cfg))]) else None))))"

text \<open>
  Who receives an event: the loop calls every callback and logs what they raise; the handler stops at
  the first that raises. \<open>raising\<close> says for each callback whether it raises.
\<close>

definition daemon_receivers :: "bool list \<Rightarrow> nat" where
  "daemon_receivers raising = length raising"

definition handler_receivers :: "bool list \<Rightarrow> nat" where
  "handler_receivers raising =
     (let n = length (takeWhile Not raising) in if n < length raising then Suc n else n)"

subsection \<open>Server-sent events (events/router.py)\<close>

definition HEARTBEAT_INTERVAL :: rat where "HEARTBEAT_INTERVAL = 15"

definition newline :: char where "newline = CHR 0x0A"

definition data_frame :: "json \<Rightarrow> string" where
  "data_frame j = ''data: '' @ dumps j @ [newline, newline]"

definition connected_frame :: "int \<Rightarrow> string" where
  "connected_frame ts = data_frame (JObj [(''type'', JStr ''CONNECTED''), (''ts'', JInt ts)])"

definition heartbeat_frame :: string where
  "heartbeat_frame = '': heartbeat'' @ [newline, newline]"

definition error_frame :: string where
  "error_frame = data_frame (JObj [(''type'', JStr ''ERROR''), (''message'', JStr ''Stream interrupted'')])"

text \<open>What one turn of the generator's loop saw.\<close>

datatype sse_poll =
    Disconnected
  | NoMessage
  | BadPayload
  | Message string

definition message_json :: "uuid \<Rightarrow> int \<Rightarrow> string \<Rightarrow> json option" where
  "message_json new_id ts raw =
     (case split_first CHR '':'' raw of
        (_, None) \<Rightarrow> None
      | (action, Some i) \<Rightarrow>
          Some (JObj [(''id'', JStr (uuid_str new_id)), (''type'', JStr action), (''asset_id'', JStr i), (''ts'', JInt ts)]))"

text \<open>A turn: the clock, the identifier and the wall-clock second it would use, and the poll.\<close>

type_synonym sse_turn = "rat \<times> uuid \<times> int \<times> sse_poll"

fun stream_frames :: "rat \<Rightarrow> sse_turn list \<Rightarrow> string list" where
  "stream_frames last_hb [] = []"
| "stream_frames last_hb ((now, new_id, ts, poll) # turns) =
     (if poll = Disconnected then []
      else let hb = (HEARTBEAT_INTERVAL \<le> fsub now last_hb) in
           (if hb then [heartbeat_frame] else []) @
           (case poll of Message raw \<Rightarrow> (case message_json new_id ts raw of None \<Rightarrow> [] | Some j \<Rightarrow> [data_frame j]) | _ \<Rightarrow> []) @
           stream_frames (if hb then now else last_hb) turns)"

definition stream_events ::
  "user list \<Rightarrow> string option \<Rightarrow> rat \<Rightarrow> int \<Rightarrow> sse_turn list \<Rightarrow> app_error + string list" where
  "stream_events users sub start ts turns =
     (case get_current_user users sub of
        Inl e \<Rightarrow> Inl e
      | Inr u \<Rightarrow> Inr (connected_frame ts # stream_frames start turns))"

lemma split_event_message: "split_first CHR '':'' (event_message a i) = (action_name a, Some i)"
  using split_first_append [of "CHR '':''" "action_name a" i] by (cases a) (simp_all add: event_message_def)


subsection \<open>The token bucket\<close>

definition bucket_inv :: "listener_cfg \<Rightarrow> listener \<Rightarrow> bool" where
  "bucket_inv cfg l \<longleftrightarrow> 0 \<le> ln_tokens l \<and> ln_tokens l \<le> lc_rate cfg \<and> rnd (ln_tokens l) = ln_tokens l"

definition rate_ok :: "listener_cfg \<Rightarrow> bool" where
  "rate_ok cfg \<longleftrightarrow> 0 < lc_rate cfg \<and> lc_rate cfg < 2 ^ 53 \<and> rnd (lc_rate cfg) = lc_rate cfg"

text \<open>The outcome of a run of requests for a token, at the given clock readings.\<close>

fun bucket_run :: "listener_cfg \<Rightarrow> listener \<Rightarrow> rat list \<Rightarrow> listener \<times> bool list" where
  "bucket_run cfg l [] = (l, [])"
| "bucket_run cfg l (t # ts) =
     (case acquire_token cfg l t of (l', ok) \<Rightarrow> case bucket_run cfg l' ts of (l'', oks) \<Rightarrow> (l'', ok # oks))"

definition refilled :: "listener_cfg \<Rightarrow> listener \<Rightarrow> rat \<Rightarrow> rat" where
  "refilled cfg l now = min (lc_rate cfg) (fadd (ln_tokens l) (fmul (fsub now (ln_last l)) (lc_rate cfg)))"

lemma acquire_refilled:
  "acquire_token cfg l now =
     (if 1 \<le> refilled cfg l now then (\<lparr>ln_tokens = fsub (refilled cfg l now) 1, ln_last = now\<rparr>, True)
      else (\<lparr>ln_tokens = refilled cfg l now, ln_last = now\<rparr>, False))"
  by (simp add: acquire_token_def refilled_def Let_def min_def)

lemma refilled_ok:
  assumes "rate_ok cfg" "bucket_inv cfg l" "ln_last l \<le> now"
  shows "0 \<le> refilled cfg l now" "refilled cfg l now \<le> lc_rate cfg" "rnd (refilled cfg l now) = refilled cfg l now"
proof -
  have "0 \<le> fsub now (ln_last l)" using assms(3) by (simp add: fsub_def rnd_nonneg)
  then have "0 \<le> fmul (fsub now (ln_last l)) (lc_rate cfg)" using assms(1) by (simp add: fmul_def rate_ok_def rnd_nonneg)
  then have s: "0 \<le> ln_tokens l + fmul (fsub now (ln_last l)) (lc_rate cfg)" using assms(2) by (simp add: bucket_inv_def)
  then show "0 \<le> refilled cfg l now" using assms(1) by (simp add: refilled_def fadd_def rate_ok_def rnd_nonneg)
  show "refilled cfg l now \<le> lc_rate cfg" by (simp add: refilled_def)
  show "rnd (refilled cfg l now) = refilled cfg l now"
    using assms(1) rnd_idem [OF s] by (simp add: refilled_def min_def rate_ok_def fadd_def)
qed

lemma take_one: "rate_ok cfg \<Longrightarrow> 1 \<le> x \<Longrightarrow> x \<le> lc_rate cfg \<Longrightarrow> rnd x = x \<Longrightarrow> fsub x 1 = x - 1 \<and> rnd (x - 1) = x - 1"
  using fsub_int [of x 1] rnd_idem [of "x - 1"] by (auto simp: rate_ok_def fsub_def)

lemma acquire_inv:
  assumes "rate_ok cfg" "bucket_inv cfg l" "ln_last l \<le> now"
  shows "bucket_inv cfg (fst (acquire_token cfg l now)) \<and> ln_last (fst (acquire_token cfg l now)) = now \<and>
    ln_tokens (fst (acquire_token cfg l now)) = refilled cfg l now - (if snd (acquire_token cfg l now) then 1 else 0)"
  using refilled_ok [OF assms] take_one [OF assms(1), of "refilled cfg l now"]
  by (auto simp: acquire_refilled bucket_inv_def)

lemma run_inv:
  "rate_ok cfg \<Longrightarrow> bucket_inv cfg l \<Longrightarrow> sorted (ln_last l # ts) \<Longrightarrow>
   bucket_inv cfg (fst (bucket_run cfg l ts)) \<and> (ts \<noteq> [] \<longrightarrow> ln_last (fst (bucket_run cfg l ts)) = last ts)"
proof (induction ts arbitrary: l)
  case (Cons t ts)
  then have a: "bucket_inv cfg (fst (acquire_token cfg l t))" "ln_last (fst (acquire_token cfg l t)) = t"
    using acquire_inv [of cfg l t] by auto
  then show ?case using Cons.IH [of "fst (acquire_token cfg l t)"] Cons.prems
    by (cases ts) (auto split: prod.splits)
qed simp

text \<open>While the clock stands still the bucket is not refilled.\<close>

lemma burst:
  "rate_ok cfg \<Longrightarrow> bucket_inv cfg l \<Longrightarrow> ln_last l = t \<Longrightarrow>
   of_nat (length (filter id (snd (bucket_run cfg l (replicate n t))))) \<le> ln_tokens l"
proof (induction n arbitrary: l)
  case (Suc n)
  have r: "refilled cfg l t = ln_tokens l"
    using Suc.prems by (simp add: refilled_def fsub_def fmul_def fadd_def bucket_inv_def)
  let ?l = "fst (acquire_token cfg l t)"
  have a: "bucket_inv cfg ?l" "ln_last ?l = t" "ln_tokens ?l = ln_tokens l - (if snd (acquire_token cfg l t) then 1 else 0)"
    using acquire_inv [of cfg l t] Suc.prems r by auto
  then show ?case using Suc.IH [OF Suc.prems(1) a(1,2)] by (auto split: prod.splits)
qed (simp add: bucket_inv_def)

text \<open>C33: From its start and for any sequence of events under a clock that never goes back, the listener's
  bucket holds between none and \<open>rate\<close> tokens; at any one clock reading at most \<open>rate\<close> events pass; and
  with a rate below one event per second none ever does.\<close>

theorem token_bucket_bounds:
  assumes "rate_ok cfg" and "sorted (start # ts)"
  shows "bucket_inv cfg (fst (bucket_run cfg (new_listener cfg start) ts)) \<and>
    (\<forall>n t. last (start # ts) \<le> t \<longrightarrow>
      of_nat (length (filter id (snd (bucket_run cfg (fst (bucket_run cfg (new_listener cfg start) ts)) (replicate n t)))))
        \<le> lc_rate cfg) \<and>
    (lc_rate cfg < 1 \<longrightarrow> filter id (snd (bucket_run cfg (new_listener cfg start) ts)) = [])"
proof -
  have new: "bucket_inv cfg (new_listener cfg start)" "ln_last (new_listener cfg start) = start"
    using assms(1) by (auto simp: bucket_inv_def new_listener_def rate_ok_def)
  let ?l = "fst (bucket_run cfg (new_listener cfg start) ts)"
  have l: "bucket_inv cfg ?l" "ln_last ?l = last (start # ts)"
    using run_inv [OF assms(1) new(1), of ts] assms(2) new(2) by (auto)
  have "of_nat (length (filter id (snd (bucket_run cfg ?l (replicate n t))))) \<le> lc_rate cfg" if "last (start # ts) \<le> t" for n t
  proof (cases n)
    case 0
    then show ?thesis using assms(1) by (simp add: rate_ok_def)
  next
    case (Suc k)
    let ?m = "fst (acquire_token cfg ?l t)"
    have m: "bucket_inv cfg ?m" "ln_last ?m = t" "ln_tokens ?m = refilled cfg ?l t - (if snd (acquire_token cfg ?l t) then 1 else 0)"
      using acquire_inv [OF assms(1) l(1), of t] l(2) that by auto
    then show ?thesis
      using burst [OF assms(1) m(1,2), of k] refilled_ok(2) [OF assms(1) l(1), of t] l(2) that Suc by (auto split: prod.splits)
  qed
  moreover have "filter id (snd (bucket_run cfg l' us)) = []" if "lc_rate cfg < 1" for l' us
  proof -
    have "\<not> 1 \<le> refilled cfg k u" for k u using that by (simp add: refilled_def)
    then show ?thesis by (induction us arbitrary: l') (simp_all add: acquire_refilled case_prod_beta)
  qed
  ultimately show ?thesis using l(1) by blast
qed

definition sample_listener_cfg :: "rat \<Rightarrow> listener_cfg" where
  "sample_listener_cfg r = new_listener_cfg ''ch'' ''cc'' ''AssetCreated'' ''txID'' r"

theorem token_bucket_bounds_witness:
  "of_nat (length (filter id (snd (bucket_run (sample_listener_cfg 2)
      (fst (bucket_run (sample_listener_cfg 2) (new_listener (sample_listener_cfg 2) 0) [1, 3])) (replicate 9 3))))) \<le> (2 :: rat)"
proof -
  have "rate_ok (sample_listener_cfg 2)"
    using rnd_of_int [of 2] by (simp add: rate_ok_def sample_listener_cfg_def new_listener_cfg_def)
  from token_bucket_bounds [OF this, of 0 "[1, 3]"] show ?thesis
    by (simp add: sample_listener_cfg_def new_listener_cfg_def)
qed

end
