(* ===== verification/Cli.thy ===== *)
theory Cli
  imports Events
begin

text \<open>
  The command-line client (cli/): the HTTP entry point with retries and an offline cache
  (cli/http/client.py, cli/cache.py, cli/network_state.py), Bearer tokens with one silent refresh
  (cli/http/auth.py), redaction in the local audit log (cli/security/audit.py) and the reader of the
  event stream (cli/api/events.py). What httpx returned for each try is an argument; the operating
  system's keyring holds at most one token bundle.
\<close>

subsection \<open>Requests (http/client.py)\<close>

definition RETRY_ATTEMPTS :: nat where "RETRY_ATTEMPTS = 3"
definition RETRYABLE_CODES :: "nat list" where "RETRYABLE_CODES = [429, 500, 502, 503, 504]"

text \<open>\<open>_RETRY_BACKOFF * 2 ** attempt\<close> seconds.\<close>

definition backoff_delay :: "nat \<Rightarrow> nat" where
  "backoff_delay i = 2 ^ i"

datatype cli_error =
    AuthError nat
  | NotFoundError nat
  | ValidationError nat
  | ServerError nat
  | PxtlyApiError nat
  | NetworkError

definition is_success :: "nat \<Rightarrow> bool" where
  "is_success code \<longleftrightarrow> 200 \<le> code \<and> code \<le> 299"

definition raise_for_response :: "nat \<Rightarrow> cli_error option" where
  "raise_for_response code =
     (if is_success code then None
      else if code \<in> {401, 403} then Some (AuthError code)
      else if code = 404 then Some (NotFoundError code)
      else if code \<in> {400, 422} then Some (ValidationError code)
      else if 500 \<le> code then Some (ServerError code)
      else Some (PxtlyApiError code))"

text \<open>A response body is a JSON value without fractional numbers.\<close>

datatype http_try = Responded nat json | TimedOut | TransportFailed

datatype cli_result = Live nat json | Cached pyval | RaisedCli cli_error

text \<open>What a call did: how often it sent, how long it slept between, and the network state it reported.\<close>

record request_trace =
  rt_sends :: nat
  rt_sleeps :: "nat list"
  rt_online :: "bool option"
  rt_result :: cli_result

text \<open>After the loop: the cached value if there is one, else the last error.\<close>

definition offline :: "nat \<Rightarrow> nat list \<Rightarrow> pyval option \<Rightarrow> cli_error \<Rightarrow> request_trace" where
  "offline sends sleeps cached e =
     \<lparr>rt_sends = sends, rt_sleeps = sleeps, rt_online = Some False,
      rt_result = (if cached = None \<or> cached = Some PNone then RaisedCli e else Cached (the cached))\<rparr>"

definition pause :: "nat \<Rightarrow> nat list \<Rightarrow> nat list" where
  "pause i sleeps = (if i < RETRY_ATTEMPTS - 1 then sleeps @ [backoff_delay i] else sleeps)"

function request_loop :: "(nat \<Rightarrow> http_try) \<Rightarrow> pyval option \<Rightarrow> nat \<Rightarrow> nat list \<Rightarrow> cli_error \<Rightarrow> request_trace" where
  "request_loop out cached i sleeps e =
     (if RETRY_ATTEMPTS \<le> i then offline i sleeps cached e
      else case out i of
             Responded code body \<Rightarrow>
               if code \<in> set RETRYABLE_CODES \<and> i < RETRY_ATTEMPTS - 1
               then request_loop out cached (Suc i) (pause i sleeps) e
               else (case raise_for_response code of
                       None \<Rightarrow> \<lparr>rt_sends = Suc i, rt_sleeps = sleeps, rt_online = Some True, rt_result = Live code body\<rparr>
                     | Some (ServerError c) \<Rightarrow> request_loop out cached (Suc i) (pause i sleeps) (ServerError c)
                     | Some err \<Rightarrow> \<lparr>rt_sends = Suc i, rt_sleeps = sleeps, rt_online = None, rt_result = RaisedCli err\<rparr>)
           | TimedOut \<Rightarrow> request_loop out cached (Suc i) (pause i sleeps) NetworkError
           | TransportFailed \<Rightarrow> offline (Suc i) sleeps cached NetworkError)"
  by pat_completeness auto
termination
  by (relation "measure (\<lambda>(out, cached, i, sleeps, e). RETRY_ATTEMPTS - i)") auto

declare request_loop.simps [simp del]

definition cli_request :: "(nat \<Rightarrow> http_try) \<Rightarrow> pyval option \<Rightarrow> request_trace" where
  "cli_request out cached = request_loop out cached 0 [] NetworkError"

subsection \<open>The offline cache (cache.py)\<close>

record cache_row =
  cw_payload :: string
  cw_cached_at :: rat
  cw_ttl :: rat

type_synonym cache_db = "(string \<times> cache_row) list"

definition cache_set :: "cache_db \<Rightarrow> rat \<Rightarrow> string \<Rightarrow> json \<Rightarrow> rat \<Rightarrow> cache_db" where
  "cache_set db now key payload ttl =
     (key, \<lparr>cw_payload = dumps payload, cw_cached_at = now, cw_ttl = ttl\<rparr>) # filter (\<lambda>p. fst p \<noteq> key) db"

definition cache_delete :: "cache_db \<Rightarrow> string \<Rightarrow> cache_db" where
  "cache_delete db key = filter (\<lambda>p. fst p \<noteq> key) db"

definition cache_get :: "cache_db \<Rightarrow> rat \<Rightarrow> string \<Rightarrow> cache_db \<times> pyval option" where
  "cache_get db now key =
     (case map_of db key of
        None \<Rightarrow> (db, None)
      | Some row \<Rightarrow>
          if 0 < cw_ttl row \<and> cw_ttl row < fsub now (cw_cached_at row) then (cache_delete db key, None)
          else (db, loads (cw_payload row)))"

subsection \<open>Network state (network_state.py)\<close>

record net_state =
  ns_online :: "bool option"
  ns_callbacks :: "nat list"

definition is_online :: "net_state \<Rightarrow> bool" where
  "is_online s = (case ns_online s of None \<Rightarrow> True | Some b \<Rightarrow> b)"

text \<open>The callbacks to fire, after the lock is released.\<close>

definition set_online :: "net_state \<Rightarrow> bool \<Rightarrow> net_state \<times> nat list" where
  "set_online s b = (if ns_online s \<noteq> Some b then (s\<lparr>ns_online := Some b\<rparr>, ns_callbacks s) else (s, []))"

definition register_callback :: "net_state \<Rightarrow> nat \<Rightarrow> net_state" where
  "register_callback s cb = (if cb \<in> set (ns_callbacks s) then s else s\<lparr>ns_callbacks := ns_callbacks s @ [cb]\<rparr>)"

definition unregister_callback :: "net_state \<Rightarrow> nat \<Rightarrow> net_state" where
  "unregister_callback s cb = s\<lparr>ns_callbacks := remove1 cb (ns_callbacks s)\<rparr>"

subsection \<open>One call of the client\<close>

record cli_state =
  cs_cache :: cache_db
  cs_net :: net_state

text \<open>
  \<open>request(..., cache_key, cache_ttl)\<close>: a successful answer reports the network up and is written to
  the cache, the end of the tries reports it down and reads the cache, a client error touches neither.
  The rows of the cache are written by \<open>cache_set\<close> only, so reading one always decodes.
\<close>

definition request_op ::
  "cli_state \<Rightarrow> rat \<Rightarrow> (nat \<Rightarrow> http_try) \<Rightarrow> string option \<Rightarrow> rat \<Rightarrow> cli_state \<times> request_trace" where
  "request_op s now out cache_key cache_ttl =
     (let look = (case cache_key of None \<Rightarrow> (cs_cache s, None) | Some k \<Rightarrow> if k = [] then (cs_cache s, None) else cache_get (cs_cache s) now k);
          t = cli_request out (snd look) in
      case rt_online t of
        None \<Rightarrow> (s, t)
      | Some True \<Rightarrow>
          (\<lparr>cs_cache = (case (cache_key, rt_result t) of
              (Some k, Live c body) \<Rightarrow> if k = [] then cs_cache s else cache_set (cs_cache s) now k body cache_ttl
            | _ \<Rightarrow> cs_cache s), cs_net = fst (set_online (cs_net s) True)\<rparr>, t)
      | Some False \<Rightarrow> (\<lparr>cs_cache = fst look, cs_net = fst (set_online (cs_net s) False)\<rparr>, t))"

subsection \<open>Tokens (http/auth.py, security/tokens.py)\<close>

record token_bundle =
  tb_access_token :: string
  tb_refresh_token :: "string option"
  tb_token_type :: string
  tb_expires_at :: rat
  tb_refresh_expires_at :: rat

definition is_access_expired :: "token_bundle \<Rightarrow> rat \<Rightarrow> bool" where
  "is_access_expired b now \<longleftrightarrow> tb_expires_at b \<noteq> 0 \<and> fsub (tb_expires_at b) 30 \<le> now"

definition is_refresh_expired :: "token_bundle \<Rightarrow> rat \<Rightarrow> bool" where
  "is_refresh_expired b now \<longleftrightarrow>
     tb_refresh_expires_at b = 0 \<or> \<not> truthy (tb_refresh_token b) \<or> fsub (tb_refresh_expires_at b) 30 \<le> now"

definition is_auth_free :: "string \<Rightarrow> bool" where
  "is_auth_free url \<longleftrightarrow> list_ex (contains url) [''openid-connect/token'', ''openid-connect/auth'', ''/health'']"

text \<open>\<open>reply\<close>: the new bundle when Keycloak answered 200; \<open>None\<close> otherwise.\<close>

definition attempt_refresh :: "token_bundle \<Rightarrow> rat \<Rightarrow> token_bundle option \<Rightarrow> token_bundle option" where
  "attempt_refresh b now reply =
     (if \<not> truthy (tb_refresh_token b) \<or> is_refresh_expired b now then None else reply)"

definition auth_header :: "token_bundle \<Rightarrow> string" where
  "auth_header b = tb_token_type b @ '' '' @ tb_access_token b"

text \<open>
  One request through the flow: the Authorization headers of the requests sent, in order (\<open>None\<close>: sent
  without one), and the keyring afterwards. \<open>respond\<close> is the status the API gives to a header.
\<close>

definition auth_flow ::
  "string \<Rightarrow> token_bundle option \<Rightarrow> rat \<Rightarrow> token_bundle option \<Rightarrow> (string option \<Rightarrow> nat)
    \<Rightarrow> string option list \<times> token_bundle option" where
  "auth_flow url keyring now reply respond =
     (if is_auth_free url then ([None], keyring)
      else case keyring of
             None \<Rightarrow> ([None], None)
           | Some b \<Rightarrow>
               if respond (Some (auth_header b)) \<noteq> 401 then ([Some (auth_header b)], Some b)
               else case attempt_refresh b now reply of
                      None \<Rightarrow> ([Some (auth_header b)], None)
                    | Some b' \<Rightarrow> ([Some (auth_header b), Some (auth_header b')], Some b'))"

subsection \<open>Redaction (security/audit.py)\<close>

definition REDACT_KEYS :: "string list" where
  "REDACT_KEYS = [''password'', ''client_secret'', ''secret'', ''token'', ''access_token'', ''refresh_token'', ''api_key'',
     ''private_key'', ''code_verifier'']"

fun redact :: "pyval \<Rightarrow> pyval" where
  "redact (PDict kvs) = PDict (map (\<lambda>(k, v). (k, if lower k \<in> set REDACT_KEYS then PStr ''<redacted>'' else redact v)) kvs)"
| "redact (PList vs) = PList (map redact vs)"
| "redact v = v"

subsection \<open>Reading the event stream (api/events.py)\<close>

record sse_event =
  se_type :: string
  se_payload :: pyval
  se_raw :: string

definition finish_event :: "string \<Rightarrow> string list \<Rightarrow> sse_event" where
  "finish_event event_type data_lines =
     (let raw = join [newline] data_lines in
      \<lparr>se_type = event_type, se_payload = (case loads raw of None \<Rightarrow> PDict [] | Some v \<Rightarrow> v), se_raw = raw\<rparr>)"

fun parse_event_stream :: "string \<Rightarrow> string list \<Rightarrow> string list \<Rightarrow> sse_event list" where
  "parse_event_stream event_type data_lines [] = []"
| "parse_event_stream event_type data_lines (raw_line # lines) =
     (let line = strip raw_line in
      if starts_with line ''event:''
      then parse_event_stream (let t = strip (drop 6 line) in if t = [] then ''message'' else t) data_lines lines
      else if starts_with line ''data:'' then parse_event_stream event_type (data_lines @ [strip (drop 5 line)]) lines
      else if line = [] \<and> data_lines \<noteq> []
      then finish_event event_type data_lines # parse_event_stream ''message'' [] lines
      else parse_event_stream event_type data_lines lines)"

text \<open>
  The synchronous reader: one list of lines per connection; it reconnects when a connection ends and
  stops after \<open>max_events\<close> events if that is given and not zero.
\<close>

definition read_stream :: "nat option \<Rightarrow> string list list \<Rightarrow> sse_event list" where
  "read_stream max_events connections =
     (let evs = concat (map (parse_event_stream ''message'' []) connections) in
      case max_events of None \<Rightarrow> evs | Some n \<Rightarrow> if n = 0 then evs else take n evs)"


subsection \<open>Retries\<close>

definition again :: "http_try \<Rightarrow> bool" where
  "again t \<longleftrightarrow> (case t of Responded c _ \<Rightarrow> c \<in> set RETRYABLE_CODES \<or> 500 \<le> c | TimedOut \<Rightarrow> True | TransportFailed \<Rightarrow> False)"

definition answer :: "pyval option \<Rightarrow> http_try \<Rightarrow> cli_result" where
  "answer cached t = (case t of
     Responded c body \<Rightarrow> (case raise_for_response c of None \<Rightarrow> Live c body | Some e \<Rightarrow> RaisedCli e)
   | _ \<Rightarrow> rt_result (offline 0 [] cached NetworkError))"

lemma raise_again: "again (Responded c b) \<Longrightarrow> c \<notin> set RETRYABLE_CODES \<Longrightarrow> raise_for_response c = Some (ServerError c)"
  by (auto simp: again_def raise_for_response_def is_success_def)

lemma raise_not_again: "\<not> again (Responded c b) \<Longrightarrow> raise_for_response c \<noteq> Some (ServerError d)"
  by (auto simp: again_def raise_for_response_def)

lemma loop_again:
  "i < 2 \<Longrightarrow> again (out i) \<Longrightarrow>
   \<exists>e'. request_loop out cached i sl e = request_loop out cached (Suc i) (sl @ [2 ^ i]) e'"
  by (subst request_loop.simps)
    (auto simp: RETRY_ATTEMPTS_def pause_def backoff_delay_def again_def raise_again split: http_try.splits)

lemma loop_stop:
  assumes "i < 3" "\<not> again (out i)"
  shows "rt_sends (request_loop out cached i sl e) = Suc i \<and> rt_sleeps (request_loop out cached i sl e) = sl \<and>
    rt_result (request_loop out cached i sl e) = answer cached (out i)"
proof (cases "out i")
  case (Responded c b)
  then have "c \<notin> set RETRYABLE_CODES" "\<And>d. raise_for_response c \<noteq> Some (ServerError d)"
    using assms(2) raise_not_again [of c b] by (auto simp: again_def)
  then show ?thesis using assms(1) Responded
    by (subst (1 2 3) request_loop.simps) (auto simp: RETRY_ATTEMPTS_def answer_def split: option.splits cli_error.splits)
next
  case TransportFailed
  then show ?thesis using assms(1)
    by (subst (1 2 3) request_loop.simps) (auto simp: RETRY_ATTEMPTS_def answer_def offline_def)
qed (use assms(2) in \<open>simp add: again_def\<close>)

lemma loop_last:
  assumes "again (out 2)"
  shows "rt_sends (request_loop out cached 2 sl e) = 3 \<and> rt_sleeps (request_loop out cached 2 sl e) = sl \<and>
    (\<nexists>c b. rt_result (request_loop out cached 2 sl e) = Live c b)"
proof -
  have "request_loop out cached 3 sl e' = offline 3 sl cached e'" for e'
    by (subst request_loop.simps) (simp add: RETRY_ATTEMPTS_def)
  moreover have "\<not> is_success c" if "c \<in> set RETRYABLE_CODES \<or> 500 \<le> c" for c
    using that by (auto simp: RETRYABLE_CODES_def is_success_def)
  ultimately show ?thesis using assms
    by (subst (1 2 3) request_loop.simps)
      (auto simp: RETRY_ATTEMPTS_def again_def pause_def offline_def numeral_3_eq_3 [symmetric] raise_for_response_def
        split: http_try.splits option.splits cli_error.splits)
qed

lemma loop_reaches: "i \<le> 2 \<Longrightarrow> (\<And>j. j < i \<Longrightarrow> again (out j)) \<Longrightarrow>
   \<exists>e'. request_loop out cached 0 [] e = request_loop out cached i (map (\<lambda>j. 2 ^ j) [0 ..< i]) e'"
proof (induction i)
  case (Suc i)
  then obtain e' where "request_loop out cached 0 [] e = request_loop out cached i (map (\<lambda>j. 2 ^ j) [0 ..< i]) e'" by auto
  moreover have "i < 2" "again (out i)" using Suc.prems by auto
  ultimately show ?case using loop_again [of i out cached "map (\<lambda>j. 2 ^ j) [0 ..< i]" e'] by auto
qed auto

text \<open>A request of the client is settled by the first try that is neither a server error, nor a status
  worth retrying, nor a time-out: it was sent exactly that often, slept 1 and 2 seconds in between, and
  returns that try's answer (after a transport failure, the cached value). When all three tries
  invite another, it was sent three times and returns no live answer.\<close>

theorem cli_request_first_answer:
  "(\<forall>i < 3. (\<forall>j < i. again (out j)) \<and> \<not> again (out i) \<longrightarrow>
     rt_sends (cli_request out cached) = Suc i \<and> rt_sleeps (cli_request out cached) = map (\<lambda>j. 2 ^ j) [0 ..< i] \<and>
     rt_result (cli_request out cached) = answer cached (out i)) \<and>
   ((\<forall>i < 3. again (out i)) \<longrightarrow>
     rt_sends (cli_request out cached) = 3 \<and> rt_sleeps (cli_request out cached) = [1, 2] \<and>
     (\<nexists>c b. rt_result (cli_request out cached) = Live c b))"
proof (intro conjI allI impI)
  fix i :: nat assume i: "i < 3" and first: "(\<forall>j < i. again (out j)) \<and> \<not> again (out i)"
  obtain e' where e: "cli_request out cached = request_loop out cached i (map (\<lambda>j. 2 ^ j) [0 ..< i]) e'"
    using loop_reaches [of i out cached NetworkError] i first by (auto simp: cli_request_def)
  show "rt_sends (cli_request out cached) = Suc i" "rt_sleeps (cli_request out cached) = map (\<lambda>j. 2 ^ j) [0 ..< i]"
    "rt_result (cli_request out cached) = answer cached (out i)"
    using loop_stop [of i out] i first unfolding e by auto
next
  assume "\<forall>i < 3. again (out i)"
  then have "again (out 2)" and "\<exists>e'. cli_request out cached = request_loop out cached 2 (map (\<lambda>j. 2 ^ j) [0 ..< 2]) e'"
    using loop_reaches [of 2 out cached NetworkError] by (auto simp: cli_request_def)
  moreover have "map (\<lambda>j. 2 ^ j) [0 ..< 2] = [1, 2 :: nat]" by (simp add: upt_rec)
  ultimately show "rt_sends (cli_request out cached) = 3" "rt_sleeps (cli_request out cached) = [1, 2]"
    "\<nexists>c b. rt_result (cli_request out cached) = Live c b"
    using loop_last [of out] by auto
qed


definition sample_tries :: "nat \<Rightarrow> http_try" where
  "sample_tries i = (if i = 0 then TimedOut else if i = 1 then Responded 503 JNull else Responded 201 (JStr ''ok''))"

theorem cli_request_first_answer_witness:
  "rt_sends (cli_request sample_tries None) = 3 \<and> rt_sleeps (cli_request sample_tries None) = [1, 2] \<and>
   rt_result (cli_request sample_tries None) = Live 201 (JStr ''ok'')"
proof -
  have "(\<forall>j < 2. again (sample_tries j)) \<and> \<not> again (sample_tries 2)"
    by (auto simp: sample_tries_def again_def RETRYABLE_CODES_def less_2_cases_iff)
  then show ?thesis using cli_request_first_answer [of sample_tries None]
    by (auto simp: upt_rec sample_tries_def answer_def raise_for_response_def is_success_def dest!: spec [of _ 2])
qed

subsection \<open>Redaction\<close>

text \<open>Every value stored under a secret name, at any depth.\<close>

fun secrets :: "pyval \<Rightarrow> pyval list" where
  "secrets (PDict kvs) = concat (map (\<lambda>(k, v). (if lower k \<in> set REDACT_KEYS then [v] else []) @ secrets v) kvs)"
| "secrets (PList vs) = concat (map secrets vs)"
| "secrets v = []"

text \<open>In a redacted value every value under a secret name, at any depth, is the marker; redacting again
  changes nothing, and a value without secret names is written as it is.\<close>

theorem redact_hides_secrets:
  "(\<forall>s \<in> set (secrets (redact v)). s = PStr ''<redacted>'') \<and> redact (redact v) = redact v \<and>
   (secrets v = [] \<longrightarrow> redact v = v)"
proof (intro conjI impI)
  show "\<forall>s \<in> set (secrets (redact v)). s = PStr ''<redacted>''"
    by (induction v rule: redact.induct) (auto split: if_splits)
  show "redact (redact v) = redact v"
    by (induction v rule: redact.induct) auto
  show "redact v = v" if "secrets v = []"
    using that by (induction v rule: redact.induct) (auto intro!: map_idI split: if_splits)
qed


theorem redact_hides_secrets_witness:
  "secrets (PDict [(''Token'', PStr ''t''), (''body'', PList [PDict [(''password'', PInt 1)]])]) = [PStr ''t'', PInt 1] \<and>
   set (secrets (redact (PDict [(''Token'', PStr ''t''), (''body'', PList [PDict [(''password'', PInt 1)]])]))) \<subseteq> {PStr ''<redacted>''}"
    (is "secrets ?v = ?s \<and> _")
proof (intro conjI subsetI)
  show "secrets ?v = ?s" by code_simp
  show "x \<in> {PStr ''<redacted>''}" if "x \<in> set (secrets (redact ?v))" for x
    using redact_hides_secrets [of ?v] that by blast
qed

subsection \<open>Frames and the reader\<close>

definition printable :: "char \<Rightarrow> bool" where
  "printable c \<longleftrightarrow> 32 \<le> (of_char c :: nat) \<and> (of_char c :: nat) \<le> 126"

lemma hex_digit_printable: "n < 16 \<Longrightarrow> printable (hex_digit n)"
  by (auto simp: hex_digit_def printable_def)

lemma escape_printable: "list_all printable (json_escape_char c)"
proof -
  have "(of_char c :: nat) < 16 * 16" by simp
  then have "(of_char c :: nat) div 16 < 16" by (rule less_mult_imp_div_less)
  then have "printable (hex_digit (of_char c div 16))" "printable (hex_digit (of_char c mod 16))"
    by (simp_all add: hex_digit_printable)
  then show ?thesis by (simp add: json_escape_char_def Let_def printable_def)
qed

lemma json_string_printable: "list_all printable (json_string s)"
proof -
  have "list_all printable (concat (map json_escape_char s))" using escape_printable by (induction s) auto
  then show ?thesis by (simp add: json_string_def printable_def)
qed

lemma dec_int_printable: "list_all printable (dec_int i)"
proof -
  have "list_all printable (dec_nat n)" for n
    using dec_nat_digits [of n] by (rule list.pred_mono_strong) (auto simp: is_digit_def printable_def Let_def)
  then show ?thesis by (simp add: dec_int_def printable_def)
qed

lemma join_printable: "list_all (list_all printable) ts \<Longrightarrow> list_all printable sep \<Longrightarrow> list_all printable (join sep ts)"
  by (induction sep ts rule: join.induct) auto

lemma printable_literals:
  "list_all printable '', ''" "list_all printable '': ''" "printable (CHR ''['')" "printable (CHR '']'')" "printable (CHR ''{'')"
  "printable (CHR ''}'')" "list_all printable ''null''" "list_all printable ''true''" "list_all printable ''false''"
  by (simp_all add: printable_def)

lemma dumps_printable: "list_all printable (dumps j)"
proof (induction j rule: dumps.induct)
  case (5 js)
  then have "list_all (list_all printable) (map dumps js)" by (simp add: list_all_iff)
  from join_printable [OF this printable_literals(1)] show ?case by (simp add: printable_literals)
next
  case (6 kvs)
  have "list_all (list_all printable) (map (\<lambda>(k, v). json_string k @ '': '' @ dumps v) kvs)"
    unfolding list_all_iff [where P = "list_all printable"]
    using 6 json_string_printable printable_literals(2) by fastforce
  from join_printable [OF this printable_literals(1)] show ?case by (simp add: printable_literals)
qed (simp_all only: dumps.simps json_string_printable dec_int_printable printable_literals split: if_splits, simp)

lemma printable_no_newline: "list_all printable s \<Longrightarrow> newline \<notin> set s"
  by (auto simp: list_all_iff printable_def newline_def)

text \<open>The lines of the stream, and what one frame of an object becomes.\<close>

definition frame_json :: "json \<Rightarrow> bool" where
  "frame_json j \<longleftrightarrow> small_ints j \<and> (\<exists>kvs. j = JObj kvs)"

definition client_event :: "json \<Rightarrow> sse_event" where
  "client_event j = \<lparr>se_type = ''message'', se_payload = embed j, se_raw = dumps j\<rparr>"

lemma parse_data_lines:
  assumes "frame_json j"
  shows "parse_event_stream ''message'' [] ((''data: '' @ dumps j) # [] # lines) =
    client_event j # parse_event_stream ''message'' [] lines"
proof -
  obtain kvs where j: "j = JObj kvs" using assms by (auto simp: frame_json_def)
  have d: "\<exists>mid. dumps j = CHR ''{'' # mid @ [CHR ''}'']" by (simp add: j)
  then have "strip (''data: '' @ dumps j) = ''data: '' @ dumps j" "strip (CHR '' '' # dumps j) = strip (dumps j)" "strip (dumps j) = dumps j"
    by (auto simp: is_space_def strip_def intro!: strip_id)
  then show ?thesis using loads_dumps [of j] assms
    by (simp add: starts_with_def strip_def finish_event_def client_event_def frame_json_def)
qed


lemma parse_data_frame:
  "frame_json j \<Longrightarrow> parse_event_stream ''message'' [] (split_all newline (data_frame j @ t)) =
     client_event j # parse_event_stream ''message'' [] (split_all newline t)"
proof -
  assume j: "frame_json j"
  have "newline \<notin> set (''data: '' @ dumps j)"
    using printable_no_newline [OF dumps_printable, of j] by (simp add: newline_def)
  then have "split_all newline (data_frame j @ t) = (''data: '' @ dumps j) # [] # split_all newline t"
    using split_all_append [of newline "''data: '' @ dumps j" "newline # t"] by (simp add: data_frame_def)
  then show ?thesis by (simp only: parse_data_lines [OF j])
qed

lemma parse_heartbeat:
  "parse_event_stream ''message'' [] (split_all newline (heartbeat_frame @ t)) =
     parse_event_stream ''message'' [] (split_all newline t)"
proof -
  have "split_all newline (heartbeat_frame @ t) = '': heartbeat'' # [] # split_all newline t"
    by (simp add: heartbeat_frame_def newline_def)
  moreover have "strip '': heartbeat'' = '': heartbeat''" by (intro strip_id) (simp_all add: is_space_def)
  ultimately show ?thesis by (simp add: starts_with_def strip_def)
qed

fun sent_json :: "sse_turn list \<Rightarrow> json list" where
  "sent_json [] = []"
| "sent_json ((now, new_id, ts, poll) # turns) =
     (case poll of
        Disconnected \<Rightarrow> []
      | Message raw \<Rightarrow> (case message_json new_id ts raw of None \<Rightarrow> sent_json turns | Some j \<Rightarrow> j # sent_json turns)
      | _ \<Rightarrow> sent_json turns)"

definition short_int :: "int \<Rightarrow> bool" where
  "short_int i \<longleftrightarrow> length (dec_nat (nat \<bar>i\<bar>)) \<le> 4300"

lemma message_json_frame: "short_int ts \<Longrightarrow> message_json i ts raw = Some j \<Longrightarrow> frame_json j"
  by (auto simp: message_json_def frame_json_def short_int_def split: prod.splits option.splits)

lemma parse_stream_frames:
  "list_all (\<lambda>(now, i, ts, poll). short_int ts) turns \<Longrightarrow>
   parse_event_stream ''message'' [] (split_all newline (concat (stream_frames hb turns))) = map client_event (sent_json turns)"
proof (induction turns arbitrary: hb rule: sent_json.induct)
  case (2 now i ts poll turns)
  let ?hb = "HEARTBEAT_INTERVAL \<le> fsub now hb" and ?hb' = "if HEARTBEAT_INTERVAL \<le> fsub now hb then now else hb"
  have ts: "short_int ts" and rest: "list_all (\<lambda>(now, i, ts, poll). short_int ts) turns" using "2.prems" by auto
  have beat: "parse_event_stream ''message'' [] (split_all newline (concat (if ?hb then [heartbeat_frame] else []) @ t)) =
      parse_event_stream ''message'' [] (split_all newline t)" for t
    by (simp add: parse_heartbeat)
  show ?case
  proof (cases poll)
    case (Message raw)
    then show ?thesis
    proof (cases "message_json i ts raw")
      case None
      then show ?thesis using Message "2.IH" rest beat by (simp add: Let_def)
    next
      case (Some j)
      then show ?thesis using Message "2.IH" rest beat parse_data_frame message_json_frame [OF ts Some]
        by (simp add: Let_def)
    qed
  qed (use "2.IH" rest beat in \<open>simp_all add: Let_def strip_def starts_with_def\<close>)
qed (simp add: strip_def starts_with_def)



definition sample_viewer :: user where
  "sample_viewer = \<lparr>user_id = 3, user_org_id = 1, keycloak_sub = Some ''v'', user_email = [], user_first_name = None,
     user_last_name = None, user_role = ''TRADER'', user_msp_id = None, user_is_active = True, user_phone = None,
     user_last_login = None\<rparr>"


subsection \<open>Silent refresh\<close>

text \<open>One request through the authentication flow is sent at most twice, carries no token to an
  address that needs none, and otherwise only tokens of the stored bundle or of the bundle Keycloak
  just returned; a second request is sent only after a 401 and a refresh, and a 401 without a refresh
  empties the keyring.\<close>

theorem auth_flow_refreshes_once:
  assumes "auth_flow url keyring now reply respond = (sent, keyring')"
  shows "length sent \<le> 2 \<and> sent \<noteq> [] \<and> (is_auth_free url \<longrightarrow> sent = [None] \<and> keyring' = keyring) \<and>
    (\<forall>h. Some h \<in> set sent \<longrightarrow> (\<exists>b. (keyring = Some b \<or> reply = Some b \<and> keyring' = Some b) \<and> h = auth_header b)) \<and>
    (length sent = 2 \<longrightarrow> respond (hd sent) = 401 \<and> (\<exists>b. keyring = Some b \<and> \<not> is_refresh_expired b now)) \<and>
    (keyring' = None \<and> keyring \<noteq> None \<longrightarrow> respond (hd sent) = 401)"
  using assms
  by (auto simp: auth_flow_def attempt_refresh_def split: if_splits option.splits)

definition sample_bundle :: "string \<Rightarrow> token_bundle" where
  "sample_bundle t = \<lparr>tb_access_token = t, tb_refresh_token = Some ''r'', tb_token_type = ''Bearer'', tb_expires_at = 50, tb_refresh_expires_at = 5000\<rparr>"

theorem auth_flow_refreshes_once_witness:
  "\<exists>sent. auth_flow ''https://api/v1/assets'' (Some (sample_bundle ''old'')) 100 (Some (sample_bundle ''new'')) (\<lambda>h. 401)
     = (sent, Some (sample_bundle ''new'')) \<and> length sent \<le> 2"
proof -
  have "fsub 5000 30 = 4970" using rnd_of_int [of 4970] by (simp add: fsub_def)
  then have run: "auth_flow ''https://api/v1/assets'' (Some (sample_bundle ''old'')) 100 (Some (sample_bundle ''new'')) (\<lambda>h. 401)
     = ([Some (auth_header (sample_bundle ''old'')), Some (auth_header (sample_bundle ''new''))], Some (sample_bundle ''new''))"
    by (simp add: auth_flow_def is_auth_free_def starts_with_def attempt_refresh_def is_refresh_expired_def sample_bundle_def)
  from auth_flow_refreshes_once [OF run] run show ?thesis by auto
qed

subsection \<open>The cache\<close>

lemma cache_roundtrip:
  assumes "small_ints j" "ttl \<le> 0 \<or> fsub later now \<le> ttl"
  shows "snd (cache_get (cache_set db now k j ttl) later k) = Some (embed j)"
    and "k' \<noteq> k \<Longrightarrow> snd (cache_get (cache_set db now k j ttl) later k') = snd (cache_get db later k')"
proof -
  show "snd (cache_get (cache_set db now k j ttl) later k) = Some (embed j)"
    using assms loads_dumps [OF assms(1)] by (auto simp: cache_get_def cache_set_def)
  have "map_of (filter (\<lambda>p. fst p \<noteq> k) db) k' = map_of db k'" if "k' \<noteq> k" using that by (induction db) auto
  then show "k' \<noteq> k \<Longrightarrow> snd (cache_get (cache_set db now k j ttl) later k') = snd (cache_get db later k')"
    by (auto simp: cache_get_def cache_set_def split: option.splits)
qed

subsection \<open>Network state\<close>

lemma set_online_fires_on_change:
  "snd (set_online s b) = (if ns_online s = Some b then [] else ns_callbacks s)"
  "is_online (fst (set_online s b)) = b"
  "snd (set_online (fst (set_online s b)) b) = []"
  by (auto simp: set_online_def is_online_def)


subsection \<open>Working offline\<close>

text \<open>A call of the client: the clock, the outcome of each try, its cache key and time to live.\<close>

type_synonym cli_call = "rat \<times> (nat \<Rightarrow> http_try) \<times> string option \<times> rat"

definition call_step :: "cli_state \<Rightarrow> cli_call \<Rightarrow> cli_state" where
  "call_step s c = (case c of (now, out, k, ttl) \<Rightarrow> fst (request_op s now out k ttl))"

lemma map_of_drop_key: "k' \<noteq> k \<Longrightarrow> map_of (filter (\<lambda>p. fst p \<noteq> k) db) k' = map_of db k'"
  by (induction db) auto

lemma call_keeps_row:
  assumes "fst (snd (snd c)) \<noteq> Some k"
  shows "map_of (cs_cache (call_step s c)) k = map_of (cs_cache s) k"
proof -
  obtain now out key ttl where c: "c = (now, out, key, ttl)" by (metis prod_cases4)
  have "map_of (fst (cache_get db now k')) k = map_of db k" if "k' \<noteq> k" for db k'
    using that by (auto simp: cache_get_def cache_delete_def map_of_drop_key split: option.splits)
  moreover have "map_of (cache_set db now k' body ttl) k = map_of db k" if "k' \<noteq> k" for db k' body
    using that by (auto simp: cache_set_def map_of_drop_key)
  ultimately show ?thesis using assms
    by (auto simp: c call_step_def request_op_def Let_def split: option.splits bool.splits cli_result.splits)
qed

lemma calls_keep_row:
  "list_all (\<lambda>c. fst (snd (snd c)) \<noteq> Some k) cs \<Longrightarrow> map_of (cs_cache (foldl call_step s cs)) k = map_of (cs_cache s) k"
  by (induction cs arbitrary: s) (auto simp: call_keeps_row)

lemma live_online: "rt_result (request_loop out cached i sl e) = Live c body \<Longrightarrow> rt_online (request_loop out cached i sl e) = Some True"
proof (induction "3 - i" arbitrary: i sl e)
  case 0
  then have "request_loop out cached i sl e = offline i sl cached e" by (subst request_loop.simps) (simp add: RETRY_ATTEMPTS_def)
  then show ?case using 0 by (simp add: offline_def split: if_splits)
next
  case (Suc n)
  have step: "rt_result (request_loop out cached (Suc i) s e') = Live c body \<Longrightarrow>
      rt_online (request_loop out cached (Suc i) s e') = Some True" for s e'
    using Suc.hyps(1) [of "Suc i" s e'] Suc.hyps(2) by simp
  define t where "t = request_loop out cached i sl e"
  have t: "t = (if RETRY_ATTEMPTS \<le> i then offline i sl cached e
      else case out i of
             Responded code b \<Rightarrow>
               if code \<in> set RETRYABLE_CODES \<and> i < RETRY_ATTEMPTS - 1
               then request_loop out cached (Suc i) (pause i sl) e
               else (case raise_for_response code of
                       None \<Rightarrow> \<lparr>rt_sends = Suc i, rt_sleeps = sl, rt_online = Some True, rt_result = Live code b\<rparr>
                     | Some (ServerError c) \<Rightarrow> request_loop out cached (Suc i) (pause i sl) (ServerError c)
                     | Some err \<Rightarrow> \<lparr>rt_sends = Suc i, rt_sleeps = sl, rt_online = None, rt_result = RaisedCli err\<rparr>)
           | TimedOut \<Rightarrow> request_loop out cached (Suc i) (pause i sl) NetworkError
           | TransportFailed \<Rightarrow> offline (Suc i) sl cached NetworkError)"
    unfolding t_def by (rule request_loop.simps)
  have "rt_result t = Live c body \<Longrightarrow> rt_online t = Some True"
    unfolding t using step by (auto simp: offline_def split: if_splits http_try.splits option.splits cli_error.splits)
  then show ?case using Suc.prems by (simp add: t_def)
qed

lemma live_writes:
  assumes "rt_result (snd (request_op s now out (Some k) ttl)) = Live c body" "k \<noteq> []"
  shows "map_of (cs_cache (fst (request_op s now out (Some k) ttl))) k =
    Some \<lparr>cw_payload = dumps body, cw_cached_at = now, cw_ttl = ttl\<rparr>"
proof -
  define t where "t = cli_request out (snd (cache_get (cs_cache s) now k))"
  have "rt_result t = Live c body" using assms by (auto simp: request_op_def t_def Let_def split: option.splits bool.splits)
  moreover then have "rt_online t = Some True" using live_online by (simp add: t_def cli_request_def)
  ultimately show ?thesis using assms(2) by (simp add: request_op_def t_def [symmetric] Let_def cache_set_def)
qed

text \<open>C32: What a call fetched under a cache key is what a later call under the same key returns when the
  network has gone, for as long as the time to live, whatever calls under other keys came in between;
  past the time to live the call raises and the row is deleted. Either way the network is reported down.\<close>

theorem offline_serves_last_answer:
  assumes "rt_result (snd (request_op s now out (Some k) ttl)) = Live c body" and "k \<noteq> []" and "small_ints body"
    and "body \<noteq> JNull" and "list_all (\<lambda>c. fst (snd (snd c)) \<noteq> Some k) calls" and "gone 0 = TransportFailed"
  shows "let s' = foldl call_step (fst (request_op s now out (Some k) ttl)) calls;
             (s'', t) = request_op s' later gone (Some k) ttl' in
      rt_result t = (if 0 < ttl \<and> ttl < fsub later now then RaisedCli NetworkError else Cached (embed body)) \<and>
      (0 < ttl \<and> ttl < fsub later now \<longleftrightarrow> map_of (cs_cache s'') k = None) \<and>
      \<not> is_online (cs_net s'') \<and> rt_sends t = 1"
proof -
  define s' where "s' = foldl call_step (fst (request_op s now out (Some k) ttl)) calls"
  have row: "map_of (cs_cache s') k = Some \<lparr>cw_payload = dumps body, cw_cached_at = now, cw_ttl = ttl\<rparr>"
    unfolding s'_def using calls_keep_row [OF assms(5)] live_writes [OF assms(1,2)] by simp
  have gone: "cli_request gone x = offline 1 [] x NetworkError" for x
    using assms(6) unfolding cli_request_def by (subst request_loop.simps) (simp add: RETRY_ATTEMPTS_def)
  have "embed body \<noteq> PNone" using assms(4) by (cases body) auto
  moreover have "map_of (filter (\<lambda>p. fst p \<noteq> k) db) k = None" for db :: cache_db by (induction db) auto
  ultimately show ?thesis unfolding s'_def [symmetric]
    using row loads_dumps [OF assms(3)] assms(2)
    by (auto simp: request_op_def gone offline_def Let_def cache_get_def cache_delete_def set_online_def is_online_def)
qed

definition sample_call_state :: cli_state where
  "sample_call_state = \<lparr>cs_cache = [], cs_net = \<lparr>ns_online = None, ns_callbacks = []\<rparr>\<rparr>"

theorem offline_serves_last_answer_witness:
  "rt_result (snd (request_op (fst (request_op sample_call_state 100 (\<lambda>i. Responded 200 (JStr ''a'')) (Some ''tx:stats'') 60)) 130
     (\<lambda>i. TransportFailed) (Some ''tx:stats'') 60)) = Cached (PStr ''a'')"
proof -
  have live: "rt_result (snd (request_op sample_call_state 100 (\<lambda>i. Responded 200 (JStr ''a'')) (Some ''tx:stats'') 60)) = Live 200 (JStr ''a'')"
    by (simp add: request_op_def cli_request_def request_loop.simps RETRY_ATTEMPTS_def RETRYABLE_CODES_def raise_for_response_def is_success_def Let_def)
  have "fsub 130 100 = 30" using rnd_of_int [of 30] by (simp add: fsub_def)
  with offline_serves_last_answer [OF live, of "[]" "\<lambda>i. TransportFailed" 130 60] show ?thesis
    by (simp add: Let_def case_prod_beta)
qed

end
