(* ===== verification/FloatText.thy ===== *)
theory FloatText
  imports Json
begin

text \<open>
  The text of a float, and \<open>json.dumps\<close> of a decoded value: what the integrity check hashes, what
  the gRPC service returns and what the client keeps in the keyring and in its audit log. Every
  double is read back from its text, and so is every value from its JSON text.
\<close>

subsection \<open>The text of a float\<close>

text \<open>\<open>k\<close> with \<open>10 ^ k \<le> x < 10 ^ (k + 1)\<close>, from the binary exponent by at most one correction.\<close>

definition dec_exp :: "rat \<Rightarrow> int" where
  "dec_exp x =
     (let k = (exponent x * 59) div 196 in
      if x < scale10 1 k then k - 1 else if scale10 1 (k + 1) \<le> x then k + 1 else k)"

text \<open>The \<open>n\<close>-digit decimals on both sides of \<open>x\<close> that read back as \<open>x\<close>, the closer one first.\<close>

definition near_digits :: "rat \<Rightarrow> int \<Rightarrow> nat \<Rightarrow> int list" where
  "near_digits x k n =
     (let e = k - int n + 1; s = x / scale10 1 e; lo = \<lfloor>s\<rfloor>; r = s - of_int lo;
          cands = (if r < 1 / 2 \<or> r = 1 / 2 \<and> even lo then [lo, lo + 1] else [lo + 1, lo])
      in filter (\<lambda>d. rnd (scale10 d e) = x) cands)"

fun shortest_digits :: "rat \<Rightarrow> int \<Rightarrow> nat \<Rightarrow> nat \<Rightarrow> int \<times> nat" where
  "shortest_digits x k n 0 = (\<lfloor>x / scale10 1 (k - int n + 1)\<rfloor>, n)"
| "shortest_digits x k n (Suc more_digits) =
     (case near_digits x k n of d # _ \<Rightarrow> (d, n) | [] \<Rightarrow> shortest_digits x k (Suc n) more_digits)"

definition drop_zeros :: "string \<Rightarrow> string" where
  "drop_zeros s = rev (dropWhile (\<lambda>c. c = CHR ''0'') (rev s))"

text \<open>\<open>repr\<close> of a positive float: the shortest digits that read back, in fixed notation for exponents from -4 to 15.\<close>

definition pos_repr :: "rat \<Rightarrow> string" where
  "pos_repr x =
     (let k = dec_exp x; (d, n) = shortest_digits x k 1 17;
          all_digits = dec_int d; ds = drop_zeros all_digits; e = k + (int (length all_digits) - int n)
      in if 0 \<le> e \<and> e < 16 then
           (let m = nat e + 1 in
            if length ds \<le> m then ds @ replicate (m - length ds) (CHR ''0'') @ ''.0'' else take m ds @ ''.'' @ drop m ds)
         else if -4 \<le> e \<and> e < 0 then ''0.'' @ replicate (nat (- e - 1)) (CHR ''0'') @ ds
         else take 1 ds @ (if length ds = 1 then [] else ''.'' @ drop 1 ds) @ ''e'' @
              (if e < 0 then ''-'' else ''+'') @ (if \<bar>e\<bar> < 10 then ''0'' else []) @ dec_int \<bar>e\<bar>)"

fun float_repr :: "xfloat \<Rightarrow> string" where
  "float_repr (Fin x) = (if x = 0 then ''0.0'' else if x < 0 then ''-'' @ pos_repr (- x) else pos_repr x)"
| "float_repr PInf = ''Infinity''"
| "float_repr NInf = ''-Infinity''"
| "float_repr NaN = ''NaN''"

text \<open>\<open>json.dumps\<close> of a decoded value.\<close>

fun py_dumps :: "pyval \<Rightarrow> string" where
  "py_dumps PNone = ''null''"
| "py_dumps (PBool b) = (if b then ''true'' else ''false'')"
| "py_dumps (PInt i) = dec_int i"
| "py_dumps (PFloat x) = float_repr x"
| "py_dumps (PStr s) = json_string s"
| "py_dumps (PList vs) = ''['' @ join '', '' (map py_dumps vs) @ '']''"
| "py_dumps (PDict kvs) = ''{'' @ join '', '' (map (\<lambda>(k, v). json_string k @ '': '' @ py_dumps v) kvs) @ ''}''"


subsection \<open>The digits read back\<close>

lemma scale10_powi: "scale10 m e = of_int m * 10 powi e"
  by (simp add: scale10_def power_int_def field_simps)

lemma small_power: "a \<le> 1100 \<Longrightarrow> (6 / 5 :: rat) ^ a \<le> 10 ^ 100"
proof -
  assume "a \<le> 1100"
  then have "(6 / 5 :: rat) ^ a \<le> (6 / 5) ^ (11 * 100)" by (intro power_increasing) simp_all
  also have "\<dots> = ((6 / 5) ^ 11) ^ 100" by (rule power_mult)
  also have "\<dots> \<le> 10 ^ 100" by (intro power_mono) (simp_all add: power_divide)
  finally show ?thesis .
qed

lemma powi_mult_nat: "(x::rat) powi (int m * int n) = (x ^ m) ^ n"
  by (simp add: power_int_def flip: power_mult of_nat_mult)

text \<open>\<open>59 / 196\<close> is just below the logarithm of 2.\<close>

lemma dec_exp_power:
  assumes "- 1101 < e"
  shows "10 powi ((e * 59) div 196 - 1) \<le> pow2 e"
proof -
  let ?k = "(e * 59) div 196"
  have c: "(10::rat) ^ 59 \<le> 2 ^ 196" "(2::rat) ^ 196 \<le> 6 / 5 * 10 ^ 59" by simp_all
  have k: "196 * ?k \<le> 59 * e" by simp
  show ?thesis
  proof (cases "0 \<le> e")
    case True
    then obtain n where n: "e = int n" by (metis nonneg_int_cases)
    have "(10 powi ?k :: rat) ^ 196 = 10 powi (?k * 196)" by (simp add: power_int_mult)
    also have "\<dots> \<le> 10 powi (59 * int n)" using k n by (intro power_int_increasing) auto
    also have "\<dots> = (10 ^ 59) ^ n" by (rule powi_mult_nat [of _ "59::nat", simplified of_nat_numeral])
    also have "\<dots> \<le> (2 ^ 196) ^ n" using c(1) by (intro power_mono) auto
    also have "\<dots> = (2 ^ n) ^ 196" by (simp only: power_mult [symmetric] mult.commute)
    finally have "10 powi ?k \<le> (2 ^ n :: rat)" by (subst (asm) power_mono_iff) simp_all
    moreover have "(10 powi (?k - 1) :: rat) \<le> 10 powi ?k" by (intro power_int_increasing) auto
    ultimately show ?thesis by (simp add: n)
  next
    case False
    then obtain a where a: "e = - int a" "a \<le> 1100" using assms by (intro that [of "nat (- e)"]) auto
    have "(2 ^ a :: rat) ^ 196 = (2 ^ 196) ^ a" by (simp only: power_mult [symmetric] mult.commute)
    also have "\<dots> \<le> (6 / 5 * 10 ^ 59) ^ a" using c(2) by (intro power_mono) auto
    also have "\<dots> = (6 / 5) ^ a * 10 powi (59 * int a)"
      unfolding power_mult_distrib powi_mult_nat [of _ "59::nat", simplified of_nat_numeral] ..
    also have "\<dots> \<le> 10 ^ 196 * 10 powi (59 * int a)"
      using small_power [OF a(2)] by (intro mult_right_mono) (auto intro: order_trans [OF _ power_increasing])
    also have "\<dots> = 10 powi (196 + 59 * int a)" by (simp add: power_int_add)
    also have "\<dots> \<le> 10 powi ((1 - ?k) * 196)" using k a by (intro power_int_increasing) auto
    also have "\<dots> = (10 powi (1 - ?k)) ^ 196" unfolding power_int_mult by simp
    finally have "(2::rat) ^ a \<le> 10 powi (1 - ?k)" by (subst (asm) power_mono_iff) simp_all
    then have "inverse (10 powi (1 - ?k)) \<le> inverse ((2::rat) ^ a)" by (intro le_imp_inverse_le) simp_all
    moreover have "pow2 e = inverse (2 ^ a)" by (simp add: a(1) pow2_def inverse_eq_divide)
    ultimately show ?thesis using power_int_minus [of "10 :: rat" "1 - ?k"] by simp
  qed
qed

lemma dec_exp_le:
  assumes "pow2 (- 1100) \<le> x"
  shows "10 powi (dec_exp x) \<le> x"
proof -
  have x: "0 < x" using assms pow2_pos [of "- 1100"] by linarith
  have "- 1101 < exponent x"
  proof (rule ccontr)
    assume "\<not> - 1101 < exponent x"
    then have "pow2 (exponent x + 1) \<le> pow2 (- 1100)" by (intro pow2_mono) simp
    then show False using exponent_bounds [OF x] assms by (simp add: pow2_step)
  qed
  then have "10 powi ((exponent x * 59) div 196 - 1) \<le> x"
    using dec_exp_power [of "exponent x"] exponent_bounds [OF x] by linarith
  then show ?thesis by (simp add: dec_exp_def Let_def scale10_powi)
qed


lemma nearest_error:
  "\<bar>of_int (if s - of_int \<lfloor>s\<rfloor> < 1 / 2 \<or> s - of_int \<lfloor>s\<rfloor> = 1 / 2 \<and> even \<lfloor>s\<rfloor> then \<lfloor>s\<rfloor> else \<lfloor>s\<rfloor> + 1) - s\<bar> \<le> 1 / (2 :: rat)"
proof -
  have "of_int \<lfloor>s\<rfloor> \<le> s" "s < of_int \<lfloor>s\<rfloor> + 1" by linarith+
  then show ?thesis
    unfolding abs_le_iff by (simp only: of_int_add of_int_1 split: if_split) linarith
qed

lemma near_digits_17:
  assumes "pow2 (- 1100) \<le> x" and "rnd x = x"
  shows "near_digits x (dec_exp x) 17 \<noteq> []"
proof -
  have x: "0 < x" using assms(1) pow2_pos [of "- 1100"] by linarith
  let ?e = "dec_exp x - int 17 + 1"
  define t :: rat where "t = 10 powi ?e"
  let ?s = "x / t"
  define d where "d = (if ?s - of_int \<lfloor>?s\<rfloor> < 1 / 2 \<or> ?s - of_int \<lfloor>?s\<rfloor> = 1 / 2 \<and> even \<lfloor>?s\<rfloor> then \<lfloor>?s\<rfloor> else \<lfloor>?s\<rfloor> + 1)"
  have t: "0 < t" by (simp add: t_def)
  have "t * 10 ^ 16 = 10 powi (?e + int 16)" unfolding t_def by (subst power_int_add) simp_all
  also have "\<dots> \<le> x" using dec_exp_le [OF assms(1)] by simp
  finally have "t / 2 < x / 2 ^ 54" using t by simp
  moreover have "\<bar>of_int d - ?s\<bar> \<le> 1 / 2" unfolding d_def by (rule nearest_error)
  then have "\<bar>of_int d - ?s\<bar> * t \<le> 1 / 2 * t" using t by (intro mult_right_mono) simp_all
  moreover have "(of_int d - ?s) * t = of_int d * t - x" using t by (simp add: left_diff_distrib)
  then have "\<bar>of_int d - ?s\<bar> * t = \<bar>of_int d * t - x\<bar>" using t by (metis abs_mult abs_of_pos)
  ultimately have "\<bar>of_int d * t - x\<bar> < x / 2 ^ 54" by linarith
  then have "rnd (scale10 d ?e) = x" using rnd_near [OF x assms(2)] by (simp add: scale10_powi t_def)
  moreover have "scale10 1 ?e = t" by (simp add: scale10_powi t_def)
  ultimately have "d \<in> set (near_digits x (dec_exp x) 17)" unfolding near_digits_def Let_def d_def
    by (simp only: set_filter mem_Collect_eq split: if_splits) simp_all
  then show ?thesis by force
qed

lemma near_digits_reads: "d \<in> set (near_digits x k n) \<Longrightarrow> rnd (scale10 d (k - int n + 1)) = x"
  by (auto simp: near_digits_def Let_def)

lemma near_digits_nonneg: "0 < x \<Longrightarrow> d \<in> set (near_digits x k n) \<Longrightarrow> 0 < d"
proof -
  assume x: "0 < x" and d: "d \<in> set (near_digits x k n)"
  define lo where "lo = \<lfloor>x / scale10 1 (k - int n + 1)\<rfloor>"
  have "0 \<le> lo" using x by (simp add: scale10_powi lo_def)
  moreover have "d = lo \<or> d = lo + 1" using d unfolding near_digits_def Let_def lo_def [symmetric] by (simp split: if_splits) blast+
  ultimately have "0 \<le> d" by auto
  moreover have "d \<noteq> 0"
  proof
    assume "d = 0"
    then show False using near_digits_reads [OF d] x by (simp add: scale10_powi)
  qed
  ultimately show ?thesis by simp
qed

text \<open>The search ends with digits that read back, after 17 at the latest.\<close>

lemma shortest_digits_reads:
  assumes "0 < x" and "near_digits x k (n + i) \<noteq> []" and "i \<le> j"
    and "shortest_digits x k n (Suc j) = (d, m)"
  shows "0 < d \<and> rnd (scale10 d (k - int m + 1)) = x"
  using assms
proof (induction j arbitrary: n i)
  case 0
  then show ?case using near_digits_reads [of d x k m] near_digits_nonneg [of x d k m]
    by (auto split: list.splits)
next
  case (Suc j)
  show ?case
  proof (cases "near_digits x k n")
    case Nil
    then obtain i' where "i = Suc i'" using Suc.prems by (cases i) auto
    then show ?thesis using Suc.IH [of "Suc n" i'] Suc.prems Nil by simp
  next
    case (Cons a as)
    then show ?thesis using near_digits_reads [of a x k n] near_digits_nonneg [of x a k n] Suc.prems by auto
  qed
qed

lemma digits_of_float:
  assumes "pow2 (- 1100) \<le> x" and "rnd x = x" and "shortest_digits x (dec_exp x) 1 17 = (d, n)"
  shows "0 < d \<and> rnd (scale10 d (dec_exp x - int n + 1)) = x"
proof (rule shortest_digits_reads [where n = 1 and i = 16 and j = 16])
  show "0 < x" using assms(1) pow2_pos [of "- 1100"] by linarith
  show "near_digits x (dec_exp x) (1 + 16) \<noteq> []" using near_digits_17 [OF assms(1,2)] by simp
  show "shortest_digits x (dec_exp x) 1 (Suc 16) = (d, n)" using assms(3) by (simp add: eval_nat_numeral)
qed simp


subsection \<open>Decimal texts\<close>

lemma dec_val_digits: "list_all is_digit s \<Longrightarrow> dec_val acc s = Some (acc * 10 ^ length s + nat (digits_val s)) \<and> 0 \<le> digits_val s"
proof -
  have "\<exists>v. \<forall>acc. dec_val acc s = Some (acc * 10 ^ length s + v)" if "list_all is_digit s"
    using that
  proof (induction s)
    case (Cons c s)
    then obtain v where "\<forall>acc. dec_val acc s = Some (acc * 10 ^ length s + v)" by auto
    moreover obtain k where "digit_val c = Some k" using Cons.prems by (auto simp: digit_val_def)
    ultimately show ?case by (auto simp: algebra_simps)
  qed simp
  then show "dec_val acc s = Some (acc * 10 ^ length s + nat (digits_val s)) \<and> 0 \<le> digits_val s" if "list_all is_digit s"
    using that by (auto simp: digits_val_def)
qed

lemma digits_val_append:
  "list_all is_digit s \<Longrightarrow> list_all is_digit t \<Longrightarrow> digits_val (s @ t) = digits_val s * 10 ^ length t + digits_val t"
  using dec_val_digits [of s 0] dec_val_digits [of t "nat (digits_val s)"] by (simp add: digits_val_def [of "s @ t"] dec_val_append)

lemma digits_val_dec_nat [simp]: "digits_val (dec_nat n) = int n"
  by (simp add: digits_val_def dec_val_dec_nat)

lemma digits_val_zeros [simp]: "digits_val (replicate z (CHR ''0'')) = 0"
proof -
  have "dec_val 0 (replicate z (CHR ''0'')) = Some 0" by (induction z) (simp_all add: digit_val_def is_digit_def)
  then show ?thesis by (simp add: digits_val_def)
qed

lemma is_digit_0 [simp]: "is_digit (CHR ''0'')"
  by (simp add: is_digit_def)

lemma list_all_zeros [simp]: "list_all is_digit (replicate z (CHR ''0''))"
  by (simp add: list_all_iff)

lemma drop_zeros_split: "\<exists>z. s = drop_zeros s @ replicate z (CHR ''0'')"
proof -
  let ?p = "\<lambda>c. c = CHR ''0''"
  have "s = rev (takeWhile ?p (rev s) @ dropWhile ?p (rev s))" by simp
  also have "\<dots> = drop_zeros s @ rev (takeWhile ?p (rev s))" by (simp only: rev_append drop_zeros_def)
  also have "rev (takeWhile ?p (rev s)) = replicate (length (takeWhile ?p (rev s))) (CHR ''0'')"
    by (intro replicate_eqI) (auto dest: set_takeWhileD)
  finally show ?thesis by blast
qed

lemma drop_zeros_digits:
  assumes "0 < d"
  obtains z where "dec_int d = drop_zeros (dec_int d) @ replicate z (CHR ''0'')" "list_all is_digit (drop_zeros (dec_int d))"
    "drop_zeros (dec_int d) \<noteq> []" "\<not> starts_with (drop_zeros (dec_int d)) ''0''"
    "d = digits_val (drop_zeros (dec_int d)) * 10 ^ z"
proof -
  let ?ds = "drop_zeros (dec_int d)"
  have d: "dec_int d = dec_nat (nat d)" using assms by (simp add: dec_int_def)
  obtain z where z: "dec_int d = ?ds @ replicate z (CHR ''0'')" using drop_zeros_split by blast
  have dig: "list_all is_digit ?ds" using dec_nat_digits [of "nat d"] d z by (metis list_all_append)
  have "d = digits_val (dec_int d)" using assms d by simp
  also have "\<dots> = digits_val ?ds * 10 ^ z" using dig digits_val_append [of ?ds "replicate z (CHR ''0'')"] z by simp
  finally have v: "d = digits_val ?ds * 10 ^ z" .
  have ne: "?ds \<noteq> []"
  proof
    assume "?ds = []"
    then have "digits_val ?ds = 0" by (simp add: digits_val_def)
    then show False using v assms by simp
  qed
  have "\<not> starts_with (dec_int d) ''0''" using dec_nat_leading [of "nat d"] assms d by simp
  then have "\<not> starts_with ?ds ''0''" using z ne by (cases ?ds) (auto simp: starts_with_def)
  then show ?thesis using that z dig ne v by blast
qed

subsection \<open>Scanning a float\<close>

definition frac_text :: "string \<Rightarrow> string" where
  "frac_text fs = (if fs = [] then [] else CHR ''.'' # fs)"

definition ends_digits :: "string \<Rightarrow> bool" where
  "ends_digits r \<longleftrightarrow> (case r of [] \<Rightarrow> True | c # _ \<Rightarrow> \<not> is_digit c \<and> c \<noteq> CHR ''.'')"

lemma takeWhile_ends: "list_all is_digit s \<Longrightarrow> ends_digits r \<Longrightarrow> takeWhile is_digit (s @ r) = s \<and> dropWhile is_digit (s @ r) = r"
  by (cases r) (auto simp: takeWhile_append dropWhile_append ends_digits_def list_all_iff)

lemma scan_frac_text: "list_all is_digit fs \<Longrightarrow> ends_digits r \<Longrightarrow> scan_frac (frac_text fs @ r) = (fs, r)"
proof (cases "fs = []")
  case True
  assume "ends_digits r"
  with True show ?thesis by (cases r) (auto simp: scan_frac_def frac_text_def ends_digits_def)
next
  case False
  assume "list_all is_digit fs" "ends_digits r"
  with False show ?thesis by (simp add: scan_frac_def frac_text_def takeWhile_ends Let_def)
qed

lemma scan_number_float:
  assumes "list_all is_digit ds" "ds \<noteq> []" "starts_with ds ''0'' \<Longrightarrow> ds = ''0''" "list_all is_digit fs"
    and "ends_digits (xs @ r)" "scan_exp (xs @ r) = (ex, r)" "fs \<noteq> [] \<or> ex \<noteq> None"
  shows "scan_number ((if neg then ''-'' else []) @ ds @ frac_text fs @ xs @ r) =
    Some (PFloat (xround (scale10 (sgn_of neg * digits_val (ds @ fs)) ((case ex of None \<Rightarrow> 0 | Some e \<Rightarrow> e) - int (length fs)))), r)"
proof -
  have minus: "starts_with ((if neg then ''-'' else []) @ ds @ t) ''-'' = neg" for t
    using assms(1,2) by (cases ds) (auto simp: starts_with_def is_digit_def)
  have "ends_digits (frac_text fs @ xs @ r) \<or> fs \<noteq> []" using assms(5) by (simp add: frac_text_def)
  then have all: "takeWhile is_digit (ds @ frac_text fs @ xs @ r) = ds"
    using assms(1) takeWhile_ends [of ds "xs @ r"] assms(5)
    by (cases "fs = []") (simp_all add: frac_text_def takeWhile_append list_all_iff is_digit_def)
  have zero: "(if starts_with ds ''0'' then take 1 ds else ds) = ds" using assms(3) by auto
  have body: "(if neg then tl ((if neg then ''-'' else []) @ t) else (if neg then ''-'' else []) @ t) = t" for t by simp
  show ?thesis
    unfolding scan_number_def Let_def minus body all zero
    using assms(2,6,7) scan_frac_text [OF assms(4,5)] by auto
qed


definition exp_text :: "int \<Rightarrow> string" where
  "exp_text e = ''e'' @ (if e < 0 then ''-'' else ''+'') @ (if \<bar>e\<bar> < 10 then ''0'' else []) @ dec_int \<bar>e\<bar>"

lemma stops_ends: "stops_number r \<Longrightarrow> ends_digits r"
  by (cases r) (auto simp: stops_number_def ends_digits_def)

lemma digits_val_Nil [simp]: "digits_val [] = 0"
  using digits_val_zeros [of 0] by simp

lemma scan_exp_text: "stops_number r \<Longrightarrow> scan_exp (exp_text e @ r) = (Some e, r)"
proof -
  assume r: "stops_number r"
  let ?ds = "(if \<bar>e\<bar> < 10 then ''0'' else []) @ dec_nat (nat \<bar>e\<bar>)"
  have dig: "list_all is_digit ?ds" using dec_nat_digits by simp
  have "digits_val ''0'' = 0" using digits_val_zeros [of 1] by simp
  then have v: "digits_val ?ds = \<bar>e\<bar>" using dec_nat_digits [of "nat \<bar>e\<bar>"] by (simp add: digits_val_append)
  have "exp_text e @ r = CHR ''e'' # (if e < 0 then CHR ''-'' else CHR ''+'') # ?ds @ r"
    by (simp add: exp_text_def dec_int_def)
  moreover note takeWhile_ends [OF dig stops_ends [OF r]] v
  moreover have "?ds \<noteq> []" by simp
  ultimately show ?thesis
    by (cases "e < 0") (simp_all add: scan_exp_def Let_def starts_with_def sgn_of_def del: append_is_Nil_conv)
qed

lemma ends_exp_text [simp]: "ends_digits (exp_text e @ r)"
  by (simp add: exp_text_def ends_digits_def is_digit_def)

lemma shift_scale: "of_int (d * 10 ^ n) * (10 :: rat) powi k = of_int d * 10 powi (k + int n)"
  by (simp add: power_int_add)



text \<open>The parts of the text of a positive double, and their value.\<close>

lemma pos_repr_parts:
  assumes "pow2 (- 1100) \<le> x" and "rnd x = x"
  obtains ds fs xs ex where "pos_repr x = ds @ frac_text fs @ xs" "list_all is_digit ds" "ds \<noteq> []"
    "starts_with ds ''0'' \<longrightarrow> ds = ''0''" "list_all is_digit fs" "fs \<noteq> [] \<or> ex \<noteq> None"
    "\<forall>r. stops_number r \<longrightarrow> ends_digits (xs @ r) \<and> scan_exp (xs @ r) = (ex, r)"
    "rnd (scale10 (digits_val (ds @ fs)) ((case ex of None \<Rightarrow> 0 | Some e \<Rightarrow> e) - int (length fs))) = x"
proof -
  obtain d n where dn: "shortest_digits x (dec_exp x) 1 17 = (d, n)" by fastforce
  then have d: "0 < d" "rnd (scale10 d (dec_exp x - int n + 1)) = x" using digits_of_float [OF assms] by auto
  define ds where "ds = drop_zeros (dec_int d)"
  obtain z where z: "dec_int d = ds @ replicate z (CHR ''0'')" and dig: "list_all is_digit ds" and ne: "ds \<noteq> []"
    and nz: "\<not> starts_with ds ''0''" and val: "d = digits_val ds * 10 ^ z"
    unfolding ds_def by (rule drop_zeros_digits [OF d(1)])
  define e where "e = dec_exp x + (int (length (dec_int d)) - int n)"
  have v: "rnd (of_int (digits_val ds) * 10 powi (e + 1 - int (length ds))) = x"
  proof -
    have "e + 1 - int (length ds) = dec_exp x - int n + 1 + int z" using z by (simp add: e_def)
    then show ?thesis using d(2) val shift_scale [of "digits_val ds" z "dec_exp x - int n + 1"] by (simp only: scale10_powi)
  qed
  have repr: "pos_repr x =
     (if 0 \<le> e \<and> e < 16 then
           (let m = nat e + 1 in
            if length ds \<le> m then ds @ replicate (m - length ds) (CHR ''0'') @ ''.0'' else take m ds @ ''.'' @ drop m ds)
         else if -4 \<le> e \<and> e < 0 then ''0.'' @ replicate (nat (- e - 1)) (CHR ''0'') @ ds
         else take 1 ds @ (if length ds = 1 then [] else ''.'' @ drop 1 ds) @ exp_text e)"
    unfolding pos_repr_def dn Let_def prod.case exp_text_def ds_def e_def by (rule refl)
  have part: "list_all is_digit (take m ds)" "list_all is_digit (drop m ds)" for m
    using dig append_take_drop_id [of m ds] by (metis list_all_append)+
  have first: "\<not> starts_with (take m ds) ''0''" for m
    using nz by (cases ds; cases m) (auto simp: starts_with_def)
  have none: "ends_digits r \<and> scan_exp r = (None, r)" if "stops_number r" for r
    using that stops_ends stops_scan by blast
  let ?m = "nat e + 1"
  consider (whole) "0 \<le> e" "e < 16" "length ds \<le> ?m" | (split) "0 \<le> e" "e < 16" "?m < length ds"
    | (small) "- 4 \<le> e" "e < 0" | (exp) "\<not> (- 4 \<le> e \<and> e < 16)" by linarith
  then show ?thesis
  proof cases
    case whole
    let ?I = "ds @ replicate (?m - length ds) (CHR ''0'')"
    have "digits_val (?I @ ''0'') = digits_val ds * 10 ^ (?m - length ds + 1)"
      using dig digits_val_zeros [of "?m - length ds + 1"]
        digits_val_append [of ds "replicate (?m - length ds + 1) (CHR ''0'')"] by (simp add: replicate_append_same)
    moreover have "0 - int (length ''0'') + int (?m - length ds + 1) = e + 1 - int (length ds)" using whole by simp
    ultimately have "rnd (scale10 (digits_val (?I @ ''0'')) (0 - int (length ''0''))) = x"
      using v shift_scale [of "digits_val ds" "?m - length ds + 1" "0 - int (length ''0'')"] by (simp only: scale10_powi)
    moreover have "starts_with ?I ''0'' \<longrightarrow> ?I = ''0''" using nz ne by (cases ds) (auto simp: starts_with_def)
    ultimately show ?thesis using that [of ?I "''0''" "[]" None] whole dig ne none
      by (simp add: repr frac_text_def Let_def)
  next
    case split
    then have "0 - int (length (drop ?m ds)) = e + 1 - int (length ds)" by simp
    then have "rnd (scale10 (digits_val (take ?m ds @ drop ?m ds)) (0 - int (length (drop ?m ds)))) = x"
      using v by (simp add: scale10_powi)
    then show ?thesis using that [of "take ?m ds" "drop ?m ds" "[]" None] split part first ne none
      by (simp add: repr frac_text_def Let_def)
  next
    case small
    let ?F = "replicate (nat (- e - 1)) (CHR ''0'') @ ds"
    have "digits_val (''0'' @ ?F) = digits_val ds"
      using dig digits_val_append [of "replicate (nat (- e - 1) + 1) (CHR ''0'')" ds]
        digits_val_zeros [of "nat (- e - 1) + 1"] by simp
    moreover have "0 - int (length ?F) = e + 1 - int (length ds)" using small by simp
    ultimately have "rnd (scale10 (digits_val (''0'' @ ?F)) (0 - int (length ?F))) = x"
      using v by (simp only: scale10_powi)
    then show ?thesis using that [of "''0''" ?F "[]" None] small dig ne none
      by (simp add: repr frac_text_def)
  next
    case exp
    have "e - int (length (drop 1 ds)) = e + 1 - int (length ds)" using ne by (cases ds) auto
    then have "rnd (scale10 (digits_val (take 1 ds @ drop 1 ds)) (e - int (length (drop 1 ds)))) = x"
      using v by (simp only: scale10_powi append_take_drop_id)
    moreover have "(if length ds = 1 then [] else ''.'' @ drop 1 ds) = frac_text (drop 1 ds)"
      using ne by (cases ds) (auto simp: frac_text_def)
    ultimately show ?thesis using that [of "take 1 ds" "drop 1 ds" "exp_text e" "Some e"] exp part first ne scan_exp_text
      by (auto simp: repr)
  qed
qed


lemma round_even_minus: "round_even (- z) = - round_even z"
proof (cases "z = of_int \<lfloor>z\<rfloor>")
  case True
  then show ?thesis using round_even_int [of "\<lfloor>z\<rfloor>"] round_even_int [of "- \<lfloor>z\<rfloor>"] by (metis of_int_minus)
next
  case False
  then have f: "\<lfloor>- z\<rfloor> = - \<lfloor>z\<rfloor> - 1" by linarith
  let ?r = "z - of_int \<lfloor>z\<rfloor>"
  have r: "- z - of_int \<lfloor>- z\<rfloor> = 1 - ?r" unfolding f by simp
  have cases: "?r < 1 / 2 \<or> ?r = 1 / 2 \<or> 1 / 2 < ?r" by linarith
  show ?thesis unfolding round_even_def Let_def r f using cases by auto
qed

lemma rnd_minus: "rnd (- x) = - rnd x"
  by (simp add: rnd_def Let_def round_even_minus flip: minus_divide_left)

text \<open>The doubles of the model: zero, the normal range on both sides, the infinities and NaN.\<close>

definition is_double :: "xfloat \<Rightarrow> bool" where
  "is_double f \<longleftrightarrow> (case f of Fin x \<Rightarrow> x = 0 \<or> pow2 (- 1022) \<le> \<bar>x\<bar> \<and> rnd x = x \<and> \<bar>x\<bar> < 2 ^ 1024 | _ \<Rightarrow> True)"

lemma scan_pos_repr:
  assumes "pow2 (- 1022) \<le> x" and "rnd x = x" and "x < 2 ^ 1024" and "stops_number r"
  shows "scan_number ((if neg then ''-'' else []) @ pos_repr x @ r) = Some (PFloat (Fin (if neg then - x else x)), r)"
proof -
  have x: "0 < x" using assms(1) pow2_pos [of "- 1022"] by linarith
  have "pow2 (- 1100) \<le> pow2 (- 1022)" by (rule pow2_mono) simp
  with assms(1) have x': "pow2 (- 1100) \<le> x" by linarith
  from x' assms(2) obtain ds fs xs ex where p: "pos_repr x = ds @ frac_text fs @ xs" "list_all is_digit ds" "ds \<noteq> []"
    "starts_with ds ''0'' \<longrightarrow> ds = ''0''" "list_all is_digit fs" "fs \<noteq> [] \<or> ex \<noteq> None"
    "\<forall>r. stops_number r \<longrightarrow> ends_digits (xs @ r) \<and> scan_exp (xs @ r) = (ex, r)"
    and v: "rnd (scale10 (digits_val (ds @ fs)) ((case ex of None \<Rightarrow> 0 | Some e \<Rightarrow> e) - int (length fs))) = x"
    by (rule pos_repr_parts)
  have "rnd (scale10 (sgn_of neg * digits_val (ds @ fs)) ((case ex of None \<Rightarrow> 0 | Some e \<Rightarrow> e) - int (length fs))) = (if neg then - x else x)"
    using v rnd_minus by (simp add: sgn_of_def scale10_powi)
  then show ?thesis
    using scan_number_float [of ds fs xs r ex neg] p assms(3,4) x by (simp add: xround_def Let_def)
qed


lemma pos_repr_start:
  assumes "pow2 (- 1022) \<le> x" and "rnd x = x"
  obtains c s where "pos_repr x = c # s" "is_digit c"
proof -
  have "pow2 (- 1100) \<le> pow2 (- 1022)" by (rule pow2_mono) simp
  with assms(1) have "pow2 (- 1100) \<le> x" by linarith
  from this assms(2) obtain ds fs xs where "pos_repr x = ds @ frac_text fs @ xs" "list_all is_digit ds" "ds \<noteq> []"
    by (rule pos_repr_parts)
  then show ?thesis using that by (cases ds) auto
qed

lemma reads_as_float: "is_double f \<Longrightarrow> reads_as (float_repr f) (PFloat f)"
proof -
  assume f: "is_double f"
  show ?thesis
  proof (cases f)
    case (Fin x)
    consider "x = 0" | "0 < x" | "x < 0" by linarith
    then show ?thesis
    proof cases
      case 1
      have "scan_number (''0.0'' @ r) = Some (PFloat (Fin 0), r)" if "stops_number r" for r
        using scan_number_float [of "''0''" "''0''" "[]" r None False] that stops_ends [OF that] stops_scan [OF that]
        by (simp add: frac_text_def digits_val_append xround_def scale10_powi Let_def) (simp add: digits_val_def digit_val_def)
      then show ?thesis using Fin 1 reads_as_number [of "''0.0''"] by (simp add: number_text_def)
    next
      case 2
      with f Fin have d: "pow2 (- 1022) \<le> x" "rnd x = x" "x < 2 ^ 1024" by (auto simp: is_double_def)
      from d(1,2) obtain c s where c: "pos_repr x = c # s" "is_digit c" by (rule pos_repr_start)
      then show ?thesis using reads_as_number [of "pos_repr x"] scan_pos_repr [OF d, of _ False] Fin 2 by (simp add: number_text_def)
    next
      case 3
      with f Fin have d: "pow2 (- 1022) \<le> - x" "rnd (- x) = - x" "- x < 2 ^ 1024" by (auto simp: is_double_def rnd_minus)
      from d(1,2) obtain c s where c: "pos_repr (- x) = c # s" "is_digit c" by (rule pos_repr_start)
      then show ?thesis using reads_as_number [of "''-'' @ pos_repr (- x)"] scan_pos_repr [OF d, of _ True] Fin 3 by (simp add: number_text_def)
    qed
  qed (simp_all add: reads_as_word)
qed

fun plain :: "pyval \<Rightarrow> bool" where
  "plain (PInt i) \<longleftrightarrow> length (dec_nat (nat \<bar>i\<bar>)) \<le> 4300"
| "plain (PFloat f) \<longleftrightarrow> is_double f"
| "plain (PList vs) \<longleftrightarrow> list_all plain vs"
| "plain (PDict kvs) \<longleftrightarrow> distinct (map fst kvs) \<and> list_all (\<lambda>(k, v). plain v) kvs"
| "plain _ \<longleftrightarrow> True"

lemma reads_as_py_dumps: "plain v \<Longrightarrow> reads_as (py_dumps v) v"
proof (induction v)
  case (PList vs)
  then have "list_all2 reads_as (map py_dumps vs) vs" by (auto simp: list_all2_conv_all_nth list_all_iff)
  then show ?case using reads_as_list by simp
next
  case (PDict kvs)
  have "list_all2 (\<lambda>kt kv. fst kt = fst kv \<and> reads_as (snd kt) (snd kv)) (map (\<lambda>(k, v). (k, py_dumps v)) kvs) kvs"
    using PDict by (auto simp: list_all2_conv_all_nth list_all_iff split: prod.splits) (metis nth_mem snds.intros snd_conv)+
  from reads_as_dict [OF this] show ?case using PDict.prems by (simp add: member_text_def case_prod_unfold comp_def dict_of_id)
qed (simp_all add: reads_as_string reads_as_int reads_as_word reads_as_float)

lemma loads_py_dumps: "plain v \<Longrightarrow> loads (py_dumps v) = Some v"
  by (rule loads_reads_as [OF reads_as_py_dumps])

end
