(* ===== verification/AuditTrail.thy ===== *)
theory AuditTrail
  imports Assets Sha256 FloatText
begin

text \<open>
  The audit service (core/features/audit): reading a provenance trail from the ledger (trail.py), the
  integrity check (integrity_checker.py), the report task (tasks.py) and the endpoint that shows a trail
  (router.py). \<open>isoparse\<close> of dateutil and the PDF renderer are parameters. The fields of a record are
  strings on the ledger; a field of another type is outside the model and refused.
\<close>

subsection \<open>Reading a trail (trail.py)\<close>

record prov_entry =
  pe_tx_id :: string
  pe_timestamp :: "datetime option"
  pe_actor_msp :: string
  pe_actor_dn :: string
  pe_action :: string
  pe_from_owner :: string
  pe_to_owner :: string
  pe_amount :: xfloat
  pe_justification :: string
  pe_block_number :: int

definition get_text :: "(string \<times> pyval) list \<Rightarrow> string \<Rightarrow> string option" where
  "get_text d k = (case map_of d k of None \<Rightarrow> Some [] | Some (PStr s) \<Rightarrow> Some s | Some _ \<Rightarrow> None)"

text \<open>A missing or empty timestamp is \<open>datetime.min\<close>, without a zone: \<open>Some None\<close>.\<close>

definition read_timestamp :: "(pyval \<Rightarrow> datetime option) \<Rightarrow> (string \<times> pyval) list \<Rightarrow> datetime option option" where
  "read_timestamp isoparse d =
     (let ts = dict_get d ''timestamp'' PNone in if truthy_val ts then map_option Some (isoparse ts) else Some None)"

definition read_entry :: "(pyval \<Rightarrow> datetime option) \<Rightarrow> (string \<times> pyval) list \<Rightarrow> prov_entry option" where
  "read_entry isoparse d =
     (case (get_text d ''tx_id'', get_text d ''actor_msp'', get_text d ''action'') of
        (Some t, Some msp, Some act) \<Rightarrow>
          if t = [] \<or> msp = [] \<or> act = [] then None
          else
            (case (read_timestamp isoparse d, get_text d ''actor_dn'', get_text d ''from_owner'', get_text d ''to_owner'',
                   py_float (dict_get d ''amount'' (PFloat (Fin 0))), get_text d ''justification'',
                   py_int (dict_get d ''block_number'' (PInt 0))) of
               (Some ts, Some dn, Some from, Some to, Some amt, Some just, Some block) \<Rightarrow>
                 Some \<lparr>pe_tx_id = t, pe_timestamp = ts, pe_actor_msp = msp, pe_actor_dn = dn, pe_action = act,
                       pe_from_owner = from, pe_to_owner = to, pe_amount = amt, pe_justification = just,
                       pe_block_number = block\<rparr>
             | _ \<Rightarrow> None)
      | _ \<Rightarrow> None)"

text \<open>Items that are not objects are skipped; an incomplete one fails the whole trail.\<close>

fun read_entries :: "(pyval \<Rightarrow> datetime option) \<Rightarrow> pyval list \<Rightarrow> prov_entry list option" where
  "read_entries isoparse [] = Some []"
| "read_entries isoparse (PDict d # vs) =
     (case read_entry isoparse d of
        None \<Rightarrow> None
      | Some e \<Rightarrow> map_option (Cons e) (read_entries isoparse vs))"
| "read_entries isoparse (_ # vs) = read_entries isoparse vs"

definition trail_of :: "(pyval \<Rightarrow> datetime option) \<Rightarrow> pyval \<Rightarrow> prov_entry list option" where
  "trail_of isoparse raw = (case raw of PList vs \<Rightarrow> read_entries isoparse vs | _ \<Rightarrow> None)"

definition get_provenance ::
    "('l \<Rightarrow> string \<Rightarrow> string list \<Rightarrow> 'l \<times> (app_error + pyval)) \<Rightarrow> (pyval \<Rightarrow> datetime option) \<Rightarrow> 'l \<Rightarrow> string \<Rightarrow>
     'l \<times> (app_error + prov_entry list)" where
  "get_provenance evaluate isoparse l asset_id =
     (case evaluate l ''GetProvenanceTrail'' [asset_id] of
        (l', Inl e) \<Rightarrow> (l', Inl e)
      | (l', Inr raw) \<Rightarrow> (l', case trail_of isoparse raw of None \<Rightarrow> Inl UnhandledError | Some es \<Rightarrow> Inr es))"

record history_entry =
  he_tx_id :: pyval
  he_is_delete :: bool
  he_value :: "(string \<times> pyval) list"
  he_timestamp :: "datetime option"

fun read_history :: "(pyval \<Rightarrow> datetime option) \<Rightarrow> pyval list \<Rightarrow> history_entry list option" where
  "read_history isoparse [] = Some []"
| "read_history isoparse (PDict d # vs) =
     (case read_timestamp isoparse d of
        None \<Rightarrow> None
      | Some ts \<Rightarrow>
          map_option (Cons \<lparr>he_tx_id = dict_get d ''tx_id'' (PStr []),
                            he_is_delete = truthy_val (dict_get d ''is_delete'' (PBool False)),
                            he_value = (case map_of d ''value'' of Some (PDict kvs) \<Rightarrow> kvs | _ \<Rightarrow> []),
                            he_timestamp = ts\<rparr>)
            (read_history isoparse vs))"
| "read_history isoparse (_ # vs) = read_history isoparse vs"

definition get_full_history ::
    "('l \<Rightarrow> string \<Rightarrow> string list \<Rightarrow> 'l \<times> (app_error + pyval)) \<Rightarrow> (pyval \<Rightarrow> datetime option) \<Rightarrow> 'l \<Rightarrow> string \<Rightarrow>
     'l \<times> (app_error + history_entry list)" where
  "get_full_history evaluate isoparse l asset_id =
     (case evaluate l ''GetAssetHistory'' [asset_id] of
        (l', Inl e) \<Rightarrow> (l', Inl e)
      | (l', Inr (PList vs)) \<Rightarrow> (l', case read_history isoparse vs of None \<Rightarrow> Inl UnhandledError | Some hs \<Rightarrow> Inr hs)
      | (l', Inr _) \<Rightarrow> (l', Inl UnhandledError))"

definition get_asset_state ::
    "('l \<Rightarrow> string \<Rightarrow> string list \<Rightarrow> 'l \<times> (app_error + pyval)) \<Rightarrow> 'l \<Rightarrow> string \<Rightarrow>
     'l \<times> (app_error + (string \<times> pyval) list)" where
  "get_asset_state evaluate l asset_id =
     (case evaluate l ''GetAsset'' [asset_id] of
        (l', Inl e) \<Rightarrow> (l', Inl e)
      | (l', Inr (PDict d)) \<Rightarrow> (l', Inr d)
      | (l', Inr _) \<Rightarrow> (l', Inl UnhandledError))"


subsection \<open>The integrity check (integrity_checker.py)\<close>

record record_integrity =
  ri_index :: nat
  ri_tx_id :: string
  ri_hash :: string
  ri_valid :: bool
  ri_tampered :: "string list"

record integrity_report =
  ir_asset_id :: string
  ir_total :: nat
  ir_valid :: bool
  ir_tampered_count :: nat
  ir_records :: "record_integrity list"

definition allowed_actions :: "string list" where
  "allowed_actions = [''TOKENISE'', ''TRANSFERE'', ''GELE'', ''DEGELE'']"

definition tampered_fields :: "nat \<Rightarrow> bool \<Rightarrow> string \<Rightarrow> string list" where
  "tampered_fields idx seen_tokenise action =
     (if idx = 0 \<and> action \<noteq> ''TOKENISE'' then [''action (TOKENISE missing)''] else []) @
     (if action = ''GELE'' \<and> \<not> (seen_tokenise \<or> action = ''TOKENISE'') then [''action (GELE before TOKENISE)''] else []) @
     (if action \<notin> set allowed_actions then [''action ('' @ action @ '' unknown)''] else [])"

text \<open>The record as JSON with sorted keys, and its digest.\<close>

definition entry_timestamp :: "prov_entry \<Rightarrow> string" where
  "entry_timestamp r = (case pe_timestamp r of None \<Rightarrow> ''0001-01-01T00:00:00'' | Some t \<Rightarrow> isoformat t)"

definition entry_serial :: "prov_entry \<Rightarrow> string" where
  "entry_serial r =
     ''{'' @ join '', ''
       (map (\<lambda>(k, v). json_string k @ '': '' @ v)
         [(''action'', json_string (pe_action r)), (''actor_dn'', json_string (pe_actor_dn r)),
          (''actor_msp'', json_string (pe_actor_msp r)), (''amount'', float_repr (pe_amount r)),
          (''block_number'', dec_int (pe_block_number r)), (''from_owner'', json_string (pe_from_owner r)),
          (''justification'', json_string (pe_justification r)), (''timestamp'', json_string (entry_timestamp r)),
          (''to_owner'', json_string (pe_to_owner r)), (''tx_id'', json_string (pe_tx_id r))]) @ ''}''"

definition entry_hash :: "prov_entry \<Rightarrow> string" where
  "entry_hash r = bytes_hex (sha256 (utf8 (entry_serial r)))"

fun check_loop :: "nat \<Rightarrow> bool \<Rightarrow> prov_entry list \<Rightarrow> record_integrity list" where
  "check_loop idx seen_tokenise [] = []"
| "check_loop idx seen_tokenise (r # rs) =
     (let seen = (seen_tokenise \<or> pe_action r = ''TOKENISE''); bad = tampered_fields idx seen_tokenise (pe_action r) in
      \<lparr>ri_index = idx, ri_tx_id = pe_tx_id r, ri_hash = entry_hash r, ri_valid = (bad = []), ri_tampered = bad\<rparr>
        # check_loop (Suc idx) seen rs)"

definition check_integrity :: "string \<Rightarrow> prov_entry list \<Rightarrow> integrity_report" where
  "check_integrity asset_id provenance =
     (let records = check_loop 0 False provenance in
      \<lparr>ir_asset_id = asset_id, ir_total = length provenance, ir_valid = list_all ri_valid records,
       ir_tampered_count = length (filter (\<lambda>r. \<not> ri_valid r) records), ir_records = records\<rparr>)"

subsection \<open>The report task (tasks.py)\<close>

record report_event =
  re_name :: string
  re_chaincode :: string
  re_fabric_tx :: string
  re_block :: int
  re_payload :: string

definition report_dir :: string where "report_dir = ''/tmp/rwa-reports''"

definition compact_stamp :: "datetime \<Rightarrow> string" where
  "compact_stamp t =
     dec_nat (dt_year t) @ dec_pad 2 (dt_month t) @ dec_pad 2 (dt_day t) @ dec_pad 2 (dt_hour t) @ dec_pad 2 (dt_minute t) @
     dec_pad 2 (dt_second t)"

definition report_path :: "string \<Rightarrow> datetime \<Rightarrow> string" where
  "report_path asset_id now =
     (if starts_with asset_id ''/'' then [] else report_dir @ ''/'') @ asset_id @ ''_'' @ compact_stamp now @ ''.pdf''"

definition report_row :: "string \<Rightarrow> string \<Rightarrow> bool \<Rightarrow> string \<Rightarrow> report_event" where
  "report_row asset_id path valid by_id =
     \<lparr>re_name = ''AUDIT_REPORT_READY'', re_chaincode = ''rwa-token'', re_fabric_tx = ''N/A'', re_block = 0,
      re_payload = dumps (JObj [(''asset_id'', JStr asset_id), (''file_path'', JStr path),
        (''integrity_valid'', JBool valid), (''generated_by'', JStr by_id)])\<rparr>"

text \<open>
  \<open>render\<close>: the PDF of the report generator, \<open>None\<close> when it raises. The outcome is the file written, the
  row inserted and the verdict returned; the commit is assumed to succeed.
\<close>

definition do_generate_audit ::
    "('l \<Rightarrow> string \<Rightarrow> string list \<Rightarrow> 'l \<times> (app_error + pyval)) \<Rightarrow> (pyval \<Rightarrow> datetime option) \<Rightarrow>
     (string \<Rightarrow> (string \<times> pyval) list \<Rightarrow> prov_entry list \<Rightarrow> integrity_report \<Rightarrow> bytes option) \<Rightarrow> datetime \<Rightarrow> 'l \<Rightarrow>
     string \<Rightarrow> string \<Rightarrow> 'l \<times> (app_error + (string \<times> bytes) \<times> report_event \<times> bool)" where
  "do_generate_audit evaluate isoparse render now l asset_id requested_by =
     (case get_provenance evaluate isoparse l asset_id of
        (l1, Inl e) \<Rightarrow> (l1, Inl e)
      | (l1, Inr provenance) \<Rightarrow>
          (case get_asset_state evaluate l1 asset_id of
             (l2, Inl e) \<Rightarrow> (l2, Inl e)
           | (l2, Inr state) \<Rightarrow>
               let report = check_integrity asset_id provenance; path = report_path asset_id now in
               (l2, case render asset_id state provenance report of
                      None \<Rightarrow> Inl UnhandledError
                    | Some pdf \<Rightarrow> Inr ((path, pdf), report_row asset_id path (ir_valid report) requested_by, ir_valid report))))"

subsection \<open>The trail endpoint (router.py)\<close>

definition fetch_audit_trail ::
    "user list \<Rightarrow> string option \<Rightarrow> ('l \<Rightarrow> string \<Rightarrow> string list \<Rightarrow> string \<Rightarrow> 'l \<times> (app_error + pyval)) \<Rightarrow> 'l \<Rightarrow> string \<Rightarrow>
     'l \<times> (app_error + (string \<times> bool \<times> pyval))" where
  "fetch_audit_trail users sub evaluate l asset_id =
     (case require_role [''AUDITEUR'', ''REGULATEUR''] users sub of
        Inl e \<Rightarrow> (l, Inl e)
      | Inr u \<Rightarrow>
          (case resolve_identity u of
             Inl e \<Rightarrow> (l, Inl e)
           | Inr ident \<Rightarrow>
               (case evaluate l ''GetProvenanceTrail'' [asset_id] ident of
                  (l', Inl e) \<Rightarrow> (l', Inl e)
                | (l', Inr payload) \<Rightarrow> (l', Inr (asset_id, True, payload)))))"

subsection \<open>What the check establishes\<close>

lemma check_loop_later:
  "0 < idx \<Longrightarrow> seen \<Longrightarrow> list_all ri_valid (check_loop idx seen rs) \<longleftrightarrow> set (map pe_action rs) \<subseteq> set allowed_actions"
  by (induction rs arbitrary: idx seen) (auto simp: tampered_fields_def Let_def)

lemma check_valid:
  "ir_valid (check_integrity i rs) \<longleftrightarrow>
     rs = [] \<or> pe_action (hd rs) = ''TOKENISE'' \<and> set (map pe_action rs) \<subseteq> set allowed_actions"
proof (cases rs)
  case (Cons r rs')
  then show ?thesis using check_loop_later [of 1 True rs']
    by (auto simp: check_integrity_def tampered_fields_def allowed_actions_def Let_def)
qed (simp add: check_integrity_def)

text \<open>C30: A trail is reported intact exactly when it is empty, or starts with the tokenisation and holds no
  unknown action. In particular any trail made of the actions of an intact one, in any number and
  order after a first tokenisation, is reported intact too, whatever its amounts, owners, actors,
  times and transaction ids.\<close>

theorem integrity_checks_actions_only:
  "(ir_valid (check_integrity i rs) \<longleftrightarrow>
      rs = [] \<or> pe_action (hd rs) = ''TOKENISE'' \<and> set (map pe_action rs) \<subseteq> set allowed_actions) \<and>
   (ir_valid (check_integrity i rs) \<and> rs \<noteq> [] \<and> rs' \<noteq> [] \<and> pe_action (hd rs') = ''TOKENISE'' \<and>
      set (map pe_action rs') \<subseteq> set (map pe_action rs) \<longrightarrow>
    ir_valid (check_integrity i rs') \<and> ir_tampered_count (check_integrity i rs') = 0)"
proof (intro conjI impI)
  assume h: "ir_valid (check_integrity i rs) \<and> rs \<noteq> [] \<and> rs' \<noteq> [] \<and> pe_action (hd rs') = ''TOKENISE'' \<and>
      set (map pe_action rs') \<subseteq> set (map pe_action rs)"
  then show valid: "ir_valid (check_integrity i rs')" by (auto simp: check_valid)
  then show "ir_tampered_count (check_integrity i rs') = 0"
    by (simp add: check_integrity_def Let_def list_all_iff filter_empty_conv)
qed (rule check_valid)

definition sample_entry :: "string \<Rightarrow> string \<Rightarrow> prov_entry" where
  "sample_entry t act = \<lparr>pe_tx_id = t, pe_timestamp = None, pe_actor_msp = ''BANK01MSP'', pe_actor_dn = ''CN=a'', pe_action = act,
     pe_from_owner = [], pe_to_owner = ''CN=b'', pe_amount = Fin 1, pe_justification = [], pe_block_number = 0\<rparr>"

theorem integrity_checks_actions_only_witness:
  "ir_valid (check_integrity ''A'' [(sample_entry ''t2'' ''TOKENISE'')\<lparr>pe_amount := Fin 999, pe_to_owner := ''CN=thief''\<rparr>])"
proof -
  have "ir_valid (check_integrity ''A'' [sample_entry ''t1'' ''TOKENISE'', sample_entry ''t2'' ''TRANSFERE''])"
    by (simp add: check_valid sample_entry_def allowed_actions_def)
  with integrity_checks_actions_only [of "''A''" "[sample_entry ''t1'' ''TOKENISE'', sample_entry ''t2'' ''TRANSFERE'']"
      "[(sample_entry ''t2'' ''TOKENISE'')\<lparr>pe_amount := Fin 999, pe_to_owner := ''CN=thief''\<rparr>]"]
  show ?thesis by (simp add: sample_entry_def)
qed

subsection \<open>Trails of the contract\<close>

text \<open>What the audit service reads of a record of the contract.\<close>

definition entry_of :: "provenance_record \<Rightarrow> prov_entry" where
  "entry_of r = \<lparr>pe_tx_id = pr_TxID r, pe_timestamp = Some (pr_Timestamp r), pe_actor_msp = pr_ActorMSP r,
     pe_actor_dn = pr_ActorDN r, pe_action = pr_Action r, pe_from_owner = pr_FromOwner r, pe_to_owner = pr_ToOwner r,
     pe_amount = pr_Amount r, pe_justification = pr_Justification r, pe_block_number = 0\<rparr>"

lemma snake_keys:
  "snake_key ''txID'' = ''tx_id''" "snake_key ''timestamp'' = ''timestamp''" "snake_key ''actorMSP'' = ''actor_msp''"
  "snake_key ''actorDN'' = ''actor_dn''" "snake_key ''action'' = ''action''" "snake_key ''fromOwner'' = ''from_owner''"
  "snake_key ''toOwner'' = ''to_owner''" "snake_key ''amount'' = ''amount''" "snake_key ''justification'' = ''justification''"
  by code_simp+

definition is_double :: "xfloat \<Rightarrow> bool" where
  "is_double x \<longleftrightarrow> (case x of Fin y \<Rightarrow> xround y = Fin y | _ \<Rightarrow> False)"

lemma convert_number: "convert_keys (json_number x) = json_number x"
  by (auto simp: json_number_def split: xfloat.splits)

lemma read_number: "is_double x \<Longrightarrow> py_float (json_number x) = Some x"
  by (auto simp: json_number_def is_double_def split: xfloat.splits)

lemma convert_record:
  "convert_keys (provenance_json r) = PDict
     [(''tx_id'', PStr (pr_TxID r)), (''timestamp'', PStr (json_time (pr_Timestamp r))),
      (''actor_msp'', PStr (pr_ActorMSP r)), (''actor_dn'', PStr (pr_ActorDN r)), (''action'', PStr (pr_Action r)),
      (''from_owner'', PStr (pr_FromOwner r)), (''to_owner'', PStr (pr_ToOwner r)), (''amount'', json_number (pr_Amount r)),
      (''justification'', PStr (pr_Justification r))]"
  by (simp add: provenance_json_def snake_keys convert_number dict_of_id)

definition readable_record :: "(pyval \<Rightarrow> datetime option) \<Rightarrow> provenance_record \<Rightarrow> bool" where
  "readable_record isoparse r \<longleftrightarrow>
     pr_TxID r \<noteq> [] \<and> pr_ActorMSP r \<noteq> [] \<and> pr_Action r \<noteq> [] \<and> is_double (pr_Amount r) \<and>
     isoparse (PStr (json_time (pr_Timestamp r))) = Some (pr_Timestamp r)"

lemma json_time_nonempty [simp]: "json_time t \<noteq> []"
  by (simp add: json_time_def)

lemma read_record:
  assumes "readable_record isoparse r"
  shows "\<exists>d. convert_keys (provenance_json r) = PDict d \<and> read_entry isoparse d = Some (entry_of r)"
  using assms unfolding convert_record
  by (simp add: read_entry_def get_text_def read_timestamp_def dict_get_def readable_record_def read_number entry_of_def)

lemma read_trail:
  "list_all (readable_record isoparse) rs \<Longrightarrow>
   read_entries isoparse (map (\<lambda>r. convert_keys (provenance_json r)) rs) = Some (map entry_of rs)"
proof (induction rs)
  case (Cons r rs)
  then show ?case using read_record [of isoparse r] by auto
qed simp

lemma legal_actions:
  "legal_trail rs \<Longrightarrow> r \<in> set rs \<Longrightarrow> pr_Action r \<in> set allowed_actions \<and> pr_ActorMSP r \<noteq> []"
proof -
  assume legal: "legal_trail rs" and "r \<in> set rs"
  then obtain k where k: "k < length rs" "r = rs ! k" by (auto simp: in_set_conv_nth)
  show ?thesis
  proof (cases k)
    case 0
    then show ?thesis using legal k by (auto simp: legal_trail_def hd_conv_nth allowed_actions_def EqualFold_def lower_def)
  next
    case (Suc j)
    then have "may_act (status_after (take k rs)) r" using legal k by (auto simp: legal_trail_def)
    then show ?thesis by (auto simp: may_act_def allowed_actions_def EqualFold_def lower_def)
  qed
qed


fun call_amount :: "tx \<Rightarrow> xfloat" where
  "call_amount (Tokenize i isin ty nm lei v cur d j) = v"
| "call_amount (Transfer i owner j p) = p"
| "call_amount (Freeze i r ref) = Fin 0"
| "call_amount (Unfreeze i j) = Fin 0"

text \<open>Every record on the ledger was there before or carries the transaction's id, time and amount.\<close>

lemma execute_records:
  assumes "execute ctx ws t = Inr (ws', ev)" "ws' i = Some b" "r \<in> set (fa_Provenance b)"
  shows "(\<exists>a. ws i = Some a \<and> r \<in> set (fa_Provenance a)) \<or>
    pr_TxID r = ctx_txid ctx \<and> ctx_timestamp ctx = Some (pr_Timestamp r) \<and> pr_Amount r = call_amount t"
  using assms
  by (cases t)
    (auto simp: TokenizeAsset_def TransferAsset_def FreezeAsset_def UnfreezeAsset_def actor_Inr commit_asset_Inr getAsset_def
      getTxTimestamp_def Let_def split: sum.splits if_splits option.splits)

definition auditable_call :: "(pyval \<Rightarrow> datetime option) \<Rightarrow> tx_context \<times> tx \<Rightarrow> bool" where
  "auditable_call isoparse ct \<longleftrightarrow>
     ctx_txid (fst ct) \<noteq> [] \<and> is_double (call_amount (snd ct)) \<and>
     (case ctx_timestamp (fst ct) of None \<Rightarrow> True | Some ts \<Rightarrow> isoparse (PStr (json_time ts)) = Some ts)"

definition auditable_record :: "(pyval \<Rightarrow> datetime option) \<Rightarrow> provenance_record \<Rightarrow> bool" where
  "auditable_record isoparse r \<longleftrightarrow>
     pr_TxID r \<noteq> [] \<and> is_double (pr_Amount r) \<and> isoparse (PStr (json_time (pr_Timestamp r))) = Some (pr_Timestamp r)"

lemma run_auditable:
  assumes "\<And>i a r. ws i = Some a \<Longrightarrow> r \<in> set (fa_Provenance a) \<Longrightarrow> auditable_record isoparse r"
    and "list_all (auditable_call isoparse) cts" "foldl cc_step ws cts i = Some a" "r \<in> set (fa_Provenance a)"
  shows "auditable_record isoparse r"
  using assms
proof (induction cts arbitrary: ws)
  case (Cons ct cts)
  have "auditable_record isoparse q" if "cc_step ws ct j = Some b" "q \<in> set (fa_Provenance b)" for j b q
  proof (cases "execute (fst ct) ws (snd ct)")
    case (Inr p)
    then obtain ws' ev where "execute (fst ct) ws (snd ct) = Inr (ws', ev)" "cc_step ws ct = ws'"
      by (cases p) (simp add: cc_step_def)
    then show ?thesis using execute_records [of "fst ct" ws "snd ct" ws' ev j b q] that Cons.prems(1,2)
      by (auto simp: auditable_call_def auditable_record_def)
  qed (use that Cons.prems(1) in \<open>simp add: cc_step_def\<close>)
  then show ?case using Cons.IH [of "cc_step ws ct"] Cons.prems(2-4) by auto
qed simp

text \<open>C29: After any run of the contract whose calls have transaction ids, floating-point amounts and times the
  parser reads back, the audit of an asset reads its whole trail, record by record and field by field,
  and reports it intact.\<close>

theorem contract_trail_audits_intact:
  assumes "foldl cc_step (\<lambda>_. None) cts i = Some a" and "list_all (auditable_call isoparse) cts"
  shows "trail_of isoparse (convert_keys (PList (map provenance_json (fa_Provenance a)))) = Some (map entry_of (fa_Provenance a)) \<and>
    ir_valid (check_integrity i (map entry_of (fa_Provenance a))) \<and>
    ir_total (check_integrity i (map entry_of (fa_Provenance a))) = length (fa_Provenance a)"
proof -
  have "ledger_inv (foldl cc_step (\<lambda>_. None) cts)" by (rule contract.inv_run) (simp add: ledger_inv_def)
  then have legal: "legal_trail (fa_Provenance a)" using assms(1) by (auto simp: ledger_inv_def asset_inv_def)
  have "readable_record isoparse r" if "r \<in> set (fa_Provenance a)" for r
  proof -
    have "auditable_record isoparse r"
      by (rule run_auditable [of "\<lambda>_. None", OF _ assms(2,1) that]) simp
    then show ?thesis using legal_actions [OF legal that]
      by (auto simp: auditable_record_def readable_record_def allowed_actions_def)
  qed
  then have "list_all (readable_record isoparse) (fa_Provenance a)" by (simp add: list_all_iff)
  from read_trail [OF this] have
    "trail_of isoparse (convert_keys (PList (map provenance_json (fa_Provenance a)))) = Some (map entry_of (fa_Provenance a))"
    by (simp add: trail_of_def comp_def)
  moreover have "ir_valid (check_integrity i (map entry_of (fa_Provenance a)))"
    using legal legal_actions [OF legal] by (auto simp: check_valid legal_trail_def entry_of_def hd_map)
  ultimately show ?thesis by (simp add: check_integrity_def Let_def)
qed

definition sample_isoparse :: "pyval \<Rightarrow> datetime option" where
  "sample_isoparse v = ctx_timestamp (sample_ctx [])"

theorem contract_trail_audits_intact_witness:
  "\<exists>a. foldl cc_step (\<lambda>_. None) sample_txs sample_asset_id = Some a \<and>
     ir_valid (check_integrity sample_asset_id (map entry_of (fa_Provenance a)))"
proof -
  obtain a where a: "foldl cc_step (\<lambda>_. None) sample_txs sample_asset_id = Some a" using sample_run by auto
  have "list_all (auditable_call sample_isoparse) sample_txs"
    using rnd_of_int [of 100] rnd_of_int [of 90] rnd_of_int [of 80]
    by (simp add: sample_txs_def auditable_call_def sample_tokenize_def sample_ctx_def sample_isoparse_def is_double_def xround_def Let_def)
  with contract_trail_audits_intact [OF a] a show ?thesis by auto
qed

subsection \<open>Reports\<close>

text \<open>The report of an asset of the ledger is written into the report directory itself.\<close>

lemma asset_id_no_slash: "rx_match assetIDPattern i \<Longrightarrow> CHR ''/'' \<notin> set i"
  by (erule rx_match_chars) code_simp

lemma dec_no_slash: "CHR ''/'' \<notin> set (dec_nat n)" "CHR ''/'' \<notin> set (dec_pad k n)"
proof -
  have digits: "CHR ''/'' \<notin> set s" if "list_all is_digit s" for s
    using that by (auto simp: list_all_iff is_digit_def)
  then show "CHR ''/'' \<notin> set (dec_nat n)" using dec_nat_digits by blast
  have "list_all is_digit (dec_pad k n)" by (induction k arbitrary: n) simp_all
  then show "CHR ''/'' \<notin> set (dec_pad k n)" using digits by blast
qed

theorem report_stays_in_directory:
  assumes "foldl cc_step (\<lambda>_. None) cts i = Some a"
  shows "\<exists>name. report_path i now = report_dir @ ''/'' @ name \<and> CHR ''/'' \<notin> set name"
proof -
  have "ledger_inv (foldl cc_step (\<lambda>_. None) cts)" by (rule contract.inv_run) (simp add: ledger_inv_def)
  then have "rx_match assetIDPattern i" using assms by (auto simp: ledger_inv_def asset_inv_def)
  then have slash: "CHR ''/'' \<notin> set i" by (rule asset_id_no_slash)
  then have "\<not> starts_with i ''/''" by (cases i) (auto simp: starts_with_def)
  moreover have "CHR ''/'' \<notin> set (compact_stamp now)" by (simp add: compact_stamp_def dec_no_slash)
  ultimately show ?thesis using slash
    by (intro exI [of _ "i @ ''_'' @ compact_stamp now @ ''.pdf''"]) (simp add: report_path_def)
qed

end
