(* ===== verification/Grpc.thy ===== *)
theory Grpc
  imports Auth
begin

text \<open>
  The interceptors of the gRPC server (core/grpc_server/interceptors.py) and the order in which server.py
  installs them. A method handler registered by the generated code is a named tuple, which has
  \<open>_replace\<close>; the handler built by \<open>AuthInterceptor\<close> is a plain object, which has not. gRPC gives
  control to the interceptors in the order of the list, so the first wraps what the others return.
\<close>

subsection \<open>Handlers and interceptors\<close>

datatype rpc_handler =
    Registered
  | AuthHandler rpc_handler
  | LoggedHandler rpc_handler

datatype interceptor = LoggingInterceptor | AuthInterceptor

fun has_replace :: "rpc_handler \<Rightarrow> bool" where
  "has_replace Registered = True"
| "has_replace (AuthHandler h) = False"
| "has_replace (LoggedHandler h) = True"

text \<open>\<open>None\<close>: no method of that name. \<open>Inl OtherException\<close>: an \<open>AttributeError\<close>. No method is public.\<close>

fun intercept_service :: "interceptor \<Rightarrow> rpc_handler option \<Rightarrow> exc + rpc_handler option" where
  "intercept_service AuthInterceptor None = Inl OtherException"
| "intercept_service AuthInterceptor (Some h) = Inr (Some (AuthHandler h))"
| "intercept_service LoggingInterceptor None = Inr None"
| "intercept_service LoggingInterceptor (Some h) =
     (if has_replace h then Inr (Some (LoggedHandler h)) else Inl OtherException)"

fun intercept_chain :: "interceptor list \<Rightarrow> rpc_handler option \<Rightarrow> exc + rpc_handler option" where
  "intercept_chain [] h = Inr h"
| "intercept_chain (i # is) h = (case intercept_chain is h of Inl e \<Rightarrow> Inl e | Inr h' \<Rightarrow> intercept_service i h')"

definition server_interceptors :: "interceptor list" where
  "server_interceptors = [LoggingInterceptor, AuthInterceptor]"

subsection \<open>Calls\<close>

datatype rpc_outcome = RpcFailed | Unimplemented | Unauthenticated | Handled "claims option"

text \<open>The first \<open>authorization\<close> entry with the Bearer scheme.\<close>

fun grpc_extract_token :: "(string \<times> string) list \<Rightarrow> string option" where
  "grpc_extract_token [] = None"
| "grpc_extract_token ((k, v) # md) =
     (if k = ''authorization'' \<and> starts_with v ''Bearer '' then Some (drop 7 v) else grpc_extract_token md)"

fun call_handler ::
  "decoder \<Rightarrow> oidc_settings \<Rightarrow> jwks_cache \<Rightarrow> auth_env \<Rightarrow> (string \<times> string) list \<Rightarrow> claims option \<Rightarrow> rpc_handler
    \<Rightarrow> jwks_cache \<times> rpc_outcome" where
  "call_handler dec st c env md payload Registered = (c, Handled payload)"
| "call_handler dec st c env md payload (LoggedHandler h) = call_handler dec st c env md payload h"
| "call_handler dec st c env md payload (AuthHandler h) =
     (let token = grpc_extract_token md in
      if \<not> truthy token then (c, Unauthenticated)
      else case validate_token dec st c (en_fetch env) (en_refetch env) (en_now env) (the token) of
             (c', Inl ValueError) \<Rightarrow> (c', Unauthenticated)
           | (c', Inl OtherException) \<Rightarrow> (c', RpcFailed)
           | (c', Inr p) \<Rightarrow> call_handler dec st c' env md (Some p) h)"

definition serve_rpc ::
  "interceptor list \<Rightarrow> decoder \<Rightarrow> oidc_settings \<Rightarrow> jwks_cache \<Rightarrow> auth_env \<Rightarrow> bool \<Rightarrow> (string \<times> string) list
    \<Rightarrow> jwks_cache \<times> rpc_outcome" where
  "serve_rpc is dec st c env known md =
     (case intercept_chain is (if known then Some Registered else None) of
        Inl e \<Rightarrow> (c, RpcFailed)
      | Inr None \<Rightarrow> (c, Unimplemented)
      | Inr (Some h) \<Rightarrow> call_handler dec st c env md None h)"

subsection \<open>The order of server.py, and the other one\<close>

lemma serve_rpc_shipped: "serve_rpc server_interceptors dec st c env known md = (c, RpcFailed)"
  by (simp add: serve_rpc_def server_interceptors_def)

text \<open>C40: In the order server.py installs them, the interceptors fail every call before its token is read. In
  the other order they admit exactly the tokens the token check accepts: unlike the HTTP middleware
  they ask nothing of Redis, so a token that was logged out is still handled.\<close>

theorem grpc_interceptor_order:
  "serve_rpc server_interceptors dec st c env known md = (c, RpcFailed) \<and>
   (grpc_extract_token md = Some tok \<and> tok \<noteq> [] \<and>
    validate_token dec st c (en_fetch env) (en_refetch env) (en_now env) tok = (c', Inr p) \<longrightarrow>
      serve_rpc [AuthInterceptor, LoggingInterceptor] dec st c env True md = (c', Handled (Some p)) \<and>
      (en_redis_up env \<and> revoked R s (en_now env) p = Some True \<and> \<not> is_public (rq_path r) \<and> extract_token r = (Some tok, False) \<longrightarrow>
        auth_dispatch R dec st env c s r = (c', Refuse 401, None)))"
proof (intro conjI impI)
  assume h: "grpc_extract_token md = Some tok \<and> tok \<noteq> [] \<and>
    validate_token dec st c (en_fetch env) (en_refetch env) (en_now env) tok = (c', Inr p)"
  then show "serve_rpc [AuthInterceptor, LoggingInterceptor] dec st c env True md = (c', Handled (Some p))"
    by (simp add: serve_rpc_def)
  assume "en_redis_up env \<and> revoked R s (en_now env) p = Some True \<and> \<not> is_public (rq_path r) \<and> extract_token r = (Some tok, False)"
  with h show "auth_dispatch R dec st env c s r = (c', Refuse 401, None)"
    by (simp add: auth_dispatch_def check_revoked_def)
qed (rule serve_rpc_shipped)

text \<open>The token of the sample session, 100 seconds after its logout.\<close>

lemma sample_revoked:
  "revoked map_redis (logout_store map_redis [] 100 (sample_claims ''j-a'' 10)) 200 (sample_claims ''j-a'' 10) = Some True"
proof -
  have "logout_ttl (sample_claims ''j-a'' 10) 100 = 810" by (simp add: logout_ttl_def sample_claims_def or_zero_def)
  then have "r_get map_redis (logout_store map_redis [] 100 (sample_claims ''j-a'' 10)) 200 (blacklist_key ''j-a'') = Some ''1''"
    "r_get map_redis (logout_store map_redis [] 100 (sample_claims ''j-a'' 10)) 200 (invalidated_key ''u-1'') = Some (dec_int 10)"
    using map_server.get_logout_blacklist [of "sample_claims ''j-a'' 10" "''j-a''" 100 200 "[]"]
      map_server.get_logout_invalidated [of "sample_claims ''j-a'' 10" "''u-1''" 100 200 "[]"]
    by (simp_all add: sample_claims_def or_zero_def)
  moreover have "c_jti (sample_claims ''j-a'' 10) = Some ''j-a''" "c_sub (sample_claims ''j-a'' 10) = Some ''u-1''"
    by (simp_all add: sample_claims_def)
  ultimately show ?thesis by (simp add: revoked_def or_empty_def Let_def int10_dec_int)
qed

theorem grpc_interceptor_order_witness:
  "snd (serve_rpc server_interceptors sample_dec sample_settings sample_cache (sample_env 200) True [(''authorization'', ''Bearer A'')]) = RpcFailed \<and>
   snd (serve_rpc [AuthInterceptor, LoggingInterceptor] sample_dec sample_settings sample_cache (sample_env 200) True
     [(''authorization'', ''Bearer A'')]) = Handled (Some (sample_claims ''j-a'' 10)) \<and>
   fst (snd (auth_dispatch map_redis sample_dec sample_settings (sample_env 200) sample_cache
     (logout_store map_redis [] 100 (sample_claims ''j-a'' 10)) (bearer_request ''A''))) = Refuse 401"
proof -
  have md: "grpc_extract_token [(''authorization'', ''Bearer A'')] = Some ''A''" by (simp add: starts_with_def)
  have now: "en_now (sample_env 200) = 200" "en_redis_up (sample_env 200)" by (simp_all add: sample_env_def Let_def)
  have "sample_dec ks (issuer sample_settings) ''A'' 200 = Some (sample_claims ''j-a'' 10)" for ks by (simp add: sample_dec_def)
  then have v: "validate_token sample_dec sample_settings sample_cache (en_fetch (sample_env 200)) (en_refetch (sample_env 200))
      (en_now (sample_env 200)) ''A'' = (sample_cache, Inr (sample_claims ''j-a'' 10))"
    unfolding now by (rule sample_validates)
  from grpc_interceptor_order [of sample_dec sample_settings sample_cache "sample_env 200" True "[(''authorization'', ''Bearer A'')]" "''A''"
      sample_cache "sample_claims ''j-a'' 10" map_redis "logout_store map_redis [] 100 (sample_claims ''j-a'' 10)" "bearer_request ''A''"]
  show ?thesis using md v now sample_revoked sample_protected bearer_token by simp
qed

end
