(* ===== verification/Queries.thy ===== *)
theory Queries
  imports Account AssetLaws
begin

text \<open>
  The read endpoints over the tables: transactions (core/features/transactions/router.py), portfolios
  (core/features/auth/organizations_router.py), the audit log (core/features/audit/router.py) and the
  export of personal data (core/features/auth/router.py). Rows are appended with the clock of the
  insert, so newest first is the table read backwards.
\<close>

subsection \<open>Pages\<close>

definition valid_page :: "int \<Rightarrow> int \<Rightarrow> bool" where
  "valid_page limit offset \<longleftrightarrow> 1 \<le> limit \<and> limit \<le> 200 \<and> 0 \<le> offset"

definition page :: "int \<Rightarrow> int \<Rightarrow> 'a list \<Rightarrow> 'a list" where
  "page limit offset rows = take (nat limit) (drop (nat offset) rows)"

subsection \<open>Transactions\<close>

definition matching_transactions :: "string option \<Rightarrow> bool option \<Rightarrow> transaction list \<Rightarrow> transaction list" where
  "matching_transactions kind flag ts =
     filter (\<lambda>t. (truthy kind \<longrightarrow> Some (tx_type t) = kind) \<and> (\<forall>b \<in> set_option flag. tx_regulatory_flag t = b)) ts"

text \<open>The response model requires the initiator: a row without one fails the whole answer.\<close>

definition list_transactions ::
    "asset_db \<Rightarrow> string option \<Rightarrow> string option \<Rightarrow> bool option \<Rightarrow> int \<Rightarrow> int \<Rightarrow> app_error + transaction list" where
  "list_transactions db sub kind flag limit offset =
     (case get_current_user (cdb_users (ad_compliance db)) sub of
        Inl e \<Rightarrow> Inl e
      | Inr u \<Rightarrow>
          if \<not> valid_page limit offset then Inl (HTTPException 422)
          else let rows = page limit offset (rev (matching_transactions kind flag (ad_transactions db))) in
               if list_all (\<lambda>t. tx_initiator_id t \<noteq> None) rows then Inr rows else Inl UnhandledError)"

definition frozen_volume :: "asset_db \<Rightarrow> rat" where
  "frozen_volume db = sum_list (map tx_amount (filter (\<lambda>t. tx_type t = ''GEL'') (ad_transactions db)))"

definition get_transaction_stats :: "asset_db \<Rightarrow> string option \<Rightarrow> app_error + nat \<times> rat" where
  "get_transaction_stats db sub =
     (case get_current_user (cdb_users (ad_compliance db)) sub of
        Inl e \<Rightarrow> Inl e
      | Inr u \<Rightarrow> Inr (length (ad_transactions db), rnd (frozen_volume db)))"

definition get_transaction :: "asset_db \<Rightarrow> string option \<Rightarrow> string \<Rightarrow> app_error + transaction" where
  "get_transaction db sub ref =
     (case get_current_user (cdb_users (ad_compliance db)) sub of
        Inl e \<Rightarrow> Inl e
      | Inr u \<Rightarrow>
          (case scalar_one_or_none (filter (\<lambda>t. tx_ref t = ref) (ad_transactions db)) of
             NoRow \<Rightarrow> Inl (HTTPException 404)
           | ManyRows \<Rightarrow> Inl UnhandledError
           | OneRow t \<Rightarrow> if tx_initiator_id t = None then Inl UnhandledError else Inr t))"

subsection \<open>Portfolios\<close>

record portfolio =
  pf_total_assets_value :: rat
  pf_active_assets_count :: nat

definition get_portfolio :: "asset_db \<Rightarrow> string option \<Rightarrow> uuid \<Rightarrow> app_error + portfolio" where
  "get_portfolio db sub org =
     (case get_current_user (cdb_users (ad_compliance db)) sub of
        Inl e \<Rightarrow> Inl e
      | Inr u \<Rightarrow> Inr
          \<lparr>pf_total_assets_value = rnd (sum_list (map as_current_value
              (filter (\<lambda>a. as_issuer_org_id a = org \<and> as_status a \<noteq> ''REMBOURSE'') (ad_assets db)))),
           pf_active_assets_count =
              length (filter (\<lambda>a. as_issuer_org_id a = org \<and> as_status a = ''ACTIF'') (ad_assets db))\<rparr>)"

subsection \<open>The audit log\<close>

definition list_audit_logs :: "compliance_db \<Rightarrow> string option \<Rightarrow> int \<Rightarrow> int \<Rightarrow> app_error + audit_log list" where
  "list_audit_logs db sub limit offset =
     (case get_current_user (cdb_users db) sub of
        Inl e \<Rightarrow> Inl e
      | Inr u \<Rightarrow> if valid_page limit offset then Inr (page limit offset (rev (cdb_audit db))) else Inl (HTTPException 422))"

subsection \<open>Export of personal data\<close>

datatype tx_part = Initiator | Sender | Recipient

record export =
  ex_user :: user
  ex_compliance :: "compliance_record list"
  ex_documents :: "kyc_document list"
  ex_audit :: "audit_log list"
  ex_transactions :: "(transaction \<times> tx_part) list"
  ex_credentials :: "zkp_credential list"

definition involves :: "uuid \<Rightarrow> transaction \<Rightarrow> bool" where
  "involves i t \<longleftrightarrow> tx_initiator_id t = Some i \<or> tx_from_owner_id t = Some i \<or> tx_to_owner_id t = Some i"

definition part_of :: "uuid \<Rightarrow> transaction \<Rightarrow> tx_part" where
  "part_of i t = (if tx_initiator_id t = Some i then Initiator else if tx_from_owner_id t = Some i then Sender else Recipient)"

definition export_my_data :: "zkp_db \<Rightarrow> transaction list \<Rightarrow> string option \<Rightarrow> app_error + export" where
  "export_my_data db txs sub =
     (let cdb = zdb_compliance db in
      case get_current_user (cdb_users cdb) sub of
        Inl e \<Rightarrow> Inl e
      | Inr u \<Rightarrow> Inr
          \<lparr>ex_user = u,
           ex_compliance = filter (\<lambda>r. cr_participant_id r = user_id u) (cdb_records cdb),
           ex_documents = filter (\<lambda>d. kd_user_id d = user_id u) (cdb_documents cdb),
           ex_audit = take 100 (rev (filter (\<lambda>g. al_user_id g = user_id u) (cdb_audit cdb))),
           ex_transactions = map (\<lambda>t. (t, part_of (user_id u) t)) (take 500 (rev (filter (involves (user_id u)) txs))),
           ex_credentials = filter (\<lambda>c. zc_user_id c = user_id u) (zdb_credentials db)\<rparr>)"

subsection \<open>What the statistics count\<close>

lemma frozen_volume_snoc:
  "frozen_volume (db\<lparr>ad_assets := as, ad_transactions := ad_transactions db @ [t]\<rparr>) =
     frozen_volume db + (if tx_type t = ''GEL'' then tx_amount t else 0)"
  by (simp add: frozen_volume_def)

lemma frozen_volume_frame [simp]:
  "frozen_volume (db\<lparr>ad_compliance := c\<rparr>) = frozen_volume db" "frozen_volume (db\<lparr>ad_assets := as\<rparr>) = frozen_volume db"
  by (simp_all add: frozen_volume_def)

lemma commit_frozen:
  "commit_update env db a t = Some (db', row) \<Longrightarrow>
   frozen_volume db' = frozen_volume db + (if tx_type t = ''GEL'' then stored 20 4 (tx_amount t) else 0)"
  by (auto simp: commit_update_Some frozen_volume_snoc stored_transaction_def)

lemma frozen_tokenize: "tokenize submit env l db q label = (l', db', r) \<Longrightarrow> frozen_volume db' = frozen_volume db"
  by (auto simp: tokenize_def Let_def split: prod.splits sum.splits option.splits one.splits if_splits)

lemma frozen_transfer: "transfer submit env l db q label cu = (l', db', r) \<Longrightarrow> frozen_volume db' = frozen_volume db"
  by (auto simp: transfer_def transfer_rows_def Let_def dest!: commit_frozen
      split: prod.splits sum.splits option.splits one.splits if_splits bool.splits)

lemma frozen_unfreeze: "unfreeze_asset submit env l db q label cu = (l', db', r) \<Longrightarrow> frozen_volume db' = frozen_volume db"
  by (auto simp: unfreeze_asset_def regulatory_rows_def dest!: commit_frozen
      split: prod.splits sum.splits option.splits one.splits if_splits)

lemma frozen_valuation: "record_valuation env db i q = (db', r) \<Longrightarrow> frozen_volume db' = frozen_volume db"
  by (auto simp: record_valuation_def frozen_volume_def Let_def split: one.splits if_splits)

lemma frozen_freeze:
  "freeze submit env l db q label cu = (l', db', r) \<Longrightarrow>
   case r of Inl _ \<Rightarrow> frozen_volume db' = frozen_volume db
   | Inr _ \<Rightarrow> \<exists>a. by_asset_id db (fq_asset_id q) = OneRow a \<and> frozen_volume db' = frozen_volume db + stored 20 4 (as_nominal_value a)"
  by (auto simp: freeze_def regulatory_rows_def dest!: commit_frozen
      split: prod.splits sum.splits option.splits one.splits if_splits)


text \<open>The frozen volume of the statistics grows by the nominal value of the asset with every freeze that
  succeeds and is changed by no other operation: an unfreeze does not take it back, so it is the volume
  ever frozen and not the volume frozen now.\<close>

theorem frozen_volume_never_released:
  assumes "run_op submit env (l, db) op = ((l', db'), r)"
  shows "case op of
      OpFreeze q label cu \<Rightarrow>
        (case r of
           Inl e \<Rightarrow> frozen_volume db' = frozen_volume db
         | Inr _ \<Rightarrow> \<exists>a. by_asset_id db (fq_asset_id q) = OneRow a \<and>
             frozen_volume db' = frozen_volume db + stored 20 4 (as_nominal_value a))
    | _ \<Rightarrow> frozen_volume db' = frozen_volume db"
proof (cases op)
  case (OpFreeze q label cu)
  then obtain r' where f: "freeze submit env l db q label cu = (l', db', r')" "r = map_sum id (\<lambda>_. ()) r'"
    using assms by (auto split: prod.splits)
  show ?thesis using frozen_freeze [OF f(1)] f(2) OpFreeze by (cases r') auto
qed (use assms in \<open>auto split: prod.splits dest: frozen_tokenize frozen_transfer frozen_unfreeze frozen_valuation\<close>)

theorem frozen_volume_never_released_witness:
  "frozen_volume (snd (fst (run_op sample_submit sample_asset_env (sample_ledger, sample_asset_db ''GELE'')
      (OpUnfreeze sample_unfreeze ''admin@reg01-regulateur'' None)))) = frozen_volume (sample_asset_db ''GELE'')"
proof -
  obtain l' db' r where run: "run_op sample_submit sample_asset_env (sample_ledger, sample_asset_db ''GELE'')
      (OpUnfreeze sample_unfreeze ''admin@reg01-regulateur'' None) = ((l', db'), r)"
    by (metis prod.exhaust)
  from frozen_volume_never_released [OF run] show ?thesis unfolding run by simp
qed

subsection \<open>Pages cover the table\<close>

lemma pages_cover: "concat (map (\<lambda>k. take m (drop (k * m) xs)) [0 ..< n]) = take (n * m) xs"
proof (induction n)
  case (Suc n)
  then show ?case by (simp add: take_add add.commute [of m])
qed simp

text \<open>Reading page after page of the transactions, with any page size the endpoint admits, shows every
  transaction that matches the filters exactly once, newest first.\<close>

theorem transaction_pages_cover:
  assumes "get_current_user (cdb_users (ad_compliance db)) sub = Inr u" and "1 \<le> limit" and "limit \<le> 200"
    and "list_all (\<lambda>t. tx_initiator_id t \<noteq> None) (ad_transactions db)"
    and "length (ad_transactions db) \<le> n * nat limit"
  shows "concat (map (\<lambda>k. projr (list_transactions db sub kind flag limit (int k * limit))) [0 ..< n]) =
      rev (matching_transactions kind flag (ad_transactions db)) \<and>
    (\<forall>k. isl (list_transactions db sub kind flag limit (int k * limit)) = False)"
proof -
  let ?m = "matching_transactions kind flag (ad_transactions db)"
  have init: "list_all (\<lambda>t. tx_initiator_id t \<noteq> None) (page limit off (rev ?m))" for off
  proof -
    have "set (page limit off (rev ?m)) \<subseteq> set (ad_transactions db)"
      using set_take_subset [of "nat limit" "drop (nat off) (rev ?m)"] set_drop_subset [of "nat off" "rev ?m"]
      by (auto simp: page_def matching_transactions_def)
    then show ?thesis using assms(4) by (auto simp: list_all_iff)
  qed
  have off: "nat (int k * limit) = k * nat limit" for k using assms(2) by (simp add: nat_mult_distrib)
  have run: "list_transactions db sub kind flag limit (int k * limit) = Inr (take (nat limit) (drop (k * nat limit) (rev ?m)))" for k
    using assms(1-3) init [of "int k * limit"] by (simp add: list_transactions_def valid_page_def page_def off)
  have "length (rev ?m) \<le> n * nat limit" using assms(5)
    by (simp add: matching_transactions_def order_trans [OF length_filter_le])
  then show ?thesis using pages_cover [of "nat limit" "rev ?m" n] by (simp add: run)
qed

subsection \<open>What an export holds\<close>

text \<open>An export holds the caller's own rows and no one else's: all compliance records, documents and
  credentials, and the newest audit entries and transactions up to 100 and 500, so the export of a user
  with more of them is incomplete.\<close>

theorem export_holds_own_rows:
  assumes "export_my_data db txs sub = Inr e" and "i = user_id (ex_user e)"
  shows "keycloak_sub (ex_user e) = sub \<and>
    set (ex_compliance e) = {r \<in> set (cdb_records (zdb_compliance db)). cr_participant_id r = i} \<and>
    set (ex_documents e) = {d \<in> set (cdb_documents (zdb_compliance db)). kd_user_id d = i} \<and>
    set (ex_credentials e) = {c \<in> set (zdb_credentials db). zc_user_id c = i} \<and>
    map fst (ex_transactions e) = take 500 (rev (filter (involves i) txs)) \<and>
    ex_audit e = take 100 (rev (filter (\<lambda>g. al_user_id g = i) (cdb_audit (zdb_compliance db)))) \<and>
    (length (filter (involves i) txs) \<le> 500 \<longleftrightarrow> set (map fst (ex_transactions e)) = {t \<in> set txs. involves i t} \<and>
       length (ex_transactions e) = length (filter (involves i) txs))"
proof -
  obtain u where u: "get_current_user (cdb_users (zdb_compliance db)) sub = Inr u"
    using assms(1) by (auto simp: export_my_data_def Let_def split: sum.splits)
  then have e: "ex_user e = u" using assms(1) by (auto simp: export_my_data_def Let_def)
  let ?own = "filter (involves i) txs"
  have tx: "map fst (ex_transactions e) = take 500 (rev ?own)" "length (ex_transactions e) = min 500 (length ?own)"
    using assms u e by (auto simp: export_my_data_def Let_def comp_def)
  have "length ?own \<le> 500 \<longleftrightarrow> set (map fst (ex_transactions e)) = {t \<in> set txs. involves i t} \<and>
       length (ex_transactions e) = length ?own"
    unfolding tx by auto
  moreover have "keycloak_sub u = sub" using get_current_user_active [OF u] by simp
  moreover have "ex_compliance e = filter (\<lambda>r. cr_participant_id r = i) (cdb_records (zdb_compliance db))"
    "ex_documents e = filter (\<lambda>d. kd_user_id d = i) (cdb_documents (zdb_compliance db))"
    "ex_credentials e = filter (\<lambda>c. zc_user_id c = i) (zdb_credentials db)"
    "ex_audit e = take 100 (rev (filter (\<lambda>g. al_user_id g = i) (cdb_audit (zdb_compliance db))))"
    using assms u e by (auto simp: export_my_data_def Let_def)
  ultimately show ?thesis using e tx(1) by (simp only: set_filter simp_thms)
qed


definition viewed_db :: "nat \<Rightarrow> asset_db" where
  "viewed_db n =
     (let a = sample_asset_db ''ACTIF'' in
      a\<lparr>ad_compliance := (ad_compliance a)\<lparr>cdb_users := [sample_account\<lparr>keycloak_sub := Some ''u-1''\<rparr>]\<rparr>,
        ad_transactions := replicate n (snd (regulatory_rows sample_asset_env (hd (ad_assets a)) (Some sample_account) ''GELE'' ''GEL'' [] ([], None)))\<rparr>)"

lemma viewed_user: "\<exists>u. get_current_user (cdb_users (ad_compliance (viewed_db n))) (Some ''u-1'') = Inr u"
  by (simp add: viewed_db_def Let_def get_current_user_def sample_account_def)

theorem transaction_pages_cover_witness:
  "length (concat (map (\<lambda>k. projr (list_transactions (viewed_db 5) (Some ''u-1'') None None 2 (int k * 2))) [0 ..< 3])) = 5"
proof -
  obtain u where u: "get_current_user (cdb_users (ad_compliance (viewed_db 5))) (Some ''u-1'') = Inr u"
    using viewed_user by blast
  have "list_all (\<lambda>t. tx_initiator_id t \<noteq> None) (ad_transactions (viewed_db 5))"
    by (simp add: viewed_db_def Let_def regulatory_rows_def list_all_iff)
  from transaction_pages_cover [OF u _ _ this, of 2 3 None None] show ?thesis
    by (simp add: viewed_db_def Let_def matching_transactions_def)
qed

theorem export_holds_own_rows_witness:
  "\<exists>e. export_my_data erasable_db (ad_transactions (viewed_db 3)) (Some ''u-1'') = Inr e \<and>
     length (ex_transactions e) = 3 \<and> set (ex_credentials e) = {sample_credential}"
proof -
  let ?txs = "ad_transactions (viewed_db 3)" and ?u = "sample_account\<lparr>keycloak_sub := Some ''u-1''\<rparr>"
  have "get_current_user (cdb_users (zdb_compliance erasable_db)) (Some ''u-1'') = Inr ?u"
    by (simp add: erasable_db_def empty_db_def get_current_user_def sample_account_def)
  then obtain e where e: "export_my_data erasable_db ?txs (Some ''u-1'') = Inr e" "ex_user e = ?u"
    by (simp add: export_my_data_def Let_def)
  have own: "filter (involves (user_id ?u)) ?txs = ?txs" "length ?txs = 3" "zc_user_id sample_credential = user_id ?u"
    by (simp_all add: viewed_db_def Let_def involves_def regulatory_rows_def sample_account_def sample_credential_def)
  have "set (zdb_credentials erasable_db) = {sample_credential}" by (simp add: erasable_db_def)
  with export_holds_own_rows [OF e(1) refl] e own show ?thesis by auto
qed

end
