(* ===== verification/ComplianceTasks.thy ===== *)
theory ComplianceTasks
  imports Compliance Json
begin

text \<open>
  The periodic compliance tasks (core/features/compliance/tasks.py): warnings about KYC records that run
  out, the weekly AML screening of everyone who started a transaction, and the task that files a
  suspicious activity report.
\<close>

subsection \<open>Expiring records\<close>

record kyc_warning =
  kw_user_id :: uuid
  kw_email :: string
  kw_expires_at :: datetime
  kw_days_remaining :: nat

text \<open>\<open>(exp - now).days\<close> for an instant up to thirty days ahead: the whole days that have passed by then.\<close>

definition days_until :: "datetime \<Rightarrow> datetime \<Rightarrow> nat" where
  "days_until now t = length (filter (\<lambda>n. \<not> dt_less t (plus_days n now)) [1 ..< 31])"

definition expiring :: "datetime \<Rightarrow> compliance_record \<Rightarrow> bool" where
  "expiring now r \<longleftrightarrow> \<not> dt_less (cr_expires_at r) now \<and> \<not> dt_less (plus_days 30 now) (cr_expires_at r)"

definition do_kyc_expiry :: "compliance_db \<Rightarrow> datetime \<Rightarrow> kyc_warning list \<times> nat" where
  "do_kyc_expiry db now =
     (let rows = [(u, r). u \<leftarrow> cdb_users db, r \<leftarrow> cdb_records db, cr_participant_id r = user_id u \<and> expiring now r];
          warnings = map (\<lambda>(u, r). \<lparr>kw_user_id = user_id u, kw_email = user_email u, kw_expires_at = cr_expires_at r,
            kw_days_remaining = days_until now (cr_expires_at r)\<rparr>) rows
      in (warnings, length rows))"

subsection \<open>Periodic screening\<close>

text \<open>
  \<open>users\<close>: the distinct initiators of the last seven days, as the query returns them. Everyone is scored
  with amount 0; the result is the table, the users for whom a report task is queued, and the counts.
\<close>

fun screen_users :: "participant list \<Rightarrow> compliance_db \<Rightarrow> uuid list \<Rightarrow> compliance_db \<times> uuid list" where
  "screen_users parts db [] = (db, [])"
| "screen_users parts db (u # us) =
     (case aml_score_op parts db u (Fin 0) of
        (db1, a) \<Rightarrow>
          (case screen_users parts db1 us of
             (db2, queued) \<Rightarrow> (db2, if aml_sar_required a then u # queued else queued)))"

record screening_summary =
  ss_screened :: nat
  ss_updated :: nat
  ss_sar_generated :: nat

definition do_aml_screening ::
    "participant list \<Rightarrow> compliance_db \<Rightarrow> uuid list \<Rightarrow> compliance_db \<times> uuid list \<times> screening_summary" where
  "do_aml_screening parts db users =
     (case screen_users parts db users of
        (db', queued) \<Rightarrow>
          (db', queued, \<lparr>ss_screened = length users, ss_updated = length users, ss_sar_generated = length queued\<rparr>))"

text \<open>The queued task, with the arguments the screening passes.\<close>

definition do_generate_sar :: "compliance_db \<Rightarrow> datetime \<Rightarrow> nat option \<Rightarrow> bytes \<Rightarrow> uuid \<Rightarrow> (compliance_db \<times> string) option" where
  "do_generate_sar db now counter tail3 u = sar_generate db now counter tail3 u None ''EXCEED_THRESHOLD'' (Fin 0)"

subsection \<open>What the tasks do\<close>

lemma screen_users_queue:
  "snd (screen_users parts db us) =
     filter (\<lambda>u. 7500 < ten_thousandths (clamp_score (raw_score (load_indicators parts (lower (uuid_str u))) (Fin 0)))) us \<and>
   cdb_sars (fst (screen_users parts db us)) = cdb_sars db \<and> cdb_users (fst (screen_users parts db us)) = cdb_users db \<and>
   cdb_orgs (fst (screen_users parts db us)) = cdb_orgs db"
proof (induction us arbitrary: db)
  case (Cons u us)
  obtain db1 a where a: "aml_score_op parts db u (Fin 0) = (db1, a)" by fastforce
  show ?case using Cons.IH [of db1] aml_score_op_flags(2) [OF a] aml_score_op_tables [OF a] a
    by (auto split: prod.splits)
qed simp

lemma sar_reference_length:
  assumes "dt_year now < 10000" "length tail3 = 3" "case counter of None \<Rightarrow> True | Some n \<Rightarrow> n < 10 ^ 13"
  shows "length (sar_reference db now counter tail3 u) \<le> 50"
proof -
  have year: "length (dec_nat (dt_year now)) \<le> 4" using assms(1) length_dec_nat [of "dt_year now" 4] by simp
  have "(case counter of None \<Rightarrow> 0 | Some n \<Rightarrow> n) < 10 ^ 13" using assms(3) by (cases counter) auto
  then have "length (dec_nat (case counter of None \<Rightarrow> 0 | Some n \<Rightarrow> n)) \<le> 13" by (rule length_dec_nat) simp
  then have seq: "length (pad4 (case counter of None \<Rightarrow> 0 | Some n \<Rightarrow> n)) \<le> 13" by (simp add: pad4_def Let_def)
  have "length (bytes_hex bs) = 2 * length bs" for bs by (induction bs) (simp_all add: bytes_hex_Cons hex_byte_def)
  then have hex: "length (bytes_hex tail3) = 6" using assms(2) by simp
  have "length (resolve_org_code db u) \<le> 20" by (auto simp: resolve_org_code_def split: list.splits)
  then show ?thesis using year seq hex by (simp add: sar_reference_def)
qed

lemma screen_users_frame: "cdb_users (fst (screen_users parts db us)) = cdb_users db"
  by (induction parts db us rule: screen_users.induct)
    (auto simp: aml_score_op_def Let_def split: prod.splits option.splits)

text \<open>The periodic screening queues a report for exactly the initiators whose score, taken at amount zero,
  is above 0.75, in order; the queued task then files one draft about that participant when it has
  an account, under any reference that is still free.\<close>

theorem periodic_screening_reports:
  assumes "do_aml_screening parts db users = (db', queued, summary)"
  shows "queued = filter (\<lambda>u. 7500 < ten_thousandths (clamp_score (raw_score (load_indicators parts (lower (uuid_str u))) (Fin 0)))) users \<and>
    ss_screened summary = length users \<and> ss_sar_generated summary = length queued \<and> cdb_sars db' = cdb_sars db \<and>
    (\<forall>u now counter tail3. user_exists db u \<and> dt_year now < 10000 \<and> length tail3 = 3 \<and> (case counter of None \<Rightarrow> True | Some n \<Rightarrow> n < 10 ^ 13) \<and>
       sar_reference db' now counter tail3 u \<notin> sar_ref ` set (cdb_sars db') \<longrightarrow>
       (\<exists>db'' rep. do_generate_sar db' now counter tail3 u = Some (db'', sar_ref rep) \<and> cdb_sars db'' = cdb_sars db' @ [rep] \<and>
          sar_reported_user_id rep = u \<and> sar_status rep = ''DRAFT''))"
proof -
  have queue: "queued = snd (screen_users parts db users)" "db' = fst (screen_users parts db users)"
    "ss_screened summary = length users" "ss_sar_generated summary = length queued"
    using assms by (auto simp: do_aml_screening_def split: prod.splits)
  moreover have "\<exists>db'' rep. do_generate_sar db' now counter tail3 u = Some (db'', sar_ref rep) \<and> cdb_sars db'' = cdb_sars db' @ [rep] \<and>
          sar_reported_user_id rep = u \<and> sar_status rep = ''DRAFT''"
    if "user_exists db u \<and> dt_year now < 10000 \<and> length tail3 = 3 \<and> (case counter of None \<Rightarrow> True | Some n \<Rightarrow> n < 10 ^ 13) \<and>
       sar_reference db' now counter tail3 u \<notin> sar_ref ` set (cdb_sars db')" for u now counter and tail3 :: bytes
    using that sar_reference_length [of now tail3 counter db' u] screen_users_frame [of parts db users] queue(2)
    by (auto simp: user_exists_def do_generate_sar_def sar_generate_def sar_fits_def Let_def intro!: exI)
  ultimately show ?thesis using screen_users_queue [of parts db users] by simp
qed

definition screened_db :: compliance_db where
  "screened_db = rejected_db\<lparr>cdb_users :=
     [\<lparr>user_id = 7, user_org_id = 1, keycloak_sub = None, user_email = ''trader@bank'', user_first_name = None,
       user_last_name = None, user_role = ''TRADER'', user_msp_id = None, user_is_active = True, user_phone = None,
       user_last_login = None\<rparr>]\<rparr>"

theorem periodic_screening_reports_witness:
  "\<exists>db'' rep. do_generate_sar (fst (do_aml_screening [risky_participant 7] screened_db [7, 8])) sample_time None [1, 2, 3] 7 = Some (db'', sar_ref rep) \<and>
     cdb_sars db'' = [rep] \<and> sar_reported_user_id rep = 7"
proof -
  let ?r = "do_aml_screening [risky_participant 7] screened_db [7, 8]"
  have run: "?r = (fst ?r, fst (snd ?r), snd (snd ?r))" by simp
  have year: "dt_year sample_time < 10000" and user: "user_exists screened_db 7" and none: "cdb_sars screened_db = []"
    by (simp_all add: sample_time_def screened_db_def rejected_db_def empty_db_def user_exists_def)
  note facts = periodic_screening_reports [OF run]
  have sars: "cdb_sars (fst ?r) = []" using facts none by argo
  have filed: "user_exists screened_db 7 \<and> dt_year sample_time < 10000 \<and> length [1, 2, 3 :: byte] = 3 \<and> (case None of None \<Rightarrow> True | Some n \<Rightarrow> n < (10 :: nat) ^ 13) \<and>
       sar_reference (fst ?r) sample_time None [1, 2, 3] 7 \<notin> sar_ref ` set (cdb_sars (fst ?r)) \<longrightarrow>
     (\<exists>db'' rep. do_generate_sar (fst ?r) sample_time None [1, 2, 3] 7 = Some (db'', sar_ref rep) \<and> cdb_sars db'' = cdb_sars (fst ?r) @ [rep] \<and>
          sar_reported_user_id rep = 7 \<and> sar_status rep = ''DRAFT'')"
    using facts by blast
  have "user_exists screened_db 7 \<and> dt_year sample_time < 10000 \<and> length [1, 2, 3 :: byte] = 3 \<and> (case None of None \<Rightarrow> True | Some n \<Rightarrow> n < (10 :: nat) ^ 13) \<and>
       sar_reference (fst ?r) sample_time None [1, 2, 3] 7 \<notin> sar_ref ` set (cdb_sars (fst ?r))"
    unfolding sars using year user by simp
  from mp [OF filed this] show ?thesis unfolding sars by auto
qed

text \<open>Every record that runs out within thirty days is warned about once per user it belongs to.\<close>

lemma kyc_expiry_warnings:
  "(w \<in> set (fst (do_kyc_expiry db now))) \<longleftrightarrow>
     (\<exists>u \<in> set (cdb_users db). \<exists>r \<in> set (cdb_records db). cr_participant_id r = user_id u \<and> expiring now r \<and>
        w = \<lparr>kw_user_id = user_id u, kw_email = user_email u, kw_expires_at = cr_expires_at r,
             kw_days_remaining = days_until now (cr_expires_at r)\<rparr>)"
  by (force simp: do_kyc_expiry_def Let_def)

end
