(* ===== verification/Wallet.thy ===== *)
theory Wallet
  imports Json "HOL-Library.Sublist"
begin

text \<open>
  The Fabric wallet (core/fabric_client/wallet.py): identities with certificates in memory, private keys in
  HashiCorp Vault. The certificate parser, the file system (path resolution, existence, contents) and
  whether Vault answers are parameters; what Vault stores is a map from labels to keys.
\<close>

subsection \<open>Certificates and identities\<close>

record cert =
  ct_not_before :: datetime
  ct_not_after :: datetime
  ct_common_names :: "string list"

record identity =
  id_label :: string
  id_cert_pem :: string
  id_msp_id :: string

record wallet =
  wl_identities :: "(string \<times> identity) list"
  wl_vault :: "string \<rightharpoonup> string"

datatype wallet_error = PyValueError | PyPermissionError | PyRuntimeError | PyKeyError

text \<open>\<open>load\<close> parses a PEM certificate; \<open>None\<close>: it raises \<open>ValueError\<close>.\<close>

definition validate_certificate :: "(string \<Rightarrow> cert option) \<Rightarrow> datetime \<Rightarrow> string \<Rightarrow> bool" where
  "validate_certificate load now pem =
     (case load pem of
        None \<Rightarrow> False
      | Some c \<Rightarrow> \<not> dt_less now (ct_not_before c) \<and> \<not> dt_less (ct_not_after c) now \<and>
          (case ct_common_names c of [] \<Rightarrow> False | n # _ \<Rightarrow> n \<noteq> []))"

record wallet_env =
  we_load :: "string \<Rightarrow> cert option"
  we_now :: datetime
  we_production :: bool

text \<open>\<open>vault_up\<close>: Vault accepts this write. Outside production a failed write is only logged.\<close>

definition put_identity ::
    "wallet_env \<Rightarrow> wallet \<Rightarrow> bool \<Rightarrow> string \<Rightarrow> string \<Rightarrow> string \<Rightarrow> string \<Rightarrow> wallet \<times> wallet_error option" where
  "put_identity env w vault_up label cert_pem private_key_pem msp_id =
     (if \<not> validate_certificate (we_load env) (we_now env) cert_pem then (w, Some PyValueError)
      else if \<not> vault_up \<and> we_production env then (w, Some PyRuntimeError)
      else (\<lparr>wl_identities = dict_put label \<lparr>id_label = label, id_cert_pem = cert_pem, id_msp_id = msp_id\<rparr> (wl_identities w),
             wl_vault = (if vault_up then (wl_vault w)(label \<mapsto> private_key_pem) else wl_vault w)\<rparr>, None))"

definition get_identity :: "wallet \<Rightarrow> string \<Rightarrow> wallet_error + identity" where
  "get_identity w label = (case map_of (wl_identities w) label of None \<Rightarrow> Inl PyKeyError | Some i \<Rightarrow> Inr i)"

definition list_identities :: "wallet \<Rightarrow> string list" where
  "list_identities w = map fst (wl_identities w)"

subsection \<open>Loading the wallet file\<close>

definition wallet_targets :: "string list" where
  "wallet_targets = [''admin@bank01'', ''admin@reg01-regulateur'']"

text \<open>
  \<open>resolve\<close> gives the components of a path after links and dots are resolved; \<open>read\<close> the text of a file,
  \<open>None\<close> when it does not exist. A path lies under the base directory when its components start with
  the components of the base. \<open>str_of_value\<close> is \<open>str\<close> on a JSON value.
\<close>

record wallet_files =
  wf_resolve :: "string \<Rightarrow> string list"
  wf_read :: "string list \<Rightarrow> string option"
  wf_base :: "string list"
  wf_str :: "pyval \<Rightarrow> string"

definition info_text :: "wallet_files \<Rightarrow> (string \<times> pyval) list \<Rightarrow> string \<Rightarrow> string" where
  "info_text fs info k = (case map_of info k of None \<Rightarrow> [] | Some v \<Rightarrow> wf_str fs v)"

text \<open>The files read are returned beside the wallet, in order.\<close>

definition load_target ::
    "wallet_env \<Rightarrow> wallet_files \<Rightarrow> bool \<Rightarrow> (string \<times> pyval) list \<Rightarrow> wallet \<Rightarrow> string \<Rightarrow>
     wallet \<times> string list list \<times> wallet_error option" where
  "load_target env fs vault_up metadata w target =
     (case map_of metadata target of
        Some (PDict info) \<Rightarrow>
          let cert_path = wf_resolve fs (info_text fs info ''cert_path'');
              key_path = wf_resolve fs (info_text fs info ''key_path'')
          in if \<not> prefix (wf_base fs) cert_path \<or> \<not> prefix (wf_base fs) key_path then (w, [], Some PyPermissionError)
             else (case (wf_read fs cert_path, wf_read fs key_path) of
                     (Some cert_pem, Some key_pem) \<Rightarrow>
                       (case put_identity env w vault_up target cert_pem key_pem (info_text fs info ''msp_id'') of
                          (w', e) \<Rightarrow> (w', [cert_path, key_path], e))
                   | _ \<Rightarrow> (w, [], None))
      | _ \<Rightarrow> (w, [], None))"

fun load_targets ::
    "wallet_env \<Rightarrow> wallet_files \<Rightarrow> bool \<Rightarrow> (string \<times> pyval) list \<Rightarrow> wallet \<Rightarrow> string list \<Rightarrow>
     wallet \<times> string list list \<times> wallet_error option" where
  "load_targets env fs vault_up metadata w [] = (w, [], None)"
| "load_targets env fs vault_up metadata w (t # ts) =
     (case load_target env fs vault_up metadata w t of
        (w1, reads, Some e) \<Rightarrow> (w1, reads, Some e)
      | (w1, reads, None) \<Rightarrow>
          (case load_targets env fs vault_up metadata w1 ts of (w2, reads2, e) \<Rightarrow> (w2, reads @ reads2, e)))"

text \<open>\<open>metadata_text\<close>: the wallet file, \<open>None\<close> when it is missing. A file that is not a JSON object is
  outside the model and counted as a failure.\<close>

definition initialize_from_metadata ::
    "wallet_env \<Rightarrow> wallet_files \<Rightarrow> bool \<Rightarrow> string option \<Rightarrow> wallet \<Rightarrow> wallet \<times> string list list \<times> wallet_error option" where
  "initialize_from_metadata env fs vault_up metadata_text w =
     (case metadata_text of
        None \<Rightarrow> (w, [], Some PyValueError)
      | Some s \<Rightarrow> (case loads s of
                     Some (PDict metadata) \<Rightarrow> load_targets env fs vault_up metadata w wallet_targets
                   | _ \<Rightarrow> (w, [], Some PyValueError)))"

subsection \<open>Handing out a key\<close>

text \<open>The buffer is overwritten byte by byte when the block that uses it ends.\<close>

definition wipe_bytearray :: "bytes \<Rightarrow> bytes" where
  "wipe_bytearray buf = foldl (\<lambda>b i. b[i := 0]) buf [0 ..< length buf]"

definition extract_private_key :: "wallet \<Rightarrow> bool \<Rightarrow> string \<Rightarrow> (bytes \<Rightarrow> 'a) \<Rightarrow> wallet_error + 'a \<times> bytes" where
  "extract_private_key w vault_up label use =
     (case get_identity w label of
        Inl e \<Rightarrow> Inl e
      | Inr i \<Rightarrow>
          (case (if vault_up then wl_vault w label else None) of
             None \<Rightarrow> Inl PyRuntimeError
           | Some pem \<Rightarrow> Inr (use (utf8 pem), wipe_bytearray (utf8 pem))))"

subsection \<open>Properties\<close>

lemma wipe_zeros: "wipe_bytearray buf = replicate (length buf) 0"
proof -
  have "foldl (\<lambda>b i. b[i := 0]) buf [0 ..< k] = replicate k 0 @ drop k buf" if "k \<le> length buf" for k
    using that
  proof (induction k)
    case (Suc k)
    then have "drop k buf = buf ! k # drop (Suc k) buf" by (simp add: Cons_nth_drop_Suc)
    then show ?case using Suc by (simp add: list_update_append replicate_append_same)
  qed simp
  from this [of "length buf"] show ?thesis by (simp add: wipe_bytearray_def)
qed

lemma map_of_dict_put: "map_of (dict_put k v d) k' = (if k' = k then Some v else map_of d k')"
  by (induction d) auto

text \<open>
  The wallet is sound for a time: every identity has a certificate that was valid then, is filed under its own
  label, and in production its key is in Vault.
\<close>

definition wallet_ok :: "wallet_env \<Rightarrow> wallet \<Rightarrow> bool" where
  "wallet_ok env w \<longleftrightarrow> (\<forall>l i. map_of (wl_identities w) l = Some i \<longrightarrow>
     id_label i = l \<and> validate_certificate (we_load env) (we_now env) (id_cert_pem i) \<and>
     (we_production env \<longrightarrow> wl_vault w l \<noteq> None))"

lemma put_identity_ok: "wallet_ok env w \<Longrightarrow> wallet_ok env (fst (put_identity env w up l c k m))"
  by (auto simp: wallet_ok_def put_identity_def map_of_dict_put)

lemma load_target_ok: "wallet_ok env w \<Longrightarrow> wallet_ok env (fst (load_target env fs up md w t))"
  using put_identity_ok by (auto simp: load_target_def Let_def split: option.splits pyval.splits prod.splits) (metis fst_conv)

lemma load_target_reads: "p \<in> set (fst (snd (load_target env fs up md w t))) \<Longrightarrow> prefix (wf_base fs) p"
  by (auto simp: load_target_def Let_def split: option.splits pyval.splits prod.splits if_splits)

lemma load_target_labels:
  "map_of (wl_identities w) l = None \<Longrightarrow> l \<noteq> t \<Longrightarrow> map_of (wl_identities (fst (load_target env fs up md w t))) l = None"
  by (auto simp: load_target_def Let_def put_identity_def map_of_dict_put split: option.splits pyval.splits prod.splits if_splits)

lemma load_targets_facts:
  "wallet_ok env w \<Longrightarrow>
   wallet_ok env (fst (load_targets env fs up md w ts)) \<and>
   (\<forall>p \<in> set (fst (snd (load_targets env fs up md w ts))). prefix (wf_base fs) p) \<and>
   (\<forall>l. map_of (wl_identities w) l = None \<and> l \<notin> set ts \<longrightarrow> map_of (wl_identities (fst (load_targets env fs up md w ts))) l = None)"
proof (induction ts arbitrary: w)
  case (Cons t ts)
  obtain w1 reads e where one: "load_target env fs up md w t = (w1, reads, e)" by (metis prod_cases3)
  have ok: "wallet_ok env w1" "\<forall>p \<in> set reads. prefix (wf_base fs) p"
    "\<forall>l. map_of (wl_identities w) l = None \<and> l \<noteq> t \<longrightarrow> map_of (wl_identities w1) l = None"
    using load_target_ok [OF Cons.prems, of fs up md t] load_target_reads [of _ env fs up md w t]
      load_target_labels [of w _ t env fs up md] one by auto
  show ?case
  proof (cases e)
    case None
    then show ?thesis using ok Cons.IH [OF ok(1)] one by (auto split: prod.splits)
  qed (use ok one in auto)
qed simp

text \<open>C34: A wallet loaded from its file holds only the two administrators, each with a certificate valid at
  load time and, in production, with its key in Vault; no file outside the base directory was read,
  whatever the paths in the file; and a key handed out is the one stored, its buffer zeroed afterwards.\<close>

theorem wallet_loads_safely:
  assumes "initialize_from_metadata env fs up text_opt \<lparr>wl_identities = [], wl_vault = v\<rparr> = (w, reads, e)"
  shows "wallet_ok env w \<and> (\<forall>p \<in> set reads. prefix (wf_base fs) p) \<and>
    (\<forall>l i. get_identity w l = Inr i \<longrightarrow> l \<in> set wallet_targets \<and> id_label i = l) \<and>
    (\<forall>l. extract_private_key w True l use =
       (if get_identity w l = Inl PyKeyError then Inl PyKeyError
        else case wl_vault w l of None \<Rightarrow> Inl PyRuntimeError | Some pem \<Rightarrow> Inr (use (utf8 pem), replicate (length (utf8 pem)) 0)))"
proof -
  let ?w0 = "\<lparr>wl_identities = [], wl_vault = v\<rparr>"
  have ok0: "wallet_ok env ?w0" by (simp add: wallet_ok_def)
  have facts: "wallet_ok env w \<and> (\<forall>p \<in> set reads. prefix (wf_base fs) p) \<and>
      (\<forall>l. l \<notin> set wallet_targets \<longrightarrow> map_of (wl_identities w) l = None)"
  proof (cases "\<exists>md. Option.bind text_opt loads = Some (PDict md)")
    case True
    then obtain md where "load_targets env fs up md ?w0 wallet_targets = (w, reads, e)"
      using assms by (auto simp: initialize_from_metadata_def split: option.splits)
    then show ?thesis using load_targets_facts [OF ok0, of fs up md wallet_targets] by auto
  next
    case False
    then have "w = ?w0 \<and> reads = []"
      using assms by (auto simp: initialize_from_metadata_def split: option.splits pyval.splits)
    then show ?thesis using ok0 by simp
  qed
  have ident: "get_identity w l = Inr i \<longleftrightarrow> map_of (wl_identities w) l = Some i" for l i
    by (simp add: get_identity_def split: option.splits)
  have "l \<in> set wallet_targets \<and> id_label i = l" if "get_identity w l = Inr i" for l i
    using facts that unfolding ident wallet_ok_def by (metis option.discI)
  moreover have "extract_private_key w True l use =
       (if get_identity w l = Inl PyKeyError then Inl PyKeyError
        else case wl_vault w l of None \<Rightarrow> Inl PyRuntimeError | Some pem \<Rightarrow> Inr (use (utf8 pem), replicate (length (utf8 pem)) 0))" for l
    by (simp add: extract_private_key_def get_identity_def wipe_zeros split: option.splits)
  ultimately show ?thesis using facts by blast
qed

definition sample_files :: wallet_files where
  "sample_files = \<lparr>wf_resolve = (\<lambda>s. if s = ''../etc'' then [''etc''] else [''wallet'', s]), wf_read = (\<lambda>p. Some ''pem''), wf_base = [''wallet''],
     wf_str = (\<lambda>v. case v of PStr s \<Rightarrow> s | _ \<Rightarrow> [])\<rparr>"

definition sample_wallet_env :: wallet_env where
  "sample_wallet_env =
     (let t = \<lparr>dt_year = 1, dt_month = 1, dt_day = 1, dt_hour = 0, dt_minute = 0, dt_second = 0, dt_micro = 0\<rparr> in
      \<lparr>we_load = (\<lambda>s. Some \<lparr>ct_not_before = t, ct_not_after = t, ct_common_names = [''admin'']\<rparr>), we_now = t, we_production = True\<rparr>)"

definition sample_wallet_file :: json where
  "sample_wallet_file = JObj [(''admin@bank01'', JObj [(''cert_path'', JStr ''c''), (''key_path'', JStr ''k''), (''msp_id'', JStr ''M'')]),
     (''admin@reg01-regulateur'', JObj [(''cert_path'', JStr ''../etc''), (''key_path'', JStr ''k'')])]"

text \<open>The second entry names a file outside the base directory: the first identity is loaded, then loading fails.\<close>

theorem wallet_loads_safely_witness:
  "\<exists>w reads. initialize_from_metadata sample_wallet_env sample_files True (Some (dumps sample_wallet_file)) \<lparr>wl_identities = [], wl_vault = Map.empty\<rparr>
      = (w, reads, Some PyPermissionError) \<and> reads \<noteq> [] \<and> list_all (prefix [''wallet'']) reads"
proof -
  have "loads (dumps sample_wallet_file) = Some (embed sample_wallet_file)"
    by (rule loads_dumps) (simp add: sample_wallet_file_def)
  moreover have "validate_certificate (we_load sample_wallet_env) (we_now sample_wallet_env) p" for p
    by (simp add: validate_certificate_def sample_wallet_env_def Let_def dt_less_def)
  ultimately obtain w reads where run: "initialize_from_metadata sample_wallet_env sample_files True (Some (dumps sample_wallet_file))
      \<lparr>wl_identities = [], wl_vault = Map.empty\<rparr> = (w, reads, Some PyPermissionError)" "reads \<noteq> []"
    by (auto simp: initialize_from_metadata_def wallet_targets_def load_target_def put_identity_def sample_wallet_file_def info_text_def
        dict_of_def sample_files_def Let_def)
  have "\<forall>p \<in> set reads. prefix (wf_base sample_files) p" using wallet_loads_safely [OF run(1), of "\<lambda>_. ()"] by blast
  then have "list_all (prefix [''wallet'']) reads" by (simp add: sample_files_def list_all_iff)
  with run show ?thesis by blast
qed

end
