(* ===== verification/Servicers.thy ===== *)
theory Servicers
  imports Queries Grpc AuditTrail ComplianceTasks
begin

text \<open>
  The servicers of the gRPC server (core/grpc_server/servicers): the operations behind the interceptors of
  theory Grpc, over the same tables and services as the HTTP endpoints. A servicer sees the token's payload;
  it reads subject, role and provider from it and never looks up the user's row the way
  \<open>get_current_user\<close> does.
\<close>

subsection \<open>Calls\<close>

text \<open>
  The status a failed call ends with: what the servicer aborts with, and \<open>UNKNOWN\<close> for every other exception.
  The caller is the payload of the token; \<open>cl_text\<close> gives the further claims that are texts.
\<close>

datatype rpc_status = UNIMPLEMENTED | NOT_FOUND | INVALID_ARGUMENT | FORBIDDEN | INTERNAL | UNKNOWN

record rpc_caller =
  cl_claims :: claims
  cl_text :: "string \<rightharpoonup> string"

definition caller_role :: "rpc_caller \<Rightarrow> string" where
  "caller_role c = or_empty (cl_text c ''role'')"

text \<open>\<open>uuid.UUID(s)\<close>; \<open>None\<close> is \<open>ValueError\<close>.\<close>

definition strip_braces :: "string \<Rightarrow> string" where
  "strip_braces s =
     (let brace = (\<lambda>c. c \<in> {CHR ''{'', CHR ''}''}) in rev (dropWhile brace (rev (dropWhile brace s))))"

definition parse_uuid :: "string \<Rightarrow> uuid option" where
  "parse_uuid s =
     (let h = filter (\<lambda>c. c \<noteq> CHR ''-'') (strip_braces (replace_str ''uuid:'' [] (replace_str ''urn:'' [] s))) in
      if length h \<noteq> 32 then None
      else case int16 h of
             None \<Rightarrow> None
           | Some i \<Rightarrow> if 0 \<le> i \<and> i < 2 ^ 128 then Some (nat i) else None)"

definition caller_uuid :: "rpc_caller \<Rightarrow> uuid option" where
  "caller_uuid c = Option.bind (c_sub (cl_claims c)) parse_uuid"

text \<open>\<open>limit(request.limit or default).offset(request.offset)\<close>: the database refuses a negative number.\<close>

definition rpc_page :: "int \<Rightarrow> int \<Rightarrow> int \<Rightarrow> 'a list \<Rightarrow> rpc_status + 'a list" where
  "rpc_page dflt limit offset rows =
     (let n = (if limit = 0 then dflt else limit) in
      if n < 0 \<or> offset < 0 then Inl UNKNOWN else Inr (page n offset rows))"

subsection \<open>Compliance (compliance.py)\<close>

definition rpc_list_compliance_records :: "compliance_db \<Rightarrow> int \<Rightarrow> int \<Rightarrow> rpc_status + compliance_record list" where
  "rpc_list_compliance_records db limit offset = rpc_page 50 limit offset (cdb_records db)"

definition rpc_get_active_alerts :: "compliance_db \<Rightarrow> int \<Rightarrow> int \<Rightarrow> rpc_status + alert list" where
  "rpc_get_active_alerts db limit offset =
     (case rpc_page 50 limit offset
             (filter (\<lambda>r. cr_risk_category r \<in> {''ELEVE'', ''CRITIQUE''} \<or> cr_sanctions_hit r \<or> cr_pep_status r) (cdb_records db)) of
        Inl e \<Rightarrow> Inl e
      | Inr risky \<Rightarrow>
          (case rpc_page 50 limit 0 (sar_get_active db) of
             Inl e \<Rightarrow> Inl e
           | Inr sars \<Rightarrow> Inr (map HighRiskParticipant risky @ map DraftSar sars)))"

definition rpc_get_compliance_status :: "compliance_db \<Rightarrow> string \<Rightarrow> rpc_status + compliance_record" where
  "rpc_get_compliance_status db i =
     (case parse_uuid i of
        None \<Rightarrow> Inl UNKNOWN
      | Some u \<Rightarrow> (case record_of db u of NoRow \<Rightarrow> Inl NOT_FOUND | ManyRows \<Rightarrow> Inl UNKNOWN | OneRow r \<Rightarrow> Inr r))"

record rpc_kyc_submit =
  rks_user_id :: string
  rks_document_type :: string
  rks_file_hash :: string
  rks_document_number :: string
  rks_issuing_country :: string

definition none_if_empty :: "string \<Rightarrow> string option" where
  "none_if_empty s = (if s = [] then None else Some s)"

definition document_fits :: "kyc_document \<Rightarrow> bool" where
  "document_fits d \<longleftrightarrow>
     length (kd_document_type d) \<le> 50 \<and> length (kd_file_hash d) \<le> 128 \<and>
     optional_in (map_option length (kd_document_number d)) {..100} \<and>
     optional_in (map_option length (kd_issuing_country d)) {..2}"

text \<open>
  The subject of the token goes into \<open>checked_by\<close> and \<open>approved_by\<close>, foreign keys to the users table, where
  the HTTP endpoint writes the id of the officer's row.
\<close>

definition rpc_submit_kyc ::
    "compliance_db \<Rightarrow> rpc_caller \<Rightarrow> datetime \<Rightarrow> uuid \<Rightarrow> rpc_kyc_submit \<Rightarrow> rpc_status + compliance_db" where
  "rpc_submit_kyc db c now new_id q =
     (case parse_uuid (rks_user_id q) of
        None \<Rightarrow> Inl UNKNOWN
      | Some u \<Rightarrow>
          (let doc = \<lparr>kd_user_id = u, kd_document_type = rks_document_type q, kd_file_hash = rks_file_hash q,
                      kd_document_number = none_if_empty (rks_document_number q),
                      kd_issuing_country = none_if_empty (rks_issuing_country q), kd_verified = False\<rparr>;
               db1 = db\<lparr>cdb_documents := cdb_documents db @ [doc]\<rparr>
           in case (record_of db u, caller_uuid c) of
                (ManyRows, _) \<Rightarrow> Inl UNKNOWN
              | (_, None) \<Rightarrow> Inl UNKNOWN
              | (found, Some caller) \<Rightarrow>
                  if \<not> (user_exists db u \<and> user_exists db caller \<and> document_fits doc) then Inl UNKNOWN
                  else (case found of
                          OneRow r \<Rightarrow>
                            Inr (db1\<lparr>cdb_records := update_where (\<lambda>x. cr_id x = cr_id r)
                              (\<lambda>x. x\<lparr>cr_kyc_status := ''EN_COURS'', cr_checked_by := Some caller, cr_check_date := Some now\<rparr>)
                              (cdb_records db)\<rparr>)
                        | _ \<Rightarrow>
                            Inr (db1\<lparr>cdb_records := cdb_records db @
                              [\<lparr>cr_id = new_id, cr_participant_id = u, cr_kyc_status = ''EN_COURS'',
                                cr_kyc_level = 1, cr_aml_score = 0, cr_risk_category = ''FAIBLE'',
                                cr_sanctions_hit = False, cr_pep_status = False, cr_checked_by = Some caller,
                                cr_approved_by = None, cr_check_date = Some now, cr_expires_at = plus_days 365 now,
                                cr_notes = None, cr_created_at = now\<rparr>]\<rparr>))))"

text \<open>\<open>now + timedelta(days=n)\<close> of an \<open>int32\<close>; \<open>None\<close> is \<open>OverflowError\<close> beyond the years 1 to 9999.\<close>

definition prev_day :: "datetime \<Rightarrow> datetime" where
  "prev_day t =
     (if 1 < dt_day t then t\<lparr>dt_day := dt_day t - 1\<rparr>
      else if 1 < dt_month t then t\<lparr>dt_month := dt_month t - 1, dt_day := days_in_month (dt_year t) (dt_month t - 1)\<rparr>
      else t\<lparr>dt_year := dt_year t - 1, dt_month := 12, dt_day := 31\<rparr>)"

definition shift_days :: "int \<Rightarrow> datetime \<Rightarrow> datetime option" where
  "shift_days n t =
     (if 0 \<le> n then add_days (nat n) t
      else let u = (prev_day ^^ nat (- n)) t in if 1 \<le> dt_year u then Some u else None)"

record rpc_kyc_approve =
  rka_user_id :: string
  rka_level :: int
  rka_validity_days :: int
  rka_notes :: string

definition rpc_approved :: "rpc_kyc_approve \<Rightarrow> uuid \<Rightarrow> datetime \<Rightarrow> datetime \<Rightarrow> compliance_record \<Rightarrow> compliance_record" where
  "rpc_approved q caller now expires x =
     x\<lparr>cr_kyc_status := ''VERIFIE'', cr_kyc_level := rka_level q, cr_approved_by := Some caller,
       cr_check_date := Some now, cr_expires_at := expires,
       cr_notes := (if rka_notes q \<noteq> [] then Some (rka_notes q) else cr_notes x)\<rparr>"

definition rpc_approve_kyc ::
    "compliance_db \<Rightarrow> rpc_caller \<Rightarrow> datetime \<Rightarrow> datetime \<Rightarrow> rpc_kyc_approve \<Rightarrow> compliance_db \<times> (rpc_status + kyc_result)" where
  "rpc_approve_kyc db c now later q =
     (case parse_uuid (rka_user_id q) of
        None \<Rightarrow> (db, Inl UNKNOWN)
      | Some u \<Rightarrow>
          (case record_of db u of
             NoRow \<Rightarrow> (db, Inl NOT_FOUND)
           | ManyRows \<Rightarrow> (db, Inl UNKNOWN)
           | OneRow r \<Rightarrow>
               (case (caller_uuid c, shift_days (if rka_validity_days q = 0 then 365 else rka_validity_days q) now) of
                  (Some caller, Some expires) \<Rightarrow>
                    if \<not> user_exists db caller then (db, Inl UNKNOWN)
                    else let db' = db\<lparr>cdb_records := update_where (\<lambda>x. cr_id x = cr_id r)
                           (rpc_approved q caller now expires)
                           (cdb_records db)\<rparr>
                         in (case kyc_verify db' later u KYC_REQUIRED_LEVEL of
                               Inl _ \<Rightarrow> (db', Inl UNKNOWN)
                             | Inr k \<Rightarrow> (db', Inr k))
                | _ \<Rightarrow> (db, Inl UNKNOWN))))"

definition rpc_run_aml_screening ::
    "compliance_env \<Rightarrow> compliance_db \<Rightarrow> string \<Rightarrow> xfloat \<Rightarrow> string \<Rightarrow> compliance_db \<times> (rpc_status + aml_result)" where
  "rpc_run_aml_screening env db i amount counterparty =
     (case (parse_uuid i, parse_uuid counterparty) of
        (Some u, Some _) \<Rightarrow>
          (case aml_score_op (env_participants env) db u amount of
             (db1, a) \<Rightarrow>
               if aml_sar_required a
               then (case sar_generate db1 (env_now env) (env_counter env) (env_random env) u None
                            ''AML_CRITICAL_THRESHOLD'' amount of
                       None \<Rightarrow> (db1, Inl UNKNOWN)
                     | Some (db2, _) \<Rightarrow> (db2, Inr a))
               else (db1, Inr a))
      | _ \<Rightarrow> (db, Inl UNKNOWN))"


subsection \<open>Accounts (auth.py)\<close>

text \<open>The operations that Keycloak took over.\<close>

datatype retired_rpc = Login | SetupMFA | EnableMFA | DisableMFA | Refresh

fun retired_status :: "retired_rpc \<Rightarrow> rpc_status" where
  "retired_status Login = UNIMPLEMENTED"
| "retired_status SetupMFA = UNIMPLEMENTED"
| "retired_status EnableMFA = UNIMPLEMENTED"
| "retired_status DisableMFA = UNIMPLEMENTED"
| "retired_status Refresh = UNIMPLEMENTED"

text \<open>\<open>up\<close>: Redis answers.\<close>

definition rpc_logout :: "'s redis \<Rightarrow> bool \<Rightarrow> 's \<Rightarrow> rat \<Rightarrow> rpc_caller \<Rightarrow> 's \<times> rpc_status option" where
  "rpc_logout R up s now c =
     (let p = cl_claims c in
      if (or_empty (c_jti p) \<noteq> [] \<or> or_empty (c_sub p) \<noteq> []) \<and> \<not> up then (s, Some UNKNOWN)
      else (logout_store R s now p, None))"

text \<open>\<open>payload["sub"]\<close> and the row with that subject, active or not.\<close>

definition user_by_sub :: "user list \<Rightarrow> rpc_caller \<Rightarrow> user option" where
  "user_by_sub users c =
     (case c_sub (cl_claims c) of
        None \<Rightarrow> None
      | Some k \<Rightarrow> (case scalar_one_or_none (filter (\<lambda>u. keycloak_sub u = Some k) users) of OneRow u \<Rightarrow> Some u | _ \<Rightarrow> None))"

definition rpc_get_me :: "user list \<Rightarrow> rpc_caller \<Rightarrow> rpc_status + user" where
  "rpc_get_me users c = (case user_by_sub users c of None \<Rightarrow> Inl UNKNOWN | Some u \<Rightarrow> Inr u)"

record rpc_export =
  rx_user :: user
  rx_compliance :: "compliance_record list"
  rx_documents :: "kyc_document list"
  rx_transactions :: "transaction list"

definition rpc_export_my_data :: "compliance_db \<Rightarrow> transaction list \<Rightarrow> rpc_caller \<Rightarrow> rpc_status + rpc_export" where
  "rpc_export_my_data db txs c =
     (case user_by_sub (cdb_users db) c of
        None \<Rightarrow> Inl UNKNOWN
      | Some u \<Rightarrow> Inr
          \<lparr>rx_user = u,
           rx_compliance = filter (\<lambda>r. cr_participant_id r = user_id u) (cdb_records db),
           rx_documents = filter (\<lambda>d. kd_user_id d = user_id u) (cdb_documents db),
           rx_transactions = take 500 (filter (involves (user_id u)) txs)\<rparr>)"

definition rpc_delete_my_account ::
    "'s redis \<Rightarrow> zkp_db \<Rightarrow> 's \<Rightarrow> datetime \<Rightarrow> rat \<Rightarrow> bool \<Rightarrow> rpc_caller \<Rightarrow> zkp_db \<times> 's \<times> rpc_status option" where
  "rpc_delete_my_account R db s now ts up c =
     (case user_by_sub (cdb_users (zdb_compliance db)) c of
        None \<Rightarrow> (db, s, Some UNKNOWN)
      | Some u \<Rightarrow>
          if \<exists>v \<in> set (cdb_users (zdb_compliance db)). user_id v \<noteq> user_id u \<and> user_email v = anonymised_email (user_id u)
          then (db, s, Some UNKNOWN)
          else if \<not> up then (erase_rows now u db, s, Some UNKNOWN)
          else (erase_rows now u db, erase_store R s ts (or_empty (c_sub (cl_claims c))), None))"

subsection \<open>Transactions and organisations (transactions.py, organizations.py)\<close>

definition rpc_list_transactions ::
    "transaction list \<Rightarrow> string \<Rightarrow> bool \<Rightarrow> bool \<Rightarrow> int \<Rightarrow> int \<Rightarrow> rpc_status + transaction list" where
  "rpc_list_transactions txs kind has_regulatory flag limit offset =
     rpc_page 50 limit offset
       (rev (matching_transactions (none_if_empty kind) (if has_regulatory then Some flag else None) txs))"

definition rpc_get_transaction_stats :: "asset_db \<Rightarrow> nat \<times> rat" where
  "rpc_get_transaction_stats db = (length (ad_transactions db), rnd (frozen_volume db))"

definition rpc_get_transaction :: "transaction list \<Rightarrow> string \<Rightarrow> rpc_status + transaction" where
  "rpc_get_transaction txs ref =
     (case scalar_one_or_none (filter (\<lambda>t. tx_ref t = ref) txs) of
        NoRow \<Rightarrow> Inl NOT_FOUND | ManyRows \<Rightarrow> Inl UNKNOWN | OneRow t \<Rightarrow> Inr t)"

definition rpc_list_organizations :: "compliance_db \<Rightarrow> int \<Rightarrow> int \<Rightarrow> rpc_status + organization list" where
  "rpc_list_organizations db limit offset = rpc_page 50 limit offset (cdb_orgs db)"

definition directory_roles :: "string list" where
  "directory_roles = [''REGULATEUR'', ''COMPLIANCE_OFFICER'', ''SUPER_ADMIN'', ''AUDITEUR'']"

definition VALID_COUNTRIES :: "string list" where
  "VALID_COUNTRIES = [''FR'', ''GB'', ''MA'', ''DE'', ''US'', ''LU'', ''BE'', ''CH'', ''SG'', ''AE'']"

definition upper :: "string \<Rightarrow> string" where
  "upper = map upper_char"

text \<open>The join of users and organisations with the two filters; the answer carries these rows.\<close>

definition directory_rows :: "compliance_db \<Rightarrow> string \<Rightarrow> string \<Rightarrow> (user \<times> organization) list" where
  "directory_rows db role country =
     [(u, g). u \<leftarrow> cdb_users db, g \<leftarrow> cdb_orgs db,
        user_org_id u = org_id g \<and> (role \<noteq> [] \<longrightarrow> user_role u = upper role) \<and>
        (country \<noteq> [] \<longrightarrow> org_country_code g = Some (upper country))]"

definition rpc_list_users ::
    "compliance_db \<Rightarrow> rpc_caller \<Rightarrow> string \<Rightarrow> string \<Rightarrow> int \<Rightarrow> int \<Rightarrow> rpc_status + (user \<times> organization) list" where
  "rpc_list_users db c role country limit offset =
     (if caller_role c \<notin> set directory_roles then Inl FORBIDDEN
      else if role \<noteq> [] \<and> upper role \<notin> set user_roles then Inl INVALID_ARGUMENT
      else if country \<noteq> [] \<and> upper country \<notin> set VALID_COUNTRIES then Inl INVALID_ARGUMENT
      else rpc_page 100 limit offset (directory_rows db role country))"

definition rpc_get_portfolio :: "asset_db \<Rightarrow> string \<Rightarrow> rpc_status + portfolio" where
  "rpc_get_portfolio db org =
     (case parse_uuid org of
        None \<Rightarrow> Inl UNKNOWN
      | Some i \<Rightarrow> Inr
          \<lparr>pf_total_assets_value = rnd (sum_list (map as_current_value
              (filter (\<lambda>a. as_issuer_org_id a = i \<and> as_status a \<noteq> ''REMBOURSE'') (ad_assets db)))),
           pf_active_assets_count =
              length (filter (\<lambda>a. as_issuer_org_id a = i \<and> as_status a = ''ACTIF'') (ad_assets db))\<rparr>)"

text \<open>
  The same directory over HTTP (organizations_router.py). The response model admits a row whose address
  passes \<open>email_ok\<close>, the check of the package; another row fails the whole answer.
\<close>

definition list_organizations :: "compliance_db \<Rightarrow> string option \<Rightarrow> int \<Rightarrow> int \<Rightarrow> app_error + organization list" where
  "list_organizations db sub limit offset =
     (case get_current_user (cdb_users db) sub of
        Inl e \<Rightarrow> Inl e
      | Inr u \<Rightarrow> if valid_page limit offset then Inr (page limit offset (cdb_orgs db)) else Inl (HTTPException 422))"

definition list_users ::
    "(string \<Rightarrow> bool) \<Rightarrow> compliance_db \<Rightarrow> string option \<Rightarrow> string \<Rightarrow> string \<Rightarrow> int \<Rightarrow> int \<Rightarrow>
     app_error + (user \<times> organization) list" where
  "list_users email_ok db sub role country limit offset =
     (case require_role directory_roles (cdb_users db) sub of
        Inl e \<Rightarrow> Inl e
      | Inr u \<Rightarrow>
          if \<not> (1 \<le> limit \<and> limit \<le> 500 \<and> 0 \<le> offset) then Inl (HTTPException 422)
          else if role \<noteq> [] \<and> upper role \<notin> set user_roles then Inl (HTTPException 400)
          else if country \<noteq> [] \<and> upper country \<notin> set VALID_COUNTRIES then Inl (HTTPException 400)
          else let rows = page limit offset (directory_rows db role country) in
               if list_all (\<lambda>r. email_ok (user_email (fst r))) rows then Inr rows else Inl UnhandledError)"

subsection \<open>Audit (audit.py)\<close>

definition rpc_list_audit_logs :: "compliance_db \<Rightarrow> int \<Rightarrow> int \<Rightarrow> rpc_status + audit_log list" where
  "rpc_list_audit_logs db limit offset = rpc_page 50 limit offset (rev (cdb_audit db))"

definition rpc_identity :: "rpc_caller \<Rightarrow> string option" where
  "rpc_identity c = (case resolve_identity_from_payload (cl_text c) of Inl _ \<Rightarrow> None | Inr i \<Rightarrow> Some i)"

text \<open>An empty answer is sent as the text of an empty list, and the trail is always called verified.\<close>

definition rpc_fetch_asset_trail ::
    "'l submit \<Rightarrow> 'l \<Rightarrow> rpc_caller \<Rightarrow> string \<Rightarrow> rpc_status + string \<times> bool \<times> string" where
  "rpc_fetch_asset_trail evaluate l c asset_id =
     (case rpc_identity c of
        None \<Rightarrow> Inl UNKNOWN
      | Some ident \<Rightarrow>
          (case snd (evaluate l ''GetProvenanceTrail'' [asset_id] ident) of
             Inl e \<Rightarrow> Inl UNKNOWN
           | Inr payload \<Rightarrow> Inr (asset_id, True, if truthy_val payload then py_dumps payload else ''[]'')))"

text \<open>What the endpoints and the servicer put on the Celery queue.\<close>

datatype queued_task = ReportTask string string | FraudScanTask

definition generate_audit_report ::
    "user list \<Rightarrow> string option \<Rightarrow> queued_task list \<Rightarrow> string \<Rightarrow> queued_task list \<times> app_error option" where
  "generate_audit_report users sub queue asset_id =
     (case require_role [''AUDITEUR''] users sub of
        Inl e \<Rightarrow> (queue, Some e)
      | Inr u \<Rightarrow> (queue @ [ReportTask asset_id (uuid_str (user_id u))], None))"

definition trigger_fraud_scan :: "user list \<Rightarrow> string option \<Rightarrow> queued_task list \<Rightarrow> queued_task list \<times> app_error option" where
  "trigger_fraud_scan users sub queue =
     (case require_role [''COMPLIANCE_OFFICER'', ''REGULATEUR'', ''SUPER_ADMIN''] users sub of
        Inl e \<Rightarrow> (queue, Some e)
      | Inr u \<Rightarrow> (queue @ [FraudScanTask], None))"

definition rpc_generate_report :: "rpc_caller \<Rightarrow> queued_task list \<Rightarrow> string \<Rightarrow> queued_task list \<times> rpc_status option" where
  "rpc_generate_report c queue asset_id =
     (case c_sub (cl_claims c) of
        None \<Rightarrow> (queue, Some UNKNOWN)
      | Some sub \<Rightarrow> (queue @ [ReportTask asset_id sub], None))"

definition rpc_trigger_fraud_scan :: "queued_task list \<Rightarrow> queued_task list" where
  "rpc_trigger_fraud_scan queue = queue @ [FraudScanTask]"

text \<open>
  The result backend: a finished task with its result (\<open>None\<close>, or a dict with or without \<open>file_path\<close>), a
  failed one with its error, or another state. The endpoint reads the dict without asking whether there is one.
\<close>

datatype task_result = TaskDone "string option option" | TaskFailed string | TaskOther string

datatype report_status = ReportReady string | ReportFailed string | ReportState string

definition result_path :: "string option option \<Rightarrow> string" where
  "result_path r = (case r of Some (Some p) \<Rightarrow> p | _ \<Rightarrow> [])"

definition rpc_get_report_status :: "task_result \<Rightarrow> report_status" where
  "rpc_get_report_status t =
     (case t of TaskDone r \<Rightarrow> ReportReady (result_path r) | TaskFailed e \<Rightarrow> ReportFailed e | TaskOther s \<Rightarrow> ReportState s)"

definition get_report_status :: "user list \<Rightarrow> string option \<Rightarrow> task_result \<Rightarrow> app_error + report_status" where
  "get_report_status users sub t =
     (case require_role [''AUDITEUR''] users sub of
        Inl e \<Rightarrow> Inl e
      | Inr u \<Rightarrow> (case t of
                    TaskDone None \<Rightarrow> Inl UnhandledError
                  | TaskDone (Some p) \<Rightarrow> Inr (ReportReady (result_path (Some p)))
                  | TaskFailed e \<Rightarrow> Inr (ReportFailed e)
                  | TaskOther s \<Rightarrow> Inr (ReportState s)))"


subsection \<open>Assets (assets.py)\<close>

text \<open>
  A request model is built from keyword arguments: fields it does not declare are ignored, and a required
  one that is missing is a \<open>ValidationError\<close> (\<open>None\<close>). \<open>dec\<close> is \<open>Decimal(str(x))\<close> of a finite double.
\<close>

datatype kwarg = KText string | KFloat xfloat

definition kw_text :: "(string \<times> kwarg) list \<Rightarrow> string \<Rightarrow> string option" where
  "kw_text kw k = (case map_of kw k of Some (KText s) \<Rightarrow> Some s | _ \<Rightarrow> None)"

definition kw_decimal :: "(xfloat \<Rightarrow> decimal option) \<Rightarrow> (string \<times> kwarg) list \<Rightarrow> string \<Rightarrow> decimal option" where
  "kw_decimal dec kw k = (case map_of kw k of Some (KFloat x) \<Rightarrow> dec x | _ \<Rightarrow> None)"

definition tokenize_schema :: "(xfloat \<Rightarrow> decimal option) \<Rightarrow> (string \<times> kwarg) list \<Rightarrow> tokenize_request option" where
  "tokenize_schema dec kw =
     (case (kw_text kw ''asset_id'', kw_text kw ''isin'', kw_text kw ''asset_type'', kw_text kw ''asset_name'',
            kw_text kw ''issuer_lei'', kw_decimal dec kw ''nominal_value'', kw_text kw ''currency'',
            kw_text kw ''issuance_date'', kw_text kw ''justification'') of
        (Some i, Some isin, Some kind, Some nm, Some lei, Some v, Some cur, Some day, Some why) \<Rightarrow>
          (let q = \<lparr>tq_asset_id = i, tq_isin = isin, tq_asset_type = kind, tq_asset_name = nm, tq_issuer_lei = lei,
                    tq_nominal_value = v, tq_currency = cur, tq_issuance_date = day, tq_justification = why\<rparr>
           in if valid_tokenize q then Some q else None)
      | _ \<Rightarrow> None)"

definition transfer_schema :: "(xfloat \<Rightarrow> decimal option) \<Rightarrow> (string \<times> kwarg) list \<Rightarrow> transfer_request option" where
  "transfer_schema dec kw =
     (case (kw_text kw ''asset_id'', kw_text kw ''to_owner'', kw_decimal dec kw ''price'', kw_text kw ''justification'') of
        (Some i, Some dest, Some p, Some why) \<Rightarrow>
          (let q = \<lparr>rq_asset_id = i, rq_to_owner = dest, rq_price = p, rq_justification = why\<rparr>
           in if valid_transfer q then Some q else None)
      | _ \<Rightarrow> None)"

definition freeze_schema :: "(string \<times> kwarg) list \<Rightarrow> freeze_request option" where
  "freeze_schema kw =
     (case (kw_text kw ''asset_id'', kw_text kw ''reason'', kw_text kw ''regulatory_ref'') of
        (Some i, Some why, Some ref) \<Rightarrow>
          (let q = \<lparr>fq_asset_id = i, fq_reason = why, fq_regulatory_ref = ref\<rparr> in if valid_freeze q then Some q else None)
      | _ \<Rightarrow> None)"

definition unfreeze_schema :: "(string \<times> kwarg) list \<Rightarrow> unfreeze_request option" where
  "unfreeze_schema kw =
     (case (kw_text kw ''asset_id'', kw_text kw ''justification'') of
        (Some i, Some why) \<Rightarrow>
          (let q = \<lparr>uq_asset_id = i, uq_justification = why\<rparr> in if valid_unfreeze q then Some q else None)
      | _ \<Rightarrow> None)"

text \<open>The answer: \<open>_asset_to_proto\<close> and \<open>_valuation_to_proto\<close> read these attributes of what the service returned.\<close>

definition asset_proto_reads :: "string list" where
  "asset_proto_reads =
     [''asset_id'', ''asset_type'', ''isin'', ''lei'', ''currency'', ''face_value'', ''owner'', ''status'', ''created_at'', ''updated_at'']"

definition asset_response_attributes :: "string list" where
  "asset_response_attributes = asset_response_fields @ [''isin'', ''fabric_tx_id'', ''fabric_block_number'']"

definition valuation_proto_reads :: "string list" where
  "valuation_proto_reads =
     [''id'', ''asset_id'', ''current_value'', ''yield_to_maturity'', ''duration'', ''convexity'', ''credit_spread_bps'',
      ''pricing_source'', ''valuation_date'', ''created_at'']"

definition valuation_attributes :: "string list" where
  "valuation_attributes =
     [''id'', ''asset_id'', ''valuation_date'', ''nav'', ''nav_currency'', ''yield_to_maturity'', ''duration'', ''convexity'',
      ''credit_spread_bps'', ''valuation_method'', ''pricing_source'', ''validated_by'', ''created_at'', ''updated_at'']"

definition to_proto :: "string list \<Rightarrow> string list \<Rightarrow> 'a \<Rightarrow> rpc_status + 'a" where
  "to_proto reads attributes a = (if set reads \<subseteq> set attributes then Inr a else Inl UNKNOWN)"

text \<open>Keyword arguments, then the identity, then the service, then the answer.\<close>

definition rpc_write ::
    "'q option \<Rightarrow> rpc_caller \<Rightarrow> ('q \<Rightarrow> string \<Rightarrow> 'l \<times> asset_db \<times> (app_error + asset)) \<Rightarrow> 'l \<Rightarrow> asset_db \<Rightarrow>
     'l \<times> asset_db \<times> (rpc_status + asset)" where
  "rpc_write schema c run l db =
     (case (schema, rpc_identity c) of
        (Some q, Some label) \<Rightarrow>
          (case run q label of
             (l', db', Inl e) \<Rightarrow> (l', db', Inl UNKNOWN)
           | (l', db', Inr a) \<Rightarrow> (l', db', to_proto asset_proto_reads asset_response_attributes a))
      | _ \<Rightarrow> (l, db, Inl UNKNOWN))"

record rpc_tokenize =
  rt_asset_id :: string
  rt_asset_type :: string
  rt_isin :: string
  rt_lei :: string
  rt_currency :: string
  rt_face_value :: xfloat
  rt_owner :: string
  rt_metadata :: string

definition rpc_tokenize_asset ::
    "(xfloat \<Rightarrow> decimal option) \<Rightarrow> 'l submit \<Rightarrow> asset_env \<Rightarrow> 'l \<Rightarrow> asset_db \<Rightarrow> rpc_caller \<Rightarrow> rpc_tokenize \<Rightarrow>
     'l \<times> asset_db \<times> (rpc_status + asset)" where
  "rpc_tokenize_asset dec submit env l db c q =
     rpc_write (tokenize_schema dec
         [(''asset_id'', KText (rt_asset_id q)), (''asset_type'', KText (rt_asset_type q)), (''isin'', KText (rt_isin q)),
          (''lei'', KText (rt_lei q)), (''currency'', KText (rt_currency q)), (''face_value'', KFloat (rt_face_value q)),
          (''owner'', KText (rt_owner q)), (''metadata'', KText (rt_metadata q))])
       c (\<lambda>b label. tokenize submit env l db b label) l db"

definition rpc_transfer_asset ::
    "(xfloat \<Rightarrow> decimal option) \<Rightarrow> 'l submit \<Rightarrow> asset_env \<Rightarrow> 'l \<Rightarrow> asset_db \<Rightarrow> rpc_caller \<Rightarrow> string \<Rightarrow> string \<Rightarrow> xfloat \<Rightarrow>
     'l \<times> asset_db \<times> (rpc_status + asset)" where
  "rpc_transfer_asset dec submit env l db c asset_id new_owner amount =
     rpc_write (transfer_schema dec
         [(''asset_id'', KText asset_id), (''new_owner'', KText new_owner), (''amount'', KFloat amount)])
       c (\<lambda>b label. transfer submit env l db b label None) l db"

definition rpc_freeze_asset ::
    "'l submit \<Rightarrow> asset_env \<Rightarrow> 'l \<Rightarrow> asset_db \<Rightarrow> rpc_caller \<Rightarrow> string \<Rightarrow> string \<Rightarrow> 'l \<times> asset_db \<times> (rpc_status + asset)" where
  "rpc_freeze_asset submit env l db c asset_id reason =
     rpc_write (freeze_schema [(''asset_id'', KText asset_id), (''reason'', KText reason)])
       c (\<lambda>b label. freeze submit env l db b label None) l db"

definition rpc_unfreeze_asset ::
    "'l submit \<Rightarrow> asset_env \<Rightarrow> 'l \<Rightarrow> asset_db \<Rightarrow> rpc_caller \<Rightarrow> string \<Rightarrow> string \<Rightarrow> 'l \<times> asset_db \<times> (rpc_status + asset)" where
  "rpc_unfreeze_asset submit env l db c asset_id reason =
     rpc_write (unfreeze_schema [(''asset_id'', KText asset_id), (''reason'', KText reason)])
       c (\<lambda>b label. unfreeze_asset submit env l db b label None) l db"

definition rpc_read_ledger :: "'l submit \<Rightarrow> 'l \<Rightarrow> rpc_caller \<Rightarrow> string \<Rightarrow> string list \<Rightarrow> rpc_status + pyval" where
  "rpc_read_ledger evaluate l c fn args =
     (case rpc_identity c of
        None \<Rightarrow> Inl UNKNOWN
      | Some label \<Rightarrow> (case snd (evaluate l fn args label) of Inl e \<Rightarrow> Inl UNKNOWN | Inr v \<Rightarrow> Inr v))"

definition rpc_get_asset :: "(pyval \<Rightarrow> bool) \<Rightarrow> 'l submit \<Rightarrow> 'l \<Rightarrow> rpc_caller \<Rightarrow> string \<Rightarrow> rpc_status + pyval" where
  "rpc_get_asset types_ok evaluate l c asset_id =
     (case rpc_read_ledger evaluate l c ''GetAsset'' [asset_id] of
        Inl e \<Rightarrow> Inl e
      | Inr (PDict d) \<Rightarrow>
          if validates types_ok asset_response_fields (PDict d)
          then to_proto asset_proto_reads asset_response_attributes (PDict d) else Inl UNKNOWN
      | Inr _ \<Rightarrow> Inl NOT_FOUND)"

text \<open>A record of the history: a text field of the message takes nothing but a text.\<close>

record rpc_provenance =
  rp_tx_id :: string
  rp_action :: string
  rp_actor :: string
  rp_timestamp :: string
  rp_metadata :: string

definition text_field :: "(string \<times> pyval) list \<Rightarrow> string \<Rightarrow> string option" where
  "text_field d k = (case map_of d k of None \<Rightarrow> Some [] | Some (PStr s) \<Rightarrow> Some s | Some _ \<Rightarrow> None)"

definition any_field :: "(pyval \<Rightarrow> string) \<Rightarrow> (string \<times> pyval) list \<Rightarrow> string \<Rightarrow> string" where
  "any_field rep d k = (case map_of d k of None \<Rightarrow> [] | Some v \<Rightarrow> str_of rep v)"

definition provenance_proto :: "(pyval \<Rightarrow> string) \<Rightarrow> pyval \<Rightarrow> rpc_provenance option" where
  "provenance_proto rep v =
     (case v of
        PDict d \<Rightarrow>
          (case (text_field d ''tx_id'', text_field d ''action'', text_field d ''actor'') of
             (Some t, Some a, Some who) \<Rightarrow>
               Some \<lparr>rp_tx_id = t, rp_action = a, rp_actor = who, rp_timestamp = any_field rep d ''timestamp'',
                     rp_metadata = any_field rep d ''metadata''\<rparr>
           | _ \<Rightarrow> None)
      | _ \<Rightarrow> None)"

fun provenance_protos :: "(pyval \<Rightarrow> string) \<Rightarrow> pyval list \<Rightarrow> rpc_provenance list option" where
  "provenance_protos rep [] = Some []"
| "provenance_protos rep (v # vs) =
     (case (provenance_proto rep v, provenance_protos rep vs) of (Some p, Some ps) \<Rightarrow> Some (p # ps) | _ \<Rightarrow> None)"

definition rpc_get_asset_history ::
    "(pyval \<Rightarrow> string) \<Rightarrow> 'l submit \<Rightarrow> 'l \<Rightarrow> rpc_caller \<Rightarrow> string \<Rightarrow> rpc_status + rpc_provenance list" where
  "rpc_get_asset_history rep evaluate l c asset_id =
     (case rpc_read_ledger evaluate l c ''GetProvenanceTrail'' [asset_id] of
        Inl e \<Rightarrow> Inl e
      | Inr (PList vs) \<Rightarrow> (case provenance_protos rep vs of None \<Rightarrow> Inl UNKNOWN | Some ps \<Rightarrow> Inr ps)
      | Inr _ \<Rightarrow> Inr [])"

definition rpc_search_assets ::
    "(pyval \<Rightarrow> bool) \<Rightarrow> 'l submit \<Rightarrow> 'l \<Rightarrow> rpc_caller \<Rightarrow> string \<Rightarrow> string \<Rightarrow> string \<Rightarrow> int \<Rightarrow> int \<Rightarrow> rpc_status + pyval list" where
  "rpc_search_assets types_ok evaluate l c status kind owner limit offset =
     (case rpc_read_ledger evaluate l c ''QueryAssets''
             [dumps (search_query (none_if_empty status) (none_if_empty kind) (none_if_empty owner)
                (if limit = 0 then 10 else limit) offset)] of
        Inl e \<Rightarrow> Inl e
      | Inr (PList vs) \<Rightarrow>
          if \<not> list_all (validates types_ok asset_response_fields) vs then Inl UNKNOWN
          else if vs = [] then Inr [] else to_proto asset_proto_reads asset_response_attributes vs
      | Inr _ \<Rightarrow> Inr [])"

text \<open>
  The numbers of the message are finite doubles, never absent. An empty date is today; a text is not a date the
  driver can bind.
\<close>

record rpc_valuate =
  rv_current_value :: rat
  rv_yield_to_maturity :: rat
  rv_duration :: rat
  rv_convexity :: rat
  rv_credit_spread_bps :: int
  rv_pricing_source :: string
  rv_valuation_date :: string

definition valuation_args :: "rpc_valuate \<Rightarrow> valuate_request" where
  "valuation_args q =
     \<lparr>vq_current_value = rv_current_value q, vq_yield_to_maturity = Some (rv_yield_to_maturity q),
      vq_duration = Some (rv_duration q), vq_convexity = Some (rv_convexity q),
      vq_credit_spread_bps = Some (of_int (rv_credit_spread_bps q)), vq_pricing_source = Some (rv_pricing_source q),
      vq_valuation_date = None\<rparr>"

definition rpc_valuate_asset ::
    "asset_env \<Rightarrow> asset_db \<Rightarrow> string \<Rightarrow> rpc_valuate \<Rightarrow> asset_db \<times> (rpc_status + asset_valuation)" where
  "rpc_valuate_asset env db asset_id q =
     (case by_asset_id db asset_id of
        NoRow \<Rightarrow> (db, Inl NOT_FOUND)
      | _ \<Rightarrow>
          if rv_valuation_date q \<noteq> [] \<or> 100 < length (rv_pricing_source q) then (db, Inl UNKNOWN)
          else (case record_valuation env db asset_id (valuation_args q) of
                  (db', Inl _) \<Rightarrow> (db', Inl UNKNOWN)
                | (db', Inr v) \<Rightarrow> (db', to_proto valuation_proto_reads valuation_attributes v)))"

definition rpc_list_asset_valuations :: "asset_db \<Rightarrow> string \<Rightarrow> rpc_status + asset_valuation list" where
  "rpc_list_asset_valuations db asset_id =
     (let vs = get_history db asset_id in
      if vs = [] then Inr [] else to_proto valuation_proto_reads valuation_attributes vs)"


subsection \<open>Anonymous credentials (zkp.py)\<close>

text \<open>The subject of the token is taken for the id of the user's row. A failed issuance aborts.\<close>

definition rpc_setup_key ::
    "(bytes \<Rightarrow> bytes) option \<Rightarrow> zkp_db \<Rightarrow> rpc_caller \<Rightarrow> datetime \<Rightarrow> uuid \<Rightarrow> string \<Rightarrow> string \<Rightarrow> rpc_status + zkp_db \<times> zkp_credential" where
  "rpc_setup_key signer db c now new_id x y =
     (case caller_uuid c of
        None \<Rightarrow> Inl UNKNOWN
      | Some u \<Rightarrow> (case issue_credential signer db now new_id u x y of None \<Rightarrow> Inl INTERNAL | Some r \<Rightarrow> Inr r))"

text \<open>
  The claim arrives as a text. The signature is checked over the JSON text of that text; when it is accepted, the
  pipeline asks the text for its \<open>get\<close>, which raises.
\<close>

definition rpc_verify_proof ::
    "(bytes \<Rightarrow> bytes \<Rightarrow> bool) option \<Rightarrow> zkp_db \<Rightarrow> string \<Rightarrow> string \<Rightarrow> zkp_db \<times> rpc_status option" where
  "rpc_verify_proof ver db claim sig_hex =
     (case (ver, fromhex sig_hex) of
        (Some v, Some sig) \<Rightarrow> if v sig (utf8 (json_string claim)) then (db, Some UNKNOWN) else (db, Some INVALID_ARGUMENT)
      | _ \<Rightarrow> (db, Some INVALID_ARGUMENT))"

definition rpc_get_zkp_status :: "zkp_db \<Rightarrow> rpc_caller \<Rightarrow> rpc_status + zkp_credential option" where
  "rpc_get_zkp_status db c =
     (case caller_uuid c of
        None \<Rightarrow> Inl UNKNOWN
      | Some u \<Rightarrow> Inr (latest (\<lambda>x. dt_key (zc_issued_at x)) (filter (\<lambda>x. zc_user_id x = u) (zdb_credentials db))))"

definition rpc_revoke_credential ::
    "zkp_db \<Rightarrow> rpc_caller \<Rightarrow> datetime \<Rightarrow> string \<Rightarrow> string \<Rightarrow> zkp_db \<times> rpc_status option" where
  "rpc_revoke_credential db c now cid reason =
     (case (caller_uuid c, parse_uuid cid) of
        (Some caller, Some i) \<Rightarrow>
          (case scalar_one_or_none (filter (\<lambda>x. zc_id x = i) (zdb_credentials db)) of
             NoRow \<Rightarrow> (db, Some NOT_FOUND)
           | ManyRows \<Rightarrow> (db, Some UNKNOWN)
           | OneRow x \<Rightarrow>
               if zc_user_id x \<noteq> caller \<and> caller_role c \<notin> {''SUPER_ADMIN'', ''COMPLIANCE_OFFICER''}
               then (db, Some FORBIDDEN)
               else (db\<lparr>zdb_credentials := update_where (\<lambda>y. zc_id y = i)
                       (\<lambda>y. y\<lparr>zc_revoked := True, zc_revoked_at := Some now,
                              zc_revoked_reason := Some (if reason = [] then ''manual_revocation'' else reason)\<rparr>)
                       (zdb_credentials db)\<rparr>, None))
      | _ \<Rightarrow> (db, Some UNKNOWN))"

subsection \<open>Assistant (agent.py)\<close>

text \<open>
  The fields of \<open>ChatRequest\<close> (proto/agent.proto). \<open>HasField\<close> answers for the fields with presence, of which the message
  has none: its scalar fields are not \<open>optional\<close>. For another field it raises (\<open>None\<close>).
\<close>

record chat_request =
  cq_message :: string
  cq_temperature :: rat
  cq_max_tokens :: int
  cq_top_p :: rat
  cq_frequency_penalty :: rat
  cq_presence_penalty :: rat
  cq_n_results :: int
  cq_use_rag :: bool
  cq_style_preset :: string

record chat_params =
  cp_temperature :: rat
  cp_max_tokens :: int
  cp_top_p :: rat
  cp_frequency_penalty :: rat
  cp_presence_penalty :: rat
  cp_n_results :: int
  cp_use_rag :: bool
  cp_style_preset :: string

definition presence_fields :: "string list" where
  "presence_fields = []"

definition has_field :: "string \<Rightarrow> bool \<Rightarrow> bool option" where
  "has_field f is_set = (if f \<in> set presence_fields then Some is_set else None)"

definition gen_kwargs :: "chat_request \<Rightarrow> chat_params option" where
  "gen_kwargs q =
     (case has_field ''use_rag'' (cq_use_rag q) of
        None \<Rightarrow> None
      | Some present \<Rightarrow> Some
          \<lparr>cp_temperature = (if cq_temperature q = 0 then rnd (4 / 10) else cq_temperature q),
           cp_max_tokens = (if cq_max_tokens q = 0 then 4096 else cq_max_tokens q),
           cp_top_p = (if cq_top_p q = 0 then rnd (95 / 100) else cq_top_p q),
           cp_frequency_penalty = cq_frequency_penalty q, cp_presence_penalty = cq_presence_penalty q,
           cp_n_results = (if cq_n_results q = 0 then 5 else cq_n_results q),
           cp_use_rag = (if present then cq_use_rag q else True),
           cp_style_preset = (if cq_style_preset q = [] then ''auto'' else cq_style_preset q)\<rparr>)"

text \<open>\<open>answer\<close>: the pipeline; \<open>None\<close>: it raises. The generated chunks end with the marked metadata.\<close>

definition rpc_chat :: "(string \<Rightarrow> chat_params \<Rightarrow> 'a option) \<Rightarrow> chat_request \<Rightarrow> rpc_status + 'a" where
  "rpc_chat answer q =
     (case gen_kwargs q of
        None \<Rightarrow> Inl INTERNAL
      | Some k \<Rightarrow> (case answer (cq_message q) k of None \<Rightarrow> Inl INTERNAL | Some a \<Rightarrow> Inr a))"

datatype chat_chunk = Token string | FinalMeta string

definition chunk_of :: "string \<Rightarrow> chat_chunk" where
  "chunk_of raw =
     (if starts_with raw (CHR 0x00 # ''META:'') then FinalMeta (drop 6 raw) else Token raw)"

text \<open>The pipeline's texts, and whether it raised after them.\<close>

definition rpc_chat_stream ::
    "(string \<Rightarrow> chat_params \<Rightarrow> string list \<times> bool) \<Rightarrow> chat_request \<Rightarrow> chat_chunk list \<times> rpc_status option" where
  "rpc_chat_stream answer_stream q =
     (case gen_kwargs q of
        None \<Rightarrow> ([], Some INTERNAL)
      | Some k \<Rightarrow>
          (case answer_stream (cq_message q) k of
             (raws, failed) \<Rightarrow> (map chunk_of raws, if failed then Some INTERNAL else None)))"

definition indexing_roles :: "string list" where
  "indexing_roles = [''SUPER_ADMIN'', ''COMPLIANCE_OFFICER'', ''AUDITEUR'']"

text \<open>\<open>index_ok\<close>: \<open>index_knowledge_base\<close> returns; the result is whether the index was rebuilt.\<close>

definition rpc_trigger_indexing :: "bool \<Rightarrow> rpc_caller \<Rightarrow> rpc_status + unit" where
  "rpc_trigger_indexing index_ok c =
     (if caller_role c \<notin> set indexing_roles then Inl FORBIDDEN else if index_ok then Inr () else Inl INTERNAL)"

definition trigger_indexing :: "bool \<Rightarrow> user list \<Rightarrow> string option \<Rightarrow> app_error + unit" where
  "trigger_indexing index_ok users sub =
     (case get_current_user users sub of
        Inl e \<Rightarrow> Inl e
      | Inr u \<Rightarrow>
          if user_role u \<notin> set indexing_roles then Inl (HTTPException 403)
          else if index_ok then Inr () else Inl (HTTPException 500))"

definition rpc_semantic_search :: "(string \<Rightarrow> int \<Rightarrow> 'a option) \<Rightarrow> string \<Rightarrow> int \<Rightarrow> rpc_status + 'a" where
  "rpc_semantic_search find_docs query n =
     (case find_docs query (if n = 0 then 5 else n) of None \<Rightarrow> Inl INTERNAL | Some r \<Rightarrow> Inr r)"

record agent_status =
  ga_groq_configured :: bool
  ga_model :: string
  ga_knowledge_base_docs :: int
  ga_status :: string

definition agent_status_of :: "string \<Rightarrow> string \<Rightarrow> nat option \<Rightarrow> agent_status" where
  "agent_status_of api_key model docs =
     (let has_key = api_key \<noteq> [] in
      \<lparr>ga_groq_configured = has_key, ga_model = model,
       ga_knowledge_base_docs = (case docs of None \<Rightarrow> - 1 | Some n \<Rightarrow> int n),
       ga_status = (if has_key then ''ready'' else ''missing_api_key'')\<rparr>)"

subsection \<open>The port (server.py)\<close>

record grpc_settings =
  gs_environment :: string
  gs_server_cert :: string
  gs_server_key :: string
  gs_ca_cert :: string

datatype grpc_port = MutualTls | InsecurePort bool

text \<open>\<open>InsecurePort True\<close>: with the warning of a production server without transport security.\<close>

definition open_port :: "grpc_settings \<Rightarrow> grpc_port" where
  "open_port g =
     (if gs_environment g = ''production'' \<and> gs_server_cert g \<noteq> [] \<and> gs_server_key g \<noteq> [] \<and> gs_ca_cert g \<noteq> []
      then MutualTls else InsecurePort (gs_environment g = ''production''))"

text \<open>
  A call as a whole: the interceptors, then the servicer with the payload they attached. A call they do not pass on
  leaves the state alone. \<open>text_claims\<close>: the further claims of the token.
\<close>

datatype 'r rpc_reply = NotServed rpc_outcome | Served "rpc_status + 'r"

definition serve_call ::
  "interceptor list \<Rightarrow> decoder \<Rightarrow> oidc_settings \<Rightarrow> jwks_cache \<Rightarrow> auth_env \<Rightarrow> (string \<times> string) list \<Rightarrow>
   (claims \<Rightarrow> (string \<rightharpoonup> string)) \<Rightarrow> (rpc_caller \<Rightarrow> 's \<Rightarrow> 's \<times> (rpc_status + 'r)) \<Rightarrow> 's \<Rightarrow> 's \<times> 'r rpc_reply" where
  "serve_call is dec st ca env md text_claims servicer s =
     (case snd (serve_rpc is dec st ca env True md) of
        Handled (Some p) \<Rightarrow>
          (case servicer \<lparr>cl_claims = p, cl_text = text_claims p\<rparr> s of (s', r) \<Rightarrow> (s', Served r))
      | out \<Rightarrow> (s, NotServed out))"


subsection \<open>Identifiers\<close>

lemma replace_str_id: "hd old \<notin> set s \<Longrightarrow> old \<noteq> [] \<Longrightarrow> replace_str old new s = s"
proof (induction s)
  case Nil
  then show ?case by (subst replace_str.simps) simp
next
  case (Cons c s)
  then have "\<not> starts_with (c # s) old" by (cases old) (auto simp: starts_with_def)
  with Cons show ?case by (subst replace_str.simps) simp
qed

lemma dropWhile_none: "\<forall>c \<in> set s. \<not> p c \<Longrightarrow> dropWhile p s = s"
  by (cases s) auto

lemma strip_braces_id: "CHR ''{'' \<notin> set s \<Longrightarrow> CHR ''}'' \<notin> set s \<Longrightarrow> strip_braces s = s"
proof -
  assume "CHR ''{'' \<notin> set s" "CHR ''}'' \<notin> set s"
  then have "\<forall>c \<in> set s. c \<notin> {CHR ''{'', CHR ''}''}" by blast
  then show ?thesis by (simp add: strip_braces_def Let_def dropWhile_none)
qed

lemma hex_digit_plain:
  "n < 16 \<Longrightarrow> hex_digit n \<notin> {CHR ''-'', CHR ''+'', CHR ''u'', CHR ''x'', CHR ''X'', CHR ''{'', CHR ''}'', CHR ''_''}"
  by (auto simp: hex_digit_def char_of_eq_iff take_bit_nat_def split: if_splits)

lemma set_hex_pad: "c \<in> set (hex_pad k n) \<Longrightarrow> \<exists>d < 16. c = hex_digit d"
proof (induction k arbitrary: n)
  case (Suc k)
  then consider "c = hex_digit (n mod 16)" | "c \<in> set (hex_pad k (n div 16))" by auto
  then show ?case by cases (auto intro: exI [of _ "n mod 16"] Suc.IH)
qed simp

lemma hex_pad_plain:
  assumes "c \<in> set (hex_pad k n)"
  shows "c \<noteq> CHR ''-'' \<and> c \<noteq> CHR ''+'' \<and> c \<noteq> CHR ''u'' \<and> c \<noteq> CHR ''x'' \<and> c \<noteq> CHR ''X'' \<and>
    c \<noteq> CHR ''{'' \<and> c \<noteq> CHR ''}'' \<and> c \<noteq> CHR ''_''"
proof -
  obtain d where "d < 16" "c = hex_digit d" using set_hex_pad [OF assms] by blast
  then show ?thesis using hex_digit_plain [of d] by simp
qed

lemma hex_pad_space: "c \<in> set (hex_pad k n) \<Longrightarrow> \<not> is_space c"
  using set_hex_pad by force

lemma hex_digits_pad:
  "hex_digits b acc (hex_pad k n @ t) = hex_digits (b \<or> 0 < k) (acc * 16 ^ k + n mod 16 ^ k) t"
proof (induction k arbitrary: n t b)
  case (Suc k)
  have "n mod (16 * 16 ^ k) = 16 * (n div 16 mod 16 ^ k) + n mod 16" by (rule mod_mult2_eq)
  moreover have "n mod 16 < 16" by simp
  ultimately show ?case by (simp add: Suc.IH hex_digit_neq algebra_simps)
qed simp

lemma int16_pad: "0 < k \<Longrightarrow> int16 (hex_pad k n) = Some (int (n mod 16 ^ k))"
proof -
  let ?s = "hex_pad k n"
  assume k: "0 < k"
  then have ne: "?s \<noteq> []" by (metis length_hex_pad length_0_conv less_irrefl)
  have hd: "hd ?s \<noteq> CHR ''-''" "hd ?s \<noteq> CHR ''+''" using hex_pad_plain [OF hd_in_set [OF ne]] by simp_all
  have "strip ?s = ?s"
    by (rule strip_id) (use ne hex_pad_space hd_in_set last_in_set in \<open>blast+\<close>)
  moreover have "\<not> starts_with ?s ''-''" "\<not> starts_with ?s ''+''" using ne hd by (cases ?s; simp add: starts_with_def)+
  moreover have "\<not> starts_with ?s (CHR ''0'' # c # [])" if "c = CHR ''x'' \<or> c = CHR ''X''" for c
  proof
    assume "starts_with ?s (CHR ''0'' # c # [])"
    then obtain t where "?s = CHR ''0'' # c # t" by (cases ?s rule: list.exhaust; cases "tl ?s") (auto simp: starts_with_def)
    then have "c \<in> set ?s" by simp
    then show False using hex_pad_plain [of c k n] that by blast
  qed
  moreover have "hex_digits False 0 ?s = Some (n mod 16 ^ k)" using hex_digits_pad [of False 0 k n "[]"] k by simp
  ultimately show ?thesis by (simp add: int16_def hex_unsigned_def)
qed

lemma hex_of_parts:
  "uuid_str n = take 8 (hex_pad 32 n) @ ''-'' @ take 4 (drop 8 (hex_pad 32 n)) @ ''-'' @ take 4 (drop 12 (hex_pad 32 n)) @ ''-'' @
     take 4 (drop 16 (hex_pad 32 n)) @ ''-'' @ drop 20 (hex_pad 32 n)"
  by (simp add: uuid_str_def Let_def)

lemma uuid_str_chars: "c \<in> set (uuid_str n) \<Longrightarrow> c \<in> set (hex_pad 32 n) \<or> c = CHR ''-''"
  unfolding hex_of_parts by (auto dest: in_set_takeD in_set_dropD)

lemma uuid_str_plain:
  "CHR ''u'' \<notin> set (uuid_str n)" "CHR ''{'' \<notin> set (uuid_str n)" "CHR ''}'' \<notin> set (uuid_str n)"
  using uuid_str_chars hex_pad_plain by blast+

lemma uuid_str_dashes: "filter (\<lambda>c. c \<noteq> CHR ''-'') (uuid_str n) = hex_pad 32 n"
proof -
  let ?h = "hex_pad 32 n"
  have keep: "filter (\<lambda>c. c \<noteq> CHR ''-'') (take i (drop j ?h)) = take i (drop j ?h)"
    "filter (\<lambda>c. c \<noteq> CHR ''-'') (take i ?h) = take i ?h" "filter (\<lambda>c. c \<noteq> CHR ''-'') (drop j ?h) = drop j ?h" for i j
    using hex_pad_plain by (auto simp: filter_id_conv dest!: in_set_takeD in_set_dropD)
  have "filter (\<lambda>c. c \<noteq> CHR ''-'') (uuid_str n) =
      take 8 ?h @ take 4 (drop 8 ?h) @ take 4 (drop 12 ?h) @ take 4 (drop 16 ?h) @ drop 20 ?h"
    unfolding hex_of_parts filter_append keep by simp
  moreover have "drop 8 ?h = take 4 (drop 8 ?h) @ drop 12 ?h" "drop 12 ?h = take 4 (drop 12 ?h) @ drop 16 ?h"
    "drop 16 ?h = take 4 (drop 16 ?h) @ drop 20 ?h"
    using append_take_drop_id [of 4 "drop 8 ?h"] append_take_drop_id [of 4 "drop 12 ?h"]
      append_take_drop_id [of 4 "drop 16 ?h"] by simp_all
  ultimately show ?thesis using append_take_drop_id [of 8 ?h] by metis
qed

lemma parse_clean:
  assumes "strip_braces (replace_str ''uuid:'' [] (replace_str ''urn:'' [] s)) = t"
    and "filter (\<lambda>c. c \<noteq> CHR ''-'') t = hex_pad 32 n" and "n < 2 ^ 128"
  shows "parse_uuid s = Some n"
proof -
  have "int16 (hex_pad 32 n) = Some (int n)" using int16_pad [of 32 n] assms(3) by simp
  then show ?thesis using assms by (simp add: parse_uuid_def Let_def)
qed

lemma parse_uuid_text: "n < 2 ^ 128 \<Longrightarrow> parse_uuid (uuid_str n) = Some n"
  by (rule parse_clean [OF _ uuid_str_dashes]) (simp_all add: replace_str_id strip_braces_id uuid_str_plain)

lemma strip_braced: "strip_braces (CHR ''{'' # uuid_str n @ ''}'') = uuid_str n"
proof -
  let ?p = "\<lambda>c. c \<in> {CHR ''{'', CHR ''}''}"
  have none: "\<forall>c \<in> set (uuid_str n). \<not> ?p c" using uuid_str_plain [of n] by blast
  then have rest: "dropWhile ?p (rev (uuid_str n)) = rev (uuid_str n)" by (intro dropWhile_none) simp
  have "uuid_str n \<noteq> []" by (simp add: hex_of_parts)
  with none have "dropWhile ?p (uuid_str n @ ''}'') = uuid_str n @ ''}''" by (cases "uuid_str n") auto
  with rest show ?thesis by (simp add: strip_braces_def Let_def)
qed

lemma replace_str_Cons:
  "replace_str old new (c # s) =
     (if old = [] then c # s
      else if starts_with (c # s) old then new @ replace_str old new (drop (length old) (c # s))
      else c # replace_str old new s)"
  by (subst replace_str.simps) simp

text \<open>The text of an identifier is read back as the identifier, and so are its other spellings: in braces, as a URN, and
  as bare digits. What the HTTP endpoints print as an id is an id of the gRPC requests.\<close>

theorem parse_uuid_str:
  assumes "n < 2 ^ 128"
  shows "parse_uuid (uuid_str n) = Some n \<and> parse_uuid (CHR ''{'' # uuid_str n @ ''}'') = Some n \<and>
    parse_uuid (''urn:uuid:'' @ uuid_str n) = Some n \<and> parse_uuid (hex_pad 32 n) = Some n"
proof (intro conjI)
  show "parse_uuid (uuid_str n) = Some n" using assms by (rule parse_uuid_text)
  have "CHR ''u'' \<notin> set (CHR ''{'' # uuid_str n @ ''}'')" using uuid_str_plain by simp
  then show "parse_uuid (CHR ''{'' # uuid_str n @ ''}'') = Some n"
    by (intro parse_clean [OF _ uuid_str_dashes assms]) (simp add: replace_str_id strip_braced)
  have "replace_str ''urn:'' [] (''urn:uuid:'' @ uuid_str n) = ''uuid:'' @ uuid_str n"
    using uuid_str_plain by (simp add: replace_str_Cons starts_with_def replace_str_id)
  moreover have "replace_str ''uuid:'' [] (''uuid:'' @ uuid_str n) = uuid_str n"
    using uuid_str_plain by (simp add: replace_str_Cons starts_with_def replace_str_id)
  ultimately show "parse_uuid (''urn:uuid:'' @ uuid_str n) = Some n"
    by (intro parse_clean [OF _ uuid_str_dashes assms]) (simp add: strip_braces_id uuid_str_plain)
  have "CHR ''u'' \<notin> set (hex_pad 32 n)" "CHR ''{'' \<notin> set (hex_pad 32 n)" "CHR ''}'' \<notin> set (hex_pad 32 n)"
    using hex_pad_plain by blast+
  then show "parse_uuid (hex_pad 32 n) = Some n"
    using hex_pad_plain
    by (intro parse_clean [where t = "hex_pad 32 n", OF _ _ assms]) (auto simp: replace_str_id strip_braces_id filter_id_conv)
qed

theorem parse_uuid_str_witness:
  "parse_uuid (uuid_str 5) = Some 5 \<and> parse_uuid (''urn:uuid:'' @ uuid_str 5) = Some 5"
  using parse_uuid_str [of 5] by simp


subsection \<open>Approvals\<close>

lemma record_of_OneRow:
  "record_of db u = OneRow r \<Longrightarrow> filter (\<lambda>x. cr_participant_id x = u) (cdb_records db) = [r]"
  by (auto simp: record_of_def)

lemma approved_latest:
  assumes "record_of db u = OneRow r" "\<And>x. cr_participant_id (f x) = cr_participant_id x"
  shows "latest_record (db\<lparr>cdb_records := update_where (\<lambda>x. cr_id x = cr_id r) f (cdb_records db)\<rparr>) u = Some (f r)"
  using record_of_OneRow [OF assms(1)] assms(2)
  by (simp add: latest_record_def filter_update_where) (simp add: update_where_def)

lemma kyc_verify_latest:
  "latest_record db u = Some r \<Longrightarrow> kyc_verify db now u lvl = Inr k \<Longrightarrow>
     kyc_approved k \<longleftrightarrow> \<not> dt_less (cr_expires_at r) now \<and> lvl \<le> cr_kyc_level r"
  by (auto simp: kyc_verify_def Let_def split: if_splits)

lemma kyc_verify_total: "latest_record db u = Some r \<Longrightarrow> \<exists>k. kyc_verify db now u lvl = Inr k"
  by (cases "dt_less (cr_expires_at r) now"; cases "cr_kyc_level r < lvl") (simp_all add: kyc_verify_def Let_def)

lemma rpc_approve_cases:
  assumes "rpc_approve_kyc db c now later q = (db', Inr k)"
  obtains u r caller expires where "parse_uuid (rka_user_id q) = Some u" "record_of db u = OneRow r" "caller_uuid c = Some caller"
    "shift_days (if rka_validity_days q = 0 then 365 else rka_validity_days q) now = Some expires" "user_exists db caller"
    "latest_record db' u = Some (rpc_approved q caller now expires r)"
    "kyc_verify db' later u KYC_REQUIRED_LEVEL = Inr k"
proof -
  from assms obtain u r caller expires where f: "parse_uuid (rka_user_id q) = Some u" "record_of db u = OneRow r" "caller_uuid c = Some caller"
    "shift_days (if rka_validity_days q = 0 then 365 else rka_validity_days q) now = Some expires" "user_exists db caller"
    by (auto simp: rpc_approve_kyc_def split: option.splits one.splits if_splits)
  from approved_latest [OF f(2), of "rpc_approved q caller now expires"] assms f
  show thesis by (intro that [OF f]) (auto simp: rpc_approve_kyc_def rpc_approved_def Let_def split: sum.splits)
qed

lemma approve_kyc_record:
  assumes "approve_kyc db sub now later b = (db1, Inr k)"
  shows "\<exists>r f. record_of db (kar_user_id b) = OneRow r \<and>
    db1 = db\<lparr>cdb_records := update_where (\<lambda>x. cr_id x = cr_id r) f (cdb_records db)\<rparr> \<and>
    (\<forall>x. cr_participant_id (f x) = cr_participant_id x \<and> cr_kyc_status (f x) = ''APPROUVE'' \<and>
      cr_expires_at (f x) = plus_days (kar_validity_days b) now)"
proof -
  from assms obtain officer r where o: "require_role [''COMPLIANCE_OFFICER''] (cdb_users db) sub = Inr officer"
    "record_of db (kar_user_id b) = OneRow r" "valid_kyc_approve b"
    by (auto simp: approve_kyc_def Let_def split: sum.splits one.splits if_splits)
  show ?thesis using assms unfolding approve_kyc_def o Let_def
    by (intro exI [of _ r] exI conjI) (auto simp: o split: sum.splits)
qed


text \<open>C36: Who may approve over gRPC is anyone with a token whose subject is the id of some user: the role is never asked,
  no bound is put on level and validity. The HTTP endpoint refuses everyone but an active compliance officer.\<close>

theorem grpc_approval_asks_no_role:
  assumes "parse_uuid (rka_user_id q) = Some u" and "record_of db u = OneRow r" and "caller_uuid c = Some caller"
    and "user_exists db caller" and "shift_days (if rka_validity_days q = 0 then 365 else rka_validity_days q) now = Some expires"
  shows "(\<exists>db' k. rpc_approve_kyc db c now later q = (db', Inr k) \<and>
      latest_record db' u = Some (rpc_approved q caller now expires r)) \<and>
    (get_current_user (cdb_users db) sub = Inr v \<and> user_role v \<noteq> ''COMPLIANCE_OFFICER'' \<longrightarrow>
      approve_kyc db sub now later b = (db, Inl (InsufficientPermissionsError [''COMPLIANCE_OFFICER''])))"
proof
  let ?f = "rpc_approved q caller now expires"
  let ?db = "db\<lparr>cdb_records := update_where (\<lambda>x. cr_id x = cr_id r) ?f (cdb_records db)\<rparr>"
  have l: "latest_record ?db u = Some (?f r)" using assms(2) by (rule approved_latest) (simp add: rpc_approved_def)
  then obtain k where "kyc_verify ?db later u KYC_REQUIRED_LEVEL = Inr k" using kyc_verify_total by blast
  then have "rpc_approve_kyc db c now later q = (?db, Inr k)" using assms by (simp add: rpc_approve_kyc_def Let_def)
  with l show "\<exists>db' k. rpc_approve_kyc db c now later q = (db', Inr k) \<and> latest_record db' u = Some (?f r)" by blast
  show "get_current_user (cdb_users db) sub = Inr v \<and> user_role v \<noteq> ''COMPLIANCE_OFFICER'' \<longrightarrow>
      approve_kyc db sub now later b = (db, Inl (InsufficientPermissionsError [''COMPLIANCE_OFFICER'']))"
    by (auto simp: approve_kyc_def require_role_def)
qed

lemma plus_days_later: "0 < n \<Longrightarrow> dt_less t (plus_days n t)"
proof (induction n)
  case (Suc n)
  have "dt_less (plus_days n t) (plus_days (Suc n) t)" using next_day_later by (simp add: plus_days_def)
  with Suc show ?case by (cases "n = 0") (auto simp: dt_less_def plus_days_def)
qed simp

definition staff_member :: "uuid \<Rightarrow> string \<Rightarrow> string \<Rightarrow> user" where
  "staff_member i sub role = \<lparr>user_id = i, user_org_id = 1, keycloak_sub = Some sub, user_email = sub @ ''@bank'', user_first_name = None,
     user_last_name = None, user_role = role, user_msp_id = None, user_is_active = True, user_phone = None,
     user_last_login = None\<rparr>"

definition staffed_db :: compliance_db where
  "staffed_db = rejected_db\<lparr>cdb_users := [staff_member 7 ''kc-7'' ''TRADER'', staff_member 9 ''kc-9'' ''COMPLIANCE_OFFICER'']\<rparr>"

definition trader_caller :: rpc_caller where
  "trader_caller = \<lparr>cl_claims = (sample_claims ''j-a'' 10)\<lparr>c_sub := Some (uuid_str 7)\<rparr>, cl_text = (\<lambda>_. None)\<rparr>"

definition sample_approval :: rpc_kyc_approve where
  "sample_approval = \<lparr>rka_user_id = uuid_str 7, rka_level = 3, rka_validity_days = 30, rka_notes = []\<rparr>"

lemma staffed_facts:
  "parse_uuid (rka_user_id sample_approval) = Some 7" "record_of staffed_db 7 = OneRow rejected_record"
  "caller_uuid trader_caller = Some 7" "user_exists staffed_db 7"
  "get_current_user (cdb_users staffed_db) (Some ''kc-7'') = Inr (staff_member 7 ''kc-7'' ''TRADER'')"
  by (simp_all add: sample_approval_def parse_uuid_text caller_uuid_def trader_caller_def staffed_db_def staff_member_def
      record_of_def rejected_db_def rejected_record_def empty_db_def user_exists_def get_current_user_def)

lemma staff_role: "user_role (staff_member 7 ''kc-7'' ''TRADER'') \<noteq> ''COMPLIANCE_OFFICER''"
  by (simp add: staff_member_def)

lemma staffed_validity: "\<exists>t. shift_days (if rka_validity_days sample_approval = 0 then 365 else rka_validity_days sample_approval) sample_time = Some t"
  using add_days_defined [of sample_time 30] by (simp add: sample_approval_def shift_days_def sample_time_def)

theorem grpc_approval_asks_no_role_witness:
  "\<exists>db' k. rpc_approve_kyc staffed_db trader_caller sample_time sample_time sample_approval = (db', Inr k) \<and>
     approve_kyc staffed_db (Some ''kc-7'') sample_time sample_time \<lparr>kar_user_id = 7, kar_level = 3, kar_validity_days = 30, kar_notes = None\<rparr> =
       (staffed_db, Inl (InsufficientPermissionsError [''COMPLIANCE_OFFICER'']))"
proof -
  from staffed_validity obtain t where t: "shift_days (if rka_validity_days sample_approval = 0 then 365 else rka_validity_days sample_approval) sample_time = Some t" ..
  show ?thesis
    using grpc_approval_asks_no_role [OF staffed_facts(1-4) t, of sample_time "Some ''kc-7''" "staff_member 7 ''kc-7'' ''TRADER''"
        "\<lparr>kar_user_id = 7, kar_level = 3, kar_validity_days = 30, kar_notes = None\<rparr>"] staffed_facts(5) staff_role
    by auto
qed



subsection \<open>Asset calls\<close>

lemma kw_text_Nil [simp]: "kw_text [] k = None"
  by (simp add: kw_text_def)

lemma kw_text_Cons [simp]:
  "kw_text ((k', v) # kw) k = (if k = k' then (case v of KText s \<Rightarrow> Some s | _ \<Rightarrow> None) else kw_text kw k)"
  by (auto simp: kw_text_def split: kwarg.splits)

lemma kw_decimal_Nil [simp]: "kw_decimal dec [] k = None"
  by (simp add: kw_decimal_def)

lemma kw_decimal_Cons [simp]:
  "kw_decimal dec ((k', v) # kw) k = (if k = k' then (case v of KFloat x \<Rightarrow> dec x | _ \<Rightarrow> None) else kw_decimal dec kw k)"
  by (auto simp: kw_decimal_def split: kwarg.splits)

lemma rpc_write_invalid: "rpc_write None c run l db = (l, db, Inl UNKNOWN)"
  by (simp add: rpc_write_def)

lemma asset_proto_fails: "to_proto asset_proto_reads asset_response_attributes a = Inl UNKNOWN"
  by (simp add: to_proto_def asset_proto_reads_def asset_response_attributes_def asset_response_fields_def)

lemma valuation_proto_fails: "to_proto valuation_proto_reads valuation_attributes v = Inl UNKNOWN"
  by (simp add: to_proto_def valuation_proto_reads_def valuation_attributes_def)

text \<open>No asset can be written or read over gRPC: the messages lack a field each request model requires, so the four
  writes fail before the ledger and the tables are touched, and every asset that is found fails in the
  conversion of the answer.\<close>

theorem grpc_assets_unusable:
  "rpc_tokenize_asset dec submit env l db c q = (l, db, Inl UNKNOWN) \<and>
   rpc_transfer_asset dec submit env l db c i new_owner amount = (l, db, Inl UNKNOWN) \<and>
   rpc_freeze_asset submit env l db c i why = (l, db, Inl UNKNOWN) \<and>
   rpc_unfreeze_asset submit env l db c i why = (l, db, Inl UNKNOWN) \<and>
   rpc_get_asset types_ok submit l c i \<noteq> Inr v \<and>
   rpc_search_assets types_ok submit l c status kind owner limit offset \<noteq> Inr (v # vs) \<and>
   rpc_list_asset_valuations db i \<noteq> Inr (w # ws)"
proof -
  have "tokenize_schema dec
      [(''asset_id'', KText (rt_asset_id q)), (''asset_type'', KText (rt_asset_type q)), (''isin'', KText (rt_isin q)),
       (''lei'', KText (rt_lei q)), (''currency'', KText (rt_currency q)), (''face_value'', KFloat (rt_face_value q)),
       (''owner'', KText (rt_owner q)), (''metadata'', KText (rt_metadata q))] = None"
    by (simp add: tokenize_schema_def)
  moreover have "transfer_schema dec [(''asset_id'', KText i), (''new_owner'', KText new_owner), (''amount'', KFloat amount)] = None"
    by (simp add: transfer_schema_def)
  moreover have "freeze_schema [(''asset_id'', KText i), (''reason'', KText why)] = None" by (simp add: freeze_schema_def)
  moreover have "unfreeze_schema [(''asset_id'', KText i), (''reason'', KText why)] = None" by (simp add: unfreeze_schema_def)
  moreover have "rpc_get_asset types_ok submit l c i \<noteq> Inr v"
    by (simp add: rpc_get_asset_def asset_proto_fails split: sum.splits pyval.splits)
  moreover have "rpc_search_assets types_ok submit l c status kind owner limit offset \<noteq> Inr (v # vs)"
    by (auto simp: rpc_search_assets_def asset_proto_fails split: sum.splits pyval.splits)
  moreover have "rpc_list_asset_valuations db i \<noteq> Inr (w # ws)"
    by (simp add: rpc_list_asset_valuations_def valuation_proto_fails Let_def)
  ultimately show ?thesis
    by (simp add: rpc_tokenize_asset_def rpc_transfer_asset_def rpc_freeze_asset_def rpc_unfreeze_asset_def rpc_write_invalid)
qed


definition sample_valuation :: rpc_valuate where
  "sample_valuation = \<lparr>rv_current_value = - 5, rv_yield_to_maturity = 0, rv_duration = 0, rv_convexity = 0,
     rv_credit_spread_bps = 0, rv_pricing_source = [], rv_valuation_date = []\<rparr>"



subsection \<open>Accounts and directory\<close>

lemma filter_active: "filter (\<lambda>v. P v \<and> Q v) xs = filter Q (filter P xs)"
  by (induction xs) auto

text \<open>C37: An erasure requested over gRPC does what the HTTP erasure does to tables and session store, also when it fails.
  It also erases a deactivated account, to which the HTTP endpoint answers 401.\<close>

theorem grpc_erasure_agrees:
  assumes "scalar_one_or_none (filter (\<lambda>v. keycloak_sub v = Some k) (cdb_users (zdb_compliance db))) = OneRow u"
    and "c_sub (cl_claims c) = Some k" and "k \<noteq> []"
  shows "(if user_is_active u
     then rpc_delete_my_account R db s now ts up c =
       (case delete_my_account R db s now ts up (Some k) of (db', s', e) \<Rightarrow> (db', s', map_option (\<lambda>_. UNKNOWN) e))
     else delete_my_account R db s now ts up (Some k) = (db, s, Some (HTTPException 401)) \<and>
       ((\<forall>v \<in> set (cdb_users (zdb_compliance db)). user_email v = anonymised_email (user_id u) \<longrightarrow> user_id v = user_id u) \<longrightarrow>
         rpc_delete_my_account R db s now ts True c = (erase_rows now u db, erase_store R s ts k, None)))"
proof -
  let ?us = "cdb_users (zdb_compliance db)"
  have one: "filter (\<lambda>v. keycloak_sub v = Some k) ?us = [u]" using assms(1) by auto
  then have "u \<in> set (filter (\<lambda>v. keycloak_sub v = Some k) ?us)" by simp
  then have sub: "keycloak_sub u = Some k" by simp
  have found: "user_by_sub ?us c = Some u" using assms by (simp add: user_by_sub_def)
  have active: "get_current_user ?us (Some k) = (if user_is_active u then Inr u else Inl (HTTPException 401))"
    using one assms(3) by (simp add: get_current_user_def filter_active)
  show ?thesis
    using found active sub assms(2)
    by (auto simp: rpc_delete_my_account_def delete_my_account_def or_empty_def)
qed

theorem grpc_erasure_agrees_witness:
  "fst (rpc_delete_my_account map_redis erasable_db [] sample_date 100 True
      \<lparr>cl_claims = sample_claims ''j-a'' 10, cl_text = (\<lambda>_. None)\<rparr>) =
    fst (delete_my_account map_redis erasable_db [] sample_date 100 True (Some ''u-1''))"
proof -
  have one: "scalar_one_or_none (filter (\<lambda>v. keycloak_sub v = Some ''u-1'') (cdb_users (zdb_compliance erasable_db))) =
      OneRow (sample_account\<lparr>keycloak_sub := Some ''u-1''\<rparr>)"
    by (simp add: erasable_db_def)
  have sub: "c_sub (cl_claims \<lparr>cl_claims = sample_claims ''j-a'' 10, cl_text = (\<lambda>_. None)\<rparr>) = Some ''u-1''"
    by (simp add: sample_claims_def)
  have active: "user_is_active (sample_account\<lparr>keycloak_sub := Some ''u-1''\<rparr>)" by (simp add: sample_account_def)
  show ?thesis
    using grpc_erasure_agrees [OF one sub, of map_redis "[]" sample_date 100 True] active by (simp split: prod.splits)
qed

text \<open>No chat is answered, and no call is served at all with the interceptors in the installed order.\<close>

lemma grpc_chat_unusable: "rpc_chat answer q = Inl INTERNAL" "rpc_chat_stream answer_stream q = ([], Some INTERNAL)"
  by (simp_all add: rpc_chat_def rpc_chat_stream_def gen_kwargs_def has_field_def presence_fields_def)

lemma grpc_proof_never_accepted: "\<exists>e. rpc_verify_proof ver db claim sig = (db, Some e)"
  by (auto simp: rpc_verify_proof_def split: option.splits)

lemma grpc_installed_order_serves_nothing:
  "serve_call server_interceptors dec st ca env md text_claims servicer s = (s, NotServed RpcFailed)"
  by (simp add: serve_call_def serve_rpc_shipped)

lemma grpc_other_order_serves:
  assumes "grpc_extract_token md = Some tok" "tok \<noteq> []"
    and "validate_token dec st ca (en_fetch env) (en_refetch env) (en_now env) tok = (ca', Inr p)"
  shows "serve_call [AuthInterceptor, LoggingInterceptor] dec st ca env md text_claims servicer s =
    (case servicer \<lparr>cl_claims = p, cl_text = text_claims p\<rparr> s of (s', r) \<Rightarrow> (s', Served r))"
  using assms by (simp add: serve_call_def serve_rpc_def)

lemma erased_row:
  assumes "get_current_user (cdb_users (zdb_compliance db)) (Some k) = Inr u"
  shows "anonymise u \<in> set (cdb_users (zdb_compliance (erase_rows now u db)))"
  using get_current_user_active [OF assms] by (force simp: erased_users set_update_where)


text \<open>Reading over gRPC needs a token and nothing else: every caller gets all compliance records, the whole audit log
  and every alert in one call. The HTTP listing of the records answers at most 200 rows, and it and the alerts
  refuse traders and custodians.\<close>

theorem grpc_reads_unrestricted:
  assumes "length (cdb_records db) \<le> nat n" and "length (cdb_audit db) \<le> nat n" and "length (cdb_sars db) \<le> nat n" and "0 < n"
  shows "rpc_list_compliance_records db n 0 = Inr (cdb_records db) \<and> rpc_list_audit_logs db n 0 = Inr (rev (cdb_audit db)) \<and>
    (\<exists>alerts. rpc_get_active_alerts db n 0 = Inr alerts \<and>
      (\<forall>r \<in> set (cdb_records db). cr_sanctions_hit r \<longrightarrow> HighRiskParticipant r \<in> set alerts) \<and>
      (\<forall>r \<in> set (cdb_sars db). sar_status r = ''DRAFT'' \<longrightarrow> DraftSar r \<in> set alerts)) \<and>
    (list_compliance_records db sub m k = Inr rows \<longrightarrow> length rows \<le> 200) \<and>
    (get_current_user (cdb_users db) sub = Inr v \<and> user_role v \<in> {''TRADER'', ''CUSTODIAN''} \<longrightarrow>
      (\<exists>e. list_compliance_records db sub m k = Inl e) \<and> (\<exists>e. get_active_alerts db sub m k = Inl e))"
proof -
  let ?P = "\<lambda>r. cr_risk_category r \<in> {''ELEVE'', ''CRITIQUE''} \<or> cr_sanctions_hit r \<or> cr_pep_status r"
  have whole: "rpc_page 50 n 0 rs = Inr rs" if "length rs \<le> nat n" for rs :: "'a list"
    using that assms(4) by (simp add: rpc_page_def page_def)
  have risky: "length (filter ?P (cdb_records db)) \<le> nat n" using assms(1) le_trans length_filter_le by blast
  have sars: "length (sar_get_active db) \<le> nat n" unfolding sar_get_active_def using assms(3) le_trans length_filter_le by blast
  have all: "rpc_get_active_alerts db n 0 =
      Inr (map HighRiskParticipant (filter ?P (cdb_records db)) @ map DraftSar (sar_get_active db))"
    unfolding rpc_get_active_alerts_def
    using risky sars assms(4) by (simp add: rpc_page_def page_def)
  have refused: "(\<exists>e. list_compliance_records db sub m k = Inl e) \<and> (\<exists>e. get_active_alerts db sub m k = Inl e)"
    if "get_current_user (cdb_users db) sub = Inr v \<and> user_role v \<in> {''TRADER'', ''CUSTODIAN''}"
    using that by (auto simp: list_compliance_records_def get_active_alerts_def require_role_def)
  have bound: "length rows \<le> 200" if "list_compliance_records db sub m k = Inr rows"
    using that by (auto simp: list_compliance_records_def split: sum.splits if_splits)
  have "rpc_list_compliance_records db n 0 = Inr (cdb_records db)" "rpc_list_audit_logs db n 0 = Inr (rev (cdb_audit db))"
    using assms by (simp_all add: rpc_list_compliance_records_def rpc_list_audit_logs_def rpc_page_def page_def)
  then show ?thesis using all refused bound by (auto simp: sar_get_active_def)
qed

definition checked_address :: "string \<Rightarrow> bool" where
  "checked_address e \<longleftrightarrow> rev (take 8 (rev e)) \<noteq> ''.invalid''"

definition sample_org :: organization where
  "sample_org = \<lparr>org_id = 1, org_code = ''B1'', org_lei = None, org_legal_name = ''Bank'', org_msp_id = ''BANK01MSP'',
     org_country_code = Some ''FR'', org_is_active = True\<rparr>"

definition directory_db :: zkp_db where
  "directory_db = \<lparr>zdb_credentials = [], zdb_nullifiers = [],
     zdb_compliance = staffed_db\<lparr>cdb_users := [staff_member 7 ''kc-7'' ''TRADER'', staff_member 9 ''kc-9'' ''AUDITEUR''],
       cdb_orgs := [sample_org]\<rparr>\<rparr>"


theorem grpc_reads_unrestricted_witness:
  "rpc_list_compliance_records staffed_db 50 0 = Inr (cdb_records staffed_db) \<and>
   (\<exists>e. list_compliance_records staffed_db (Some ''kc-7'') 50 0 = Inl e)"
proof -
  have n: "length (cdb_records staffed_db) \<le> nat 50" "length (cdb_audit staffed_db) \<le> nat 50" "length (cdb_sars staffed_db) \<le> nat 50"
    "(0 :: int) < 50"
    by (simp_all add: staffed_db_def rejected_db_def empty_db_def)
  have "user_role (staff_member 7 ''kc-7'' ''TRADER'') \<in> {''TRADER'', ''CUSTODIAN''}" by (simp add: staff_member_def)
  with grpc_reads_unrestricted [OF n, of "Some ''kc-7''" 50 0 _ "staff_member 7 ''kc-7'' ''TRADER''"] staffed_facts(5)
  show ?thesis by blast
qed

end
