(* ===== verification/Spec2Isabelle.thy ===== *)
theory Spec2Isabelle
  imports Account Tribunal AssetLaws Cli AuditTrail Grpc Queries ComplianceTasks Wallet Servicers
begin

text \<open>
  A verification of the tokenisation platform under src/: a FastAPI service (core/) that issues
  real-world assets on a Hyperledger Fabric ledger, with its smart contract (chaincode/), a compliance
  engine, anonymous eligibility proofs, a tribunal, sessions over Keycloak, an event feed, and the
  command-line client (cli/).

  \<^bold>\<open>How the parts interact.\<close> A request passes the rate limiter (\<open>NetGuard\<close>) and the authentication
  middleware (\<open>Auth\<close>), which keep their state in Redis (\<open>Redis\<close>), and is resolved to a user with a role
  (\<open>Access\<close>). A transfer is screened by the compliance engine (\<open>Compliance\<close>), submitted through the
  Fabric client (\<open>Network\<close>, under the retry decorator of \<open>Resilience\<close>) to the contract (\<open>Chaincode\<close>), and
  then written to the database (\<open>Assets\<close>). Auditors read the ledger back (\<open>AuditTrail\<close>); clients follow the
  events (\<open>Events\<close>, \<open>Cli\<close>).

  \<^bold>\<open>Foundations.\<close>

  \<^item> \<open>Prelude\<close>: Python strings (code points below 256), regular expressions, bytes, hexadecimal text and
    the rows of SQL queries; \<open>PyFloat\<close>: IEEE doubles as rationals with rounding to 53 bits; \<open>PyText\<close>:
    integers in base 16, UTC timestamps and canonical JSON; \<open>Json\<close>: \<open>json.dumps\<close> and \<open>json.loads\<close> with
    their round trip; \<open>Sha256\<close>: SHA-256 over 32-bit words and the interface \<open>digest32\<close>.

  \<^item> \<open>Interfaces\<close>: machines with an invariant (\<open>machine\<close>), with an order that only grows (\<open>growing\<close>) and
    with a specification they refine (\<open>refinement\<close>). \<open>Gateway\<close> states what the asset service relies on
    when it submits a transaction (locale \<open>gateway\<close>) and interprets it on the Fabric client in front of
    the contract; \<open>Redis\<close> states the laws of the commands the code uses (locale \<open>redis_server\<close>) and
    interprets them on an association list with expiry times.

  \<^bold>\<open>Components.\<close>

  \<^item> \<open>Access\<close> (core/dependencies.py, core/exceptions.py): which user a request acts for, the role
    guard, and the HTTP status of each error.

  \<^item> \<open>NetGuard\<close> (core/core/client_ip.py, core/api/middleware/rate_limiter.py): the client address and the
    sliding-window limiter, shown equal to a log of arrivals. \<open>Auth\<close> (core/core/oidc.py,
    core/core/auth_cookies.py, core/api/middleware/auth_middleware.py, core/features/auth/router.py):
    token validation, PKCE, cookies, the middleware, login, callback, logout, refresh and the linking of
    accounts. \<open>Account\<close>: erasure of an account, where sessions, users and credentials meet. \<open>Grpc\<close>
    (core/grpc_server): the interceptors and their order. \<open>Servicers\<close> (core/grpc_server/servicers,
    core/grpc_server/server.py): every operation of the eight gRPC services over the same tables as the
    HTTP endpoints, the identifiers they parse, the port they open, and the endpoints that list
    organisations and users or start reports, scans and indexing.

  \<^item> \<open>Merkle\<close> (core/features/zkp/merkle.py): the tree over the sanctions names, inclusion paths and
    non-membership proofs. \<open>Fixtures\<close> (core/features/compliance/fixtures_loader.py): the signed
    fixture file and the tree cached over it. \<open>Schnorr\<close> (core/features/zkp/crypto.py): proofs of
    knowledge of a discrete logarithm. \<open>Zkp\<close> (core/features/zkp): issuing credentials over compliance
    records, verifying proofs against them, revocation.

  \<^item> \<open>Compliance\<close> (core/features/compliance): KYC, sanctions, AML, MiCA, suspicious-activity reports,
    their orchestration \<open>full_check\<close> and the endpoints. \<open>ComplianceTasks\<close>: the periodic tasks.

  \<^item> \<open>Tribunal\<close> (core/features/tribunal): commit-reveal voting, tally and slashing.

  \<^item> \<open>Chaincode\<close> (chaincode/*.go): the four transactions of the contract, their guards and the provenance
    trail as specification of the ledger. \<open>Network\<close> (core/fabric_client/network.py): the client that runs
    the peer binary. \<open>Wallet\<close> (core/fabric_client/wallet.py): identities, certificates and keys.
    \<open>Assets\<close> (core/features/assets): the asset service, its schemas, endpoints and synchronisation;
    \<open>AssetLaws\<close>: its agreement with the ledger. \<open>Resilience\<close> (core/core/circuit_breaker.py,
    core/fabric_client/retry.py): the circuit breaker and the retry decorator.

  \<^item> \<open>AuditTrail\<close> (core/features/audit): reading a trail, the integrity check, the report task. \<open>Queries\<close>:
    the read endpoints over the tables and the export of personal data.

  \<^item> \<open>Events\<close> (core/fabric_client/events.py, core/features/events/router.py): the listener with its token
    bucket and the server-sent events. \<open>Cli\<close> (cli/): requests with retries and an offline cache, silent
    refresh, redaction and the reader of the event stream.

  \<^bold>\<open>How state and operations correspond to the code.\<close> A table is a list of records with the columns
  the code reads or writes; an operation takes the tables and returns them updated, or an error of
  the component's error type with the tables unchanged (or changed, where the code commits before
  it raises). Clock readings, drawn UUIDs and random bytes are arguments, so every statement holds
  for all of them. Concurrent coroutines are interleavings of the stretches between awaits. Loops are
  structural recursion or have a measure: the retries run at most their configured number of attempts,
  the scanner of \<open>Json\<close> gets as much fuel as the text is long and \<open>loads_dumps\<close> shows it is enough, the
  digits of a float are searched up to 17, the number that identifies every double.

  \<^bold>\<open>Parameters.\<close> The packages the sources only call: py_ecc (laws \<open>curve_laws\<close>), the signatures of
  cryptography, rapidfuzz, python-jose (a decoder that enforces expiry), Keycloak's replies, Redis (laws
  \<open>redis_server\<close>), the peer binary, dateutil, Vault and the file system.

  \<^bold>\<open>What is shown.\<close> For each component: what its operations decide, on every branch; an invariant
  that every operation preserves, lifted to arbitrary runs through the interfaces; and, where the
  code computes with floats, that the comparisons decide as exact arithmetic does. Across components:
  that the database agrees with the ledger, that the audit of any ledger reads it back, that a logged-out
  or erased user stays out, that the client reads what the event stream sends, that the HTTP and gRPC
  front ends erase an account to the same tables, and where the two part: an approval written over gRPC
  is one that no check of the HTTP service accepts. Statements that
  document a defect are stated as the code behaves.

  \<^bold>\<open>Not modelled.\<close> Metrics, logging, message texts (their cases are constructors), database failures
  other than the constraints named in the theories, PDF layout, generated code, the fraud queries run
  by Neo4j, the encrypted scoring built on a C++ library, the assistant around a language model,
  terminal output and argument parsing of the client, scripts and deployment. A next step is to model
  the keyring encoding of the client's tokens and the background reader of the dashboard.
\<close>

end
